theory Spec2Isabelle
  imports Main "HOL-Library.Word"
begin

unbundle bit_operations_syntax

section \<open>KOZOS kernel (src/12/os/kozos.c): data model\<close>

text \<open>
  The kernel state of kozos.c is a handful of static tables (\<open>readyque\<close>, \<open>threads\<close>,
  \<open>handlers\<close>, \<open>msgboxes\<close>), the pointer \<open>current\<close> and the memory the kernel reaches
  through pointers. The model passes this state explicitly.

  \<^item> A pointer to a TCB is \<open>None\<close> (the C \<open>NULL\<close>) or \<open>Some i\<close>, the address of
    \<open>threads[i]\<close>. The intrusive \<open>next\<close> links stay pointers, so the aliasing between
    \<open>readyque[p].tail->next\<close> and \<open>current\<close> is the one of the C code.
  \<^item> Every other pointer (message buffers, parameter blocks, stacks, user cells) is a
    32-bit address, \<open>0\<close> being \<open>NULL\<close>.
  \<^item> A C \<open>int\<close> is an \<open>int\<close>: the kernel only compares and copies these values.
  \<^item> What C leaves undefined (a \<open>NULL\<close> dereference, an index outside an array) and
    the endless loop of \<open>kz_sysdown\<close> are outcomes of type \<open>fault\<close>: a function that
    reaches one returns \<open>Inl\<close> of it and no state.
\<close>

definition THREAD_NUM :: nat where
  "THREAD_NUM = 6"

definition PRIORITY_NUM :: nat where
  "PRIORITY_NUM = 16"

definition THREAD_NAME_SIZE :: nat where
  "THREAD_NAME_SIZE = 15"

definition KZ_THREAD_FLAG_READY :: "32 word" where
  "KZ_THREAD_FLAG_READY = push_bit 0 1"

datatype fault =
    SysDown                \<comment> \<open>\<open>kz_sysdown()\<close> was entered: it prints and loops for ever\<close>
  | NullDeref              \<comment> \<open>a \<open>NULL\<close> pointer was dereferenced\<close>
  | WildPointer            \<comment> \<open>an integer that is no TCB address was used as a TCB pointer\<close>
  | ReadyqueOutOfBounds    \<comment> \<open>\<open>readyque[i]\<close> with \<open>i\<close> outside \<open>[0, PRIORITY_NUM)\<close>\<close>
  | HandlersOutOfBounds    \<comment> \<open>\<open>handlers[type]\<close> with \<open>type\<close> outside \<open>[0, SOFTVEC_TYPE_NUM)\<close>\<close>
  | NameOverflow           \<comment> \<open>\<open>strcpy\<close> past the end of \<open>name[THREAD_NAME_SIZE + 1]\<close>\<close>
  | UnionMismatch          \<comment> \<open>a parameter block was read through another arm of its union\<close>

fun thenf :: "fault + 'a \<Rightarrow> ('a \<Rightarrow> fault + 'b) \<Rightarrow> fault + 'b" where
  "thenf (Inl e) f = Inl e"
| "thenf (Inr x) f = f x"

type_synonym thread_ptr = "nat option"

datatype kz_syscall_type_t =
    KZ_SYSCALL_TYPE_RUN
  | KZ_SYSCALL_TYPE_EXIT
  | KZ_SYSCALL_TYPE_WAIT
  | KZ_SYSCALL_TYPE_SLEEP
  | KZ_SYSCALL_TYPE_WAKEUP
  | KZ_SYSCALL_TYPE_GETID
  | KZ_SYSCALL_TYPE_CHPRI
  | KZ_SYSCALL_TYPE_KMALLOC
  | KZ_SYSCALL_TYPE_KMFREE
  | KZ_SYSCALL_TYPE_SEND
  | KZ_SYSCALL_TYPE_RECV
  | KZ_SYSCALL_TYPE_SETINTR

text \<open>\<open>struct _kz_thread\<close>; the nested structs \<open>init\<close>, \<open>syscall\<close> and \<open>context\<close> are flattened.\<close>

record kz_thread =
  "next" :: thread_ptr
  name :: string
  priority :: int
  stack :: "32 word"
  flags :: "32 word"
  init_func :: "32 word"
  init_argc :: int
  init_argv :: "32 word"
  syscall_type :: kz_syscall_type_t
  syscall_param :: "32 word"
  context_sp :: "32 word"

text \<open>What \<open>memset(thp, 0, sizeof(*thp))\<close> leaves in a TCB.\<close>

definition zero_thread :: kz_thread where
  "zero_thread = \<lparr> next = None, name = [], priority = 0, stack = 0, flags = 0,
     init_func = 0, init_argc = 0, init_argv = 0,
     syscall_type = KZ_SYSCALL_TYPE_RUN, syscall_param = 0, context_sp = 0 \<rparr>"

text \<open>\<open>struct _kz_msgbuf\<close>, with \<open>param.size\<close> and \<open>param.p\<close> flattened.\<close>

record kz_msgbuf =
  mnext :: "32 word"
  sender :: thread_ptr
  param_size :: int
  param_p :: "32 word"

text \<open>\<open>struct _kz_msgbox\<close> (the padding member \<open>dummy\<close> carries nothing).\<close>

record kz_msgbox =
  receiver :: thread_ptr
  mhead :: "32 word"
  mtail :: "32 word"

text \<open>One element of \<open>readyque\<close>.\<close>

record que =
  head :: thread_ptr
  tail :: thread_ptr

text \<open>
  \<open>kz_syscall_param_t\<close>: the header syscall.h is not among the sources, so the arms and
  their members are the ones \<open>call_functions\<close> reads and writes. \<open>'m\<close> is the
  enumeration \<open>kz_msgbox_id_t\<close>, declared in a header that is not among the sources
  either; it is a parameter of the model. A \<open>char *name\<close> is the string it points to.
\<close>

datatype 'm kz_syscall_param_t =
    Un_run (run_func: "32 word") (run_name: string) (run_priority: int)
      (run_stacksize: int) (run_argc: int) (run_argv: "32 word") (run_ret: "32 word")
  | Un_exit
  | Un_wait (wait_ret: int)
  | Un_sleep (sleep_ret: int)
  | Un_wakeup (wakeup_id: "32 word") (wakeup_ret: int)
  | Un_getid (getid_ret: "32 word")
  | Un_chpri (chpri_priority: int) (chpri_ret: int)
  | Un_kmalloc (kmalloc_size: int) (kmalloc_ret: "32 word")
  | Un_kmfree (kmfree_p: "32 word") (kmfree_ret: int)
  | Un_send (send_id: 'm) (send_size: int) (send_p: "32 word") (send_ret: int)
  | Un_recv (recv_id: 'm) (recv_sizep: "32 word") (recv_pp: "32 word") (recv_ret: "32 word")
  | Un_setintr (setintr_type: int) (setintr_handler: "32 word") (setintr_ret: int)

text \<open>
  The kernel state. \<open>readyque\<close>, \<open>threads\<close> and \<open>handlers\<close> are arrays: functions of
  the index, of which only the indices below the array's bound are the array (the
  accessors below check the bound where the C code can leave it). \<open>thread_stack\<close> is the
  static variable of \<open>thread_run\<close>. \<open>msgbufs\<close> is the kernel heap seen as message
  buffers, \<open>params\<close> the parameter blocks of the callers, \<open>mem\<close> the 32-bit cells of user
  memory (the stacks, and the cells \<open>recv\<close> writes through \<open>sizep\<close> and \<open>pp\<close>), each by
  address. \<open>kzmem\<close> is the state of the allocator of memory.c, which is not among the
  sources: its type \<open>'pool\<close> is a parameter.
\<close>

record ('m, 'pool) kz_state =
  readyque :: "nat \<Rightarrow> que"
  current :: thread_ptr
  threads :: "nat \<Rightarrow> kz_thread"
  handlers :: "nat \<Rightarrow> 32 word"
  msgboxes :: "'m \<Rightarrow> kz_msgbox"
  thread_stack :: "32 word"
  msgbufs :: "32 word \<Rightarrow> kz_msgbuf"
  params :: "32 word \<Rightarrow> 'm kz_syscall_param_t"
  mem :: "32 word \<Rightarrow> 32 word"
  kzmem :: 'pool

text \<open>
  What kozos.c takes from outside: the addresses the linker gives to \<open>threads[i]\<close>,
  \<open>thread_init\<close> and \<open>thread_end\<close>, \<open>sizeof(kz_msgbuf)\<close>, the bound \<open>SOFTVEC_TYPE_NUM\<close>
  of intr.h, and the two functions of memory.c. \<open>kzmem_alloc\<close> returns the address of
  the block (\<open>0\<close> when it has none) and the allocator's new state.
\<close>

record 'pool kz_extern =
  addr_threads :: "nat \<Rightarrow> 32 word"
  addr_thread_init :: "32 word"
  addr_thread_end :: "32 word"
  sizeof_kz_msgbuf :: int
  SOFTVEC_TYPE_NUM :: nat
  kzmem_alloc :: "'pool \<Rightarrow> int \<Rightarrow> 32 word \<times> 'pool"
  kzmem_free :: "'pool \<Rightarrow> 32 word \<Rightarrow> 'pool"

section \<open>Ready queues: getcurrent, putcurrent\<close>

text \<open>\<open>current->flags & KZ_THREAD_FLAG_READY\<close> as a C truth value.\<close>

definition is_ready :: "kz_thread \<Rightarrow> bool" where
  "is_ready t \<longleftrightarrow> (flags t AND KZ_THREAD_FLAG_READY) \<noteq> 0"

text \<open>\<open>readyque[i]\<close> is inside the array iff \<open>0 \<le> i < PRIORITY_NUM\<close>.\<close>

definition in_readyque :: "int \<Rightarrow> bool" where
  "in_readyque i \<longleftrightarrow> 0 \<le> i \<and> i < int PRIORITY_NUM"

text \<open>
  \<open>getcurrent\<close>: the result is the C return value and the new state. The thread is
  taken from the head of its queue without a look at where it is.
\<close>

definition getcurrent :: "('m, 'pool) kz_state \<Rightarrow> fault + (int \<times> ('m, 'pool) kz_state)" where
  "getcurrent s =
    (case current s of
       None \<Rightarrow> Inr (- 1, s)
     | Some c \<Rightarrow>
        if \<not> is_ready (threads s c) then Inr (1, s)
        else if \<not> in_readyque (priority (threads s c)) then Inl ReadyqueOutOfBounds
        else
          let i = nat (priority (threads s c));
              q1 = (readyque s i)\<lparr>head := next (threads s c)\<rparr>;
              q2 = (if head q1 = None then q1\<lparr>tail := None\<rparr> else q1);
              t1 = (threads s c)\<lparr>flags := flags (threads s c) AND NOT KZ_THREAD_FLAG_READY\<rparr>;
              t2 = t1\<lparr>next := None\<rparr>
          in Inr (0, s\<lparr>readyque := (readyque s)(i := q2), threads := (threads s)(c := t2)\<rparr>))"

text \<open>
  \<open>putcurrent\<close>. The two stores through pointers are done in the order of the code, the
  second on the result of the first, so that \<open>tail == current\<close> is what it is in C.
\<close>

definition putcurrent :: "('m, 'pool) kz_state \<Rightarrow> fault + (int \<times> ('m, 'pool) kz_state)" where
  "putcurrent s =
    (case current s of
       None \<Rightarrow> Inr (- 1, s)
     | Some c \<Rightarrow>
        if is_ready (threads s c) then Inr (1, s)
        else if \<not> in_readyque (priority (threads s c)) then Inl ReadyqueOutOfBounds
        else
          let i = nat (priority (threads s c));
              q = readyque s i;
              th1 = (case tail q of
                       Some t \<Rightarrow> (threads s)(t := (threads s t)\<lparr>next := Some c\<rparr>)
                     | None \<Rightarrow> threads s);
              q1 = (case tail q of Some t \<Rightarrow> q | None \<Rightarrow> q\<lparr>head := Some c\<rparr>);
              q2 = q1\<lparr>tail := Some c\<rparr>;
              th2 = th1(c := (th1 c)\<lparr>flags := flags (th1 c) OR KZ_THREAD_FLAG_READY\<rparr>)
          in Inr (0, s\<lparr>readyque := (readyque s)(i := q2), threads := th2\<rparr>))"

section \<open>The scheduler\<close>

text \<open>
  The \<open>for\<close> loop of \<open>schedule\<close>: from \<open>i\<close>, the first index whose queue has a head, or
  \<open>PRIORITY_NUM\<close>.
\<close>

function schedule_loop :: "('m, 'pool) kz_state \<Rightarrow> nat \<Rightarrow> nat" where
  "schedule_loop s i =
    (if i < PRIORITY_NUM then
       (if head (readyque s i) \<noteq> None then i else schedule_loop s (i + 1))
     else i)"
  by pat_completeness auto
termination
  by (relation "measure (\<lambda>(s, i). PRIORITY_NUM - i)") auto

declare schedule_loop.simps [simp del]

definition kz_sysdown :: "fault + 'a" where
  "kz_sysdown = Inl SysDown"

definition schedule :: "('m, 'pool) kz_state \<Rightarrow> fault + ('m, 'pool) kz_state" where
  "schedule s =
    (let i = schedule_loop s 0
     in if i = PRIORITY_NUM then kz_sysdown
        else Inr (s\<lparr>current := head (readyque s i)\<rparr>))"

section \<open>The handlers of the system calls\<close>

text \<open>The casts between \<open>kz_thread *\<close> and \<open>kz_thread_id_t\<close> (a 32-bit integer).\<close>

definition tcb_addr :: "'pool kz_extern \<Rightarrow> thread_ptr \<Rightarrow> 32 word" where
  "tcb_addr L p = (case p of None \<Rightarrow> 0 | Some i \<Rightarrow> addr_threads L i)"

definition tcb_ptr :: "'pool kz_extern \<Rightarrow> 32 word \<Rightarrow> fault + thread_ptr" where
  "tcb_ptr L a =
    (if a = 0 then Inr None
     else case find (\<lambda>i. addr_threads L i = a) [0..<THREAD_NUM] of
            Some i \<Rightarrow> Inr (Some i)
          | None \<Rightarrow> Inl WildPointer)"

text \<open>
  \<open>memset(b, 0, len)\<close> on user memory: the cells whose address lies in the \<open>len\<close> bytes
  from \<open>b\<close> become \<open>0\<close> (stacks are made of whole 32-bit cells).
\<close>

definition memset_zero :: "(32 word \<Rightarrow> 32 word) \<Rightarrow> 32 word \<Rightarrow> int \<Rightarrow> 32 word \<Rightarrow> 32 word" where
  "memset_zero m b len = (\<lambda>a. if 0 < len \<and> uint (a - b) < len then 0 else m a)"

text \<open>\<open>*(--sp) = v\<close> on a pair of the stack pointer and the memory.\<close>

definition push :: "32 word \<times> (32 word \<Rightarrow> 32 word) \<Rightarrow> 32 word \<Rightarrow> 32 word \<times> (32 word \<Rightarrow> 32 word)" where
  "push spm v = (fst spm - 4, (snd spm)(fst spm - 4 := v))"

text \<open>The search for a free TCB in \<open>thread_run\<close>: the first free slot from \<open>i\<close>, or \<open>THREAD_NUM\<close>.\<close>

function thread_run_loop :: "('m, 'pool) kz_state \<Rightarrow> nat \<Rightarrow> nat" where
  "thread_run_loop s i =
    (if i < THREAD_NUM then
       (if init_func (threads s i) = 0 then i else thread_run_loop s (i + 1))
     else i)"
  by pat_completeness auto
termination
  by (relation "measure (\<lambda>(s, i). THREAD_NUM - i)") auto

declare thread_run_loop.simps [simp del]

text \<open>The nine words \<open>thread_run\<close> pushes on the new stack, in the order it pushes them.\<close>

definition startup_frame :: "'pool kz_extern \<Rightarrow> int \<Rightarrow> nat \<Rightarrow> 32 word list" where
  "startup_frame L pri i =
    [addr_thread_end L,
     addr_thread_init L OR push_bit 24 (if pri \<noteq> 0 then 0 else 0xc0),
     0, 0, 0, 0, 0, 0,
     addr_threads L i]"

definition thread_run ::
  "'pool kz_extern \<Rightarrow> 32 word \<Rightarrow> string \<Rightarrow> int \<Rightarrow> int \<Rightarrow> int \<Rightarrow> 32 word \<Rightarrow>
   ('m, 'pool) kz_state \<Rightarrow> fault + (32 word \<times> ('m, 'pool) kz_state)" where
  "thread_run L func nm pri stacksize argc argv s =
    (let i = thread_run_loop s 0
     in if i = THREAD_NUM then Inr (- 1, s)
        else if THREAD_NAME_SIZE < length nm then Inl NameOverflow
        else
          let t1 = zero_thread\<lparr>name := nm, next := None, priority := pri, flags := 0,
                     init_func := func, init_argc := argc, init_argv := argv\<rparr>;
              m1 = memset_zero (mem s) (thread_stack s) stacksize;
              ts = thread_stack s + word_of_int stacksize;
              t2 = t1\<lparr>stack := ts\<rparr>;
              spm = foldl push (ts, m1) (startup_frame L pri i);
              t3 = t2\<lparr>context_sp := fst spm\<rparr>;
              s1 = s\<lparr>threads := (threads s)(i := t3), mem := snd spm, thread_stack := ts\<rparr>
          in thenf (putcurrent s1) (\<lambda>(r1, s2).
             thenf (putcurrent (s2\<lparr>current := Some i\<rparr>)) (\<lambda>(r2, s3).
             Inr (tcb_addr L (current s3), s3))))"

definition thread_exit :: "('m, 'pool) kz_state \<Rightarrow> fault + (int \<times> ('m, 'pool) kz_state)" where
  "thread_exit s =
    (case current s of
       None \<Rightarrow> Inl NullDeref
     | Some c \<Rightarrow> Inr (0, s\<lparr>threads := (threads s)(c := zero_thread)\<rparr>))"

definition thread_wait :: "('m, 'pool) kz_state \<Rightarrow> fault + (int \<times> ('m, 'pool) kz_state)" where
  "thread_wait s = thenf (putcurrent s) (\<lambda>(r, s1). Inr (0, s1))"

definition thread_sleep :: "('m, 'pool) kz_state \<Rightarrow> fault + (int \<times> ('m, 'pool) kz_state)" where
  "thread_sleep s = Inr (0, s)"

definition thread_wakeup ::
  "'pool kz_extern \<Rightarrow> 32 word \<Rightarrow> ('m, 'pool) kz_state \<Rightarrow> fault + (int \<times> ('m, 'pool) kz_state)" where
  "thread_wakeup L tid s =
    thenf (putcurrent s) (\<lambda>(r1, s1).
    thenf (tcb_ptr L tid) (\<lambda>p.
    thenf (putcurrent (s1\<lparr>current := p\<rparr>)) (\<lambda>(r2, s2).
    Inr (0, s2))))"

definition thread_getid ::
  "'pool kz_extern \<Rightarrow> ('m, 'pool) kz_state \<Rightarrow> fault + (32 word \<times> ('m, 'pool) kz_state)" where
  "thread_getid L s = thenf (putcurrent s) (\<lambda>(r, s1). Inr (tcb_addr L (current s1), s1))"

definition thread_chpri :: "int \<Rightarrow> ('m, 'pool) kz_state \<Rightarrow> fault + (int \<times> ('m, 'pool) kz_state)" where
  "thread_chpri pri s =
    (case current s of
       None \<Rightarrow> Inl NullDeref
     | Some c \<Rightarrow>
        let old = priority (threads s c);
            s1 = (if 0 \<le> pri
                  then s\<lparr>threads := (threads s)(c := (threads s c)\<lparr>priority := pri\<rparr>)\<rparr>
                  else s)
        in thenf (putcurrent s1) (\<lambda>(r, s2). Inr (old, s2)))"

definition thread_kmalloc ::
  "'pool kz_extern \<Rightarrow> int \<Rightarrow> ('m, 'pool) kz_state \<Rightarrow> fault + (32 word \<times> ('m, 'pool) kz_state)" where
  "thread_kmalloc L sz s =
    thenf (putcurrent s) (\<lambda>(r, s1).
      Inr (fst (kzmem_alloc L (kzmem s1) sz),
           s1\<lparr>kzmem := snd (kzmem_alloc L (kzmem s1) sz)\<rparr>))"

definition thread_kmfree ::
  "'pool kz_extern \<Rightarrow> 32 word \<Rightarrow> ('m, 'pool) kz_state \<Rightarrow> fault + (int \<times> ('m, 'pool) kz_state)" where
  "thread_kmfree L p s =
    thenf (putcurrent (s\<lparr>kzmem := kzmem_free L (kzmem s) p\<rparr>)) (\<lambda>(r, s1). Inr (0, s1))"

text \<open>
  \<open>sendmsg\<close>: as in \<open>putcurrent\<close>, the stores through \<open>mp\<close> and through \<open>mboxp->tail\<close> are
  done one after the other.
\<close>

definition sendmsg ::
  "'pool kz_extern \<Rightarrow> 'm \<Rightarrow> thread_ptr \<Rightarrow> int \<Rightarrow> 32 word \<Rightarrow> ('m, 'pool) kz_state \<Rightarrow>
   fault + ('m, 'pool) kz_state" where
  "sendmsg L mboxp thp sz p s =
    (let mp = fst (kzmem_alloc L (kzmem s) (sizeof_kz_msgbuf L));
         pool = snd (kzmem_alloc L (kzmem s) (sizeof_kz_msgbuf L))
     in if mp = 0 then kz_sysdown
        else
          let b1 = (msgbufs s)(mp := \<lparr>mnext = 0, sender = thp, param_size = sz, param_p = p\<rparr>);
              box = msgboxes s mboxp;
              b2 = (if mtail box \<noteq> 0
                    then b1(mtail box := (b1 (mtail box))\<lparr>mnext := mp\<rparr>)
                    else b1);
              box1 = (if mtail box \<noteq> 0 then box else box\<lparr>mhead := mp\<rparr>);
              box2 = box1\<lparr>mtail := mp\<rparr>
          in Inr (s\<lparr>kzmem := pool, msgbufs := b2, msgboxes := (msgboxes s)(mboxp := box2)\<rparr>))"

text \<open>The three stores of \<open>recvmsg\<close> into the receiver's parameter block and through it.\<close>

fun set_recv_ret :: "32 word \<Rightarrow> 'm kz_syscall_param_t \<Rightarrow> fault + 'm kz_syscall_param_t" where
  "set_recv_ret r (Un_recv i sp pp r0) = Inr (Un_recv i sp pp r)"
| "set_recv_ret r u = Inl UnionMismatch"

definition recvmsg ::
  "'pool kz_extern \<Rightarrow> 'm \<Rightarrow> ('m, 'pool) kz_state \<Rightarrow> fault + ('m, 'pool) kz_state" where
  "recvmsg L mboxp s =
    (let mp = mhead (msgboxes s mboxp)
     in if mp = 0 then Inl NullDeref
        else
          let box1 = (msgboxes s mboxp)\<lparr>mhead := mnext (msgbufs s mp)\<rparr>;
              box2 = (if mhead box1 = 0 then box1\<lparr>mtail := 0\<rparr> else box1);
              bufs = (msgbufs s)(mp := (msgbufs s mp)\<lparr>mnext := 0\<rparr>)
          in case receiver box2 of
               None \<Rightarrow> Inl NullDeref
             | Some r \<Rightarrow>
                let p = syscall_param (threads s r)
                in if p = 0 then Inl NullDeref
                   else
                     thenf (set_recv_ret (tcb_addr L (sender (bufs mp))) (params s p)) (\<lambda>u.
                       let m1 = (if recv_sizep u \<noteq> 0
                                 then (mem s)(recv_sizep u := word_of_int (param_size (bufs mp)))
                                 else mem s);
                           m2 = (if recv_pp u \<noteq> 0
                                 then m1(recv_pp u := param_p (bufs mp))
                                 else m1)
                       in Inr (s\<lparr>msgboxes := (msgboxes s)(mboxp := box2\<lparr>receiver := None\<rparr>),
                                 msgbufs := bufs,
                                 params := (params s)(p := u),
                                 mem := m2,
                                 kzmem := kzmem_free L (kzmem s) mp\<rparr>)))"

definition thread_send ::
  "'pool kz_extern \<Rightarrow> 'm \<Rightarrow> int \<Rightarrow> 32 word \<Rightarrow> ('m, 'pool) kz_state \<Rightarrow>
   fault + (int \<times> ('m, 'pool) kz_state)" where
  "thread_send L mid sz p s =
    thenf (putcurrent s) (\<lambda>(r1, s1).
    thenf (sendmsg L mid (current s1) sz p s1) (\<lambda>s2.
      if receiver (msgboxes s2 mid) \<noteq> None then
        thenf (recvmsg L mid (s2\<lparr>current := receiver (msgboxes s2 mid)\<rparr>)) (\<lambda>s3.
        thenf (putcurrent s3) (\<lambda>(r2, s4). Inr (sz, s4)))
      else Inr (sz, s2)))"

text \<open>
  \<open>thread_recv\<close>. Its arguments \<open>sizep\<close> and \<open>pp\<close> are not used by the code: \<open>recvmsg\<close>
  takes them from the parameter block.
\<close>

definition thread_recv ::
  "'pool kz_extern \<Rightarrow> 'm \<Rightarrow> 32 word \<Rightarrow> 32 word \<Rightarrow> ('m, 'pool) kz_state \<Rightarrow>
   fault + (32 word \<times> ('m, 'pool) kz_state)" where
  "thread_recv L mid sizep pp s =
    (if receiver (msgboxes s mid) \<noteq> None then kz_sysdown
     else
       let s1 = s\<lparr>msgboxes := (msgboxes s)(mid := (msgboxes s mid)\<lparr>receiver := current s\<rparr>)\<rparr>
       in if mhead (msgboxes s1 mid) = 0 then Inr (- 1, s1)
          else
            thenf (recvmsg L mid s1) (\<lambda>s2.
            thenf (putcurrent s2) (\<lambda>(r, s3).
              case current s3 of
                None \<Rightarrow> Inl NullDeref
              | Some c \<Rightarrow>
                 if syscall_param (threads s3 c) = 0 then Inl NullDeref
                 else (case params s3 (syscall_param (threads s3 c)) of
                         Un_recv i sp q ret \<Rightarrow> Inr (ret, s3)
                       | _ \<Rightarrow> Inl UnionMismatch))))"

text \<open>
  \<open>thread_setintr\<close>: \<open>softvec_setintr\<close> writes the software vector table, which is outside
  the kernel state.
\<close>

definition thread_setintr ::
  "'pool kz_extern \<Rightarrow> int \<Rightarrow> 32 word \<Rightarrow> ('m, 'pool) kz_state \<Rightarrow>
   fault + (int \<times> ('m, 'pool) kz_state)" where
  "thread_setintr L ty handler s =
    (if \<not> (0 \<le> ty \<and> ty < int (SOFTVEC_TYPE_NUM L)) then Inl HandlersOutOfBounds
     else
       thenf (putcurrent (s\<lparr>handlers := (handlers s)(nat ty := handler)\<rparr>)) (\<lambda>(r, s1).
       Inr (0, s1)))"

section \<open>The dispatcher\<close>

text \<open>The store \<open>p->un.X.ret = v\<close>, for each arm \<open>X\<close> of the union.\<close>

fun set_run_ret :: "32 word \<Rightarrow> 'm kz_syscall_param_t \<Rightarrow> fault + 'm kz_syscall_param_t" where
  "set_run_ret r (Un_run f n pr ss ac av r0) = Inr (Un_run f n pr ss ac av r)"
| "set_run_ret r u = Inl UnionMismatch"

fun set_wait_ret :: "int \<Rightarrow> 'm kz_syscall_param_t \<Rightarrow> fault + 'm kz_syscall_param_t" where
  "set_wait_ret r (Un_wait r0) = Inr (Un_wait r)"
| "set_wait_ret r u = Inl UnionMismatch"

fun set_sleep_ret :: "int \<Rightarrow> 'm kz_syscall_param_t \<Rightarrow> fault + 'm kz_syscall_param_t" where
  "set_sleep_ret r (Un_sleep r0) = Inr (Un_sleep r)"
| "set_sleep_ret r u = Inl UnionMismatch"

fun set_wakeup_ret :: "int \<Rightarrow> 'm kz_syscall_param_t \<Rightarrow> fault + 'm kz_syscall_param_t" where
  "set_wakeup_ret r (Un_wakeup i r0) = Inr (Un_wakeup i r)"
| "set_wakeup_ret r u = Inl UnionMismatch"

fun set_getid_ret :: "32 word \<Rightarrow> 'm kz_syscall_param_t \<Rightarrow> fault + 'm kz_syscall_param_t" where
  "set_getid_ret r (Un_getid r0) = Inr (Un_getid r)"
| "set_getid_ret r u = Inl UnionMismatch"

fun set_chpri_ret :: "int \<Rightarrow> 'm kz_syscall_param_t \<Rightarrow> fault + 'm kz_syscall_param_t" where
  "set_chpri_ret r (Un_chpri pr r0) = Inr (Un_chpri pr r)"
| "set_chpri_ret r u = Inl UnionMismatch"

fun set_kmalloc_ret :: "32 word \<Rightarrow> 'm kz_syscall_param_t \<Rightarrow> fault + 'm kz_syscall_param_t" where
  "set_kmalloc_ret r (Un_kmalloc sz r0) = Inr (Un_kmalloc sz r)"
| "set_kmalloc_ret r u = Inl UnionMismatch"

fun set_kmfree_ret :: "int \<Rightarrow> 'm kz_syscall_param_t \<Rightarrow> fault + 'm kz_syscall_param_t" where
  "set_kmfree_ret r (Un_kmfree q r0) = Inr (Un_kmfree q r)"
| "set_kmfree_ret r u = Inl UnionMismatch"

fun set_send_ret :: "int \<Rightarrow> 'm kz_syscall_param_t \<Rightarrow> fault + 'm kz_syscall_param_t" where
  "set_send_ret r (Un_send i sz q r0) = Inr (Un_send i sz q r)"
| "set_send_ret r u = Inl UnionMismatch"

fun set_setintr_ret :: "int \<Rightarrow> 'm kz_syscall_param_t \<Rightarrow> fault + 'm kz_syscall_param_t" where
  "set_setintr_ret r (Un_setintr ty h r0) = Inr (Un_setintr ty h r)"
| "set_setintr_ret r u = Inl UnionMismatch"

text \<open>A store into the block at \<open>p\<close>, made after the handler has returned.\<close>

definition store_param ::
  "32 word \<Rightarrow> ('m kz_syscall_param_t \<Rightarrow> fault + 'm kz_syscall_param_t) \<Rightarrow>
   ('m, 'pool) kz_state \<Rightarrow> fault + ('m, 'pool) kz_state" where
  "store_param p f s =
    (if p = 0 then Inl NullDeref
     else thenf (f (params s p)) (\<lambda>u. Inr (s\<lparr>params := (params s)(p := u)\<rparr>)))"

text \<open>A load of the arguments from the block at \<open>p\<close>, made before the handler is called.\<close>

definition load_param ::
  "32 word \<Rightarrow> ('m, 'pool) kz_state \<Rightarrow> fault + 'm kz_syscall_param_t" where
  "load_param p s = (if p = 0 then Inl NullDeref else Inr (params s p))"

text \<open>
  \<open>call_functions\<close>. The type \<open>kz_syscall_type_t\<close> has the twelve values of the \<open>switch\<close>;
  \<open>thread_exit\<close> stores no result.
\<close>

definition call_functions ::
  "'pool kz_extern \<Rightarrow> kz_syscall_type_t \<Rightarrow> 32 word \<Rightarrow> ('m, 'pool) kz_state \<Rightarrow>
   fault + ('m, 'pool) kz_state" where
  "call_functions L ty p s =
    (case ty of
       KZ_SYSCALL_TYPE_RUN \<Rightarrow>
         thenf (load_param p s) (\<lambda>u. case u of
             Un_run f n pr ss ac av r0 \<Rightarrow>
               thenf (thread_run L f n pr ss ac av s) (\<lambda>(r, s1). store_param p (set_run_ret r) s1)
           | _ \<Rightarrow> Inl UnionMismatch)
     | KZ_SYSCALL_TYPE_EXIT \<Rightarrow>
         thenf (thread_exit s) (\<lambda>(r, s1). Inr s1)
     | KZ_SYSCALL_TYPE_WAIT \<Rightarrow>
         thenf (thread_wait s) (\<lambda>(r, s1). store_param p (set_wait_ret r) s1)
     | KZ_SYSCALL_TYPE_SLEEP \<Rightarrow>
         thenf (thread_sleep s) (\<lambda>(r, s1). store_param p (set_sleep_ret r) s1)
     | KZ_SYSCALL_TYPE_WAKEUP \<Rightarrow>
         thenf (load_param p s) (\<lambda>u. case u of
             Un_wakeup i r0 \<Rightarrow>
               thenf (thread_wakeup L i s) (\<lambda>(r, s1). store_param p (set_wakeup_ret r) s1)
           | _ \<Rightarrow> Inl UnionMismatch)
     | KZ_SYSCALL_TYPE_GETID \<Rightarrow>
         thenf (thread_getid L s) (\<lambda>(r, s1). store_param p (set_getid_ret r) s1)
     | KZ_SYSCALL_TYPE_CHPRI \<Rightarrow>
         thenf (load_param p s) (\<lambda>u. case u of
             Un_chpri pr r0 \<Rightarrow>
               thenf (thread_chpri pr s) (\<lambda>(r, s1). store_param p (set_chpri_ret r) s1)
           | _ \<Rightarrow> Inl UnionMismatch)
     | KZ_SYSCALL_TYPE_KMALLOC \<Rightarrow>
         thenf (load_param p s) (\<lambda>u. case u of
             Un_kmalloc sz r0 \<Rightarrow>
               thenf (thread_kmalloc L sz s) (\<lambda>(r, s1). store_param p (set_kmalloc_ret r) s1)
           | _ \<Rightarrow> Inl UnionMismatch)
     | KZ_SYSCALL_TYPE_KMFREE \<Rightarrow>
         thenf (load_param p s) (\<lambda>u. case u of
             Un_kmfree q r0 \<Rightarrow>
               thenf (thread_kmfree L q s) (\<lambda>(r, s1). store_param p (set_kmfree_ret r) s1)
           | _ \<Rightarrow> Inl UnionMismatch)
     | KZ_SYSCALL_TYPE_SEND \<Rightarrow>
         thenf (load_param p s) (\<lambda>u. case u of
             Un_send i sz q r0 \<Rightarrow>
               thenf (thread_send L i sz q s) (\<lambda>(r, s1). store_param p (set_send_ret r) s1)
           | _ \<Rightarrow> Inl UnionMismatch)
     | KZ_SYSCALL_TYPE_RECV \<Rightarrow>
         thenf (load_param p s) (\<lambda>u. case u of
             Un_recv i sp pp r0 \<Rightarrow>
               thenf (thread_recv L i sp pp s) (\<lambda>(r, s1). store_param p (set_recv_ret r) s1)
           | _ \<Rightarrow> Inl UnionMismatch)
     | KZ_SYSCALL_TYPE_SETINTR \<Rightarrow>
         thenf (load_param p s) (\<lambda>u. case u of
             Un_setintr t h r0 \<Rightarrow>
               thenf (thread_setintr L t h s) (\<lambda>(r, s1). store_param p (set_setintr_ret r) s1)
           | _ \<Rightarrow> Inl UnionMismatch))"

definition syscall_proc ::
  "'pool kz_extern \<Rightarrow> kz_syscall_type_t \<Rightarrow> 32 word \<Rightarrow> ('m, 'pool) kz_state \<Rightarrow>
   fault + ('m, 'pool) kz_state" where
  "syscall_proc L ty p s = thenf (getcurrent s) (\<lambda>(r, s1). call_functions L ty p s1)"

definition srvcall_proc ::
  "'pool kz_extern \<Rightarrow> kz_syscall_type_t \<Rightarrow> 32 word \<Rightarrow> ('m, 'pool) kz_state \<Rightarrow>
   fault + ('m, 'pool) kz_state" where
  "srvcall_proc L ty p s = call_functions L ty p (s\<lparr>current := None\<rparr>)"

definition kz_srvcall ::
  "'pool kz_extern \<Rightarrow> kz_syscall_type_t \<Rightarrow> 32 word \<Rightarrow> ('m, 'pool) kz_state \<Rightarrow>
   fault + ('m, 'pool) kz_state" where
  "kz_srvcall L ty param s = srvcall_proc L ty param s"

definition syscall_intr ::
  "'pool kz_extern \<Rightarrow> ('m, 'pool) kz_state \<Rightarrow> fault + ('m, 'pool) kz_state" where
  "syscall_intr L s =
    (case current s of
       None \<Rightarrow> Inl NullDeref
     | Some c \<Rightarrow> syscall_proc L (syscall_type (threads s c)) (syscall_param (threads s c)) s)"

definition softerr_intr :: "('m, 'pool) kz_state \<Rightarrow> fault + ('m, 'pool) kz_state" where
  "softerr_intr s =
    (case current s of
       None \<Rightarrow> Inl NullDeref
     | Some c \<Rightarrow>
        thenf (getcurrent s) (\<lambda>(r, s1). thenf (thread_exit s1) (\<lambda>(r2, s2). Inr s2)))"

text \<open>
  \<open>thread_intr\<close>. The entry \<open>handlers[type]\<close> is a pointer to code: the model is given the
  function it points to (\<open>None\<close> for a null entry). \<open>dispatch\<close> resumes the thread
  \<open>current\<close> designates and changes nothing of the state.
\<close>

definition thread_intr ::
  "(('m, 'pool) kz_state \<Rightarrow> fault + ('m, 'pool) kz_state) option \<Rightarrow> 32 word \<Rightarrow>
   ('m, 'pool) kz_state \<Rightarrow> fault + ('m, 'pool) kz_state" where
  "thread_intr handler sp s =
    (case current s of
       None \<Rightarrow> Inl NullDeref
     | Some c \<Rightarrow>
        let s1 = s\<lparr>threads := (threads s)(c := (threads s c)\<lparr>context_sp := sp\<rparr>)\<rparr>
        in thenf (case handler of None \<Rightarrow> Inr s1 | Some h \<Rightarrow> h s1) schedule)"

text \<open>
  \<open>kz_syscall\<close>, with the trap it raises: \<open>trapa #0\<close> enters \<open>thread_intr\<close> with the
  vector of the system calls, whose handler is \<open>syscall_intr\<close> since \<open>kz_start\<close>; \<open>sp\<close>
  is the stack pointer the trap saves.
\<close>

definition kz_syscall ::
  "'pool kz_extern \<Rightarrow> kz_syscall_type_t \<Rightarrow> 32 word \<Rightarrow> 32 word \<Rightarrow> ('m, 'pool) kz_state \<Rightarrow>
   fault + ('m, 'pool) kz_state" where
  "kz_syscall L ty param sp s =
    (case current s of
       None \<Rightarrow> Inl NullDeref
     | Some c \<Rightarrow>
        thread_intr (Some (syscall_intr L)) sp
          (s\<lparr>threads := (threads s)(c := (threads s c)\<lparr>syscall_type := ty, syscall_param := param\<rparr>)\<rparr>))"

section \<open>Queues as lists\<close>

text \<open>
  \<open>thread_path th p xs\<close>: following \<open>next\<close> from the pointer \<open>p\<close> visits exactly the TCBs
  \<open>xs\<close>, in this order, and then reaches \<open>NULL\<close>.
\<close>

fun thread_path :: "(nat \<Rightarrow> kz_thread) \<Rightarrow> thread_ptr \<Rightarrow> nat list \<Rightarrow> bool" where
  "thread_path th p [] \<longleftrightarrow> p = None"
| "thread_path th p (x # xs) \<longleftrightarrow> p = Some x \<and> thread_path th (next (th x)) xs"

text \<open>
  \<open>ready_list s i xs\<close>: \<open>readyque[i]\<close> holds the threads \<open>xs\<close>, first to last, each once,
  and its \<open>tail\<close> is the last of them.
\<close>

definition ready_list :: "('m, 'pool) kz_state \<Rightarrow> nat \<Rightarrow> nat list \<Rightarrow> bool" where
  "ready_list s i xs \<longleftrightarrow>
     thread_path (threads s) (head (readyque s i)) xs \<and> distinct xs \<and>
     tail (readyque s i) = (if xs = [] then None else Some (last xs))"

text \<open>
  \<open>ready_lists s qs\<close>: every queue \<open>i\<close> of the array holds the list \<open>qs i\<close>, and no thread is
  in two queues. \<open>queued qs x\<close>: the thread \<open>x\<close> is in one of them.
\<close>

definition ready_lists :: "('m, 'pool) kz_state \<Rightarrow> (nat \<Rightarrow> nat list) \<Rightarrow> bool" where
  "ready_lists s qs \<longleftrightarrow>
     (\<forall>i<PRIORITY_NUM. ready_list s i (qs i)) \<and>
     (\<forall>i<PRIORITY_NUM. \<forall>j<PRIORITY_NUM. i \<noteq> j \<longrightarrow> set (qs i) \<inter> set (qs j) = {})"

definition queued :: "(nat \<Rightarrow> nat list) \<Rightarrow> nat \<Rightarrow> bool" where
  "queued qs x \<longleftrightarrow> (\<exists>i<PRIORITY_NUM. x \<in> set (qs i))"

text \<open>
  \<open>detached s qs x\<close>: the thread \<open>x\<close> is off the ready queues, as \<open>getcurrent\<close> and
  \<open>thread_run\<close> leave a thread: not \<open>READY\<close>, its \<open>next\<close> null, and in no queue.
\<close>

definition detached :: "('m, 'pool) kz_state \<Rightarrow> (nat \<Rightarrow> nat list) \<Rightarrow> nat \<Rightarrow> bool" where
  "detached s qs x \<longleftrightarrow>
     \<not> is_ready (threads s x) \<and> next (threads s x) = None \<and> \<not> queued qs x"

text \<open>
  \<open>links_only s s'\<close>: from \<open>s\<close> to \<open>s'\<close> nothing has changed but the ready queues and, in
  the TCBs, the members \<open>next\<close> and \<open>flags\<close>.
\<close>

definition links_only :: "('m, 'pool) kz_state \<Rightarrow> ('m, 'pool) kz_state \<Rightarrow> bool" where
  "links_only s s' \<longleftrightarrow>
     current s' = current s \<and> handlers s' = handlers s \<and> msgboxes s' = msgboxes s \<and>
     thread_stack s' = thread_stack s \<and> msgbufs s' = msgbufs s \<and> params s' = params s \<and>
     mem s' = mem s \<and> kzmem s' = kzmem s \<and>
     (\<forall>x. threads s' x = (threads s x)\<lparr>next := next (threads s' x), flags := flags (threads s' x)\<rparr>)"

text \<open>
  The same for a mailbox: \<open>msg_path b p bs\<close> follows \<open>next\<close> from the buffer at \<open>p\<close> through
  the buffers \<open>bs\<close> to \<open>NULL\<close>; \<open>msg_list s m bs\<close>: the FIFO of mailbox \<open>m\<close> holds the buffers
  \<open>bs\<close>, first to last.
\<close>

fun msg_path :: "(32 word \<Rightarrow> kz_msgbuf) \<Rightarrow> 32 word \<Rightarrow> 32 word list \<Rightarrow> bool" where
  "msg_path b p [] \<longleftrightarrow> p = 0"
| "msg_path b p (x # xs) \<longleftrightarrow> p = x \<and> x \<noteq> 0 \<and> msg_path b (mnext (b x)) xs"

definition msg_list :: "('m, 'pool) kz_state \<Rightarrow> 'm \<Rightarrow> 32 word list \<Rightarrow> bool" where
  "msg_list s m bs \<longleftrightarrow>
     msg_path (msgbufs s) (mhead (msgboxes s m)) bs \<and> distinct bs \<and>
     mtail (msgboxes s m) = (if bs = [] then 0 else last bs)"

section \<open>Requests\<close>

text \<open>
  \<open>mbox_inv s m\<close>: mailbox \<open>m\<close> does not have both a pending receiver and a message.
\<close>

definition mbox_inv :: "('m, 'pool) kz_state \<Rightarrow> 'm \<Rightarrow> bool" where
  "mbox_inv s m \<longleftrightarrow> \<not> (receiver (msgboxes s m) \<noteq> None \<and> mhead (msgboxes s m) \<noteq> 0)"

text \<open>
  Modelled from the spec: the request wrappers of syscall.c (\<open>kz_run\<close>, \<open>kz_send\<close>,
  \<open>kz_recv\<close>, ...), which are not among the sources. The spec has them as "each a thin
  wrapper that fills a parameter block and issues the trap. From interrupt-handler
  context, the service-call variant invokes the same dispatcher without a trap". A
  request is the tag, the address of the block, what the wrapper puts in the block and,
  for a system call, the stack pointer the trap saves.
\<close>

datatype 'm request =
    Syscall kz_syscall_type_t "32 word" "'m kz_syscall_param_t" "32 word"
  | Srvcall kz_syscall_type_t "32 word" "'m kz_syscall_param_t"

definition do_request ::
  "'pool kz_extern \<Rightarrow> 'm request \<Rightarrow> ('m, 'pool) kz_state \<Rightarrow> fault + ('m, 'pool) kz_state" where
  "do_request L rq s =
    (case rq of
       Syscall ty p u sp \<Rightarrow> kz_syscall L ty p sp (s\<lparr>params := (params s)(p := u)\<rparr>)
     | Srvcall ty p u \<Rightarrow> kz_srvcall L ty p (s\<lparr>params := (params s)(p := u)\<rparr>))"

text \<open>A sequence of requests, each on the state the one before has returned.\<close>

fun run_requests ::
  "'pool kz_extern \<Rightarrow> 'm request list \<Rightarrow> ('m, 'pool) kz_state \<Rightarrow> fault + ('m, 'pool) kz_state" where
  "run_requests L [] s = Inr s"
| "run_requests L (rq # rqs) s = thenf (do_request L rq s) (run_requests L rqs)"

section \<open>A configuration to run the model on\<close>

text \<open>
  The two mailboxes of the test programs test11_1.c and test11_2.c, an allocator that
  hands out the blocks of a list, and addresses for the linker's symbols.
\<close>

datatype msgbox_id = MSGBOX_ID_MSGBOX1 | MSGBOX_ID_MSGBOX2

definition test_extern :: "32 word list kz_extern" where
  "test_extern =
    \<lparr> addr_threads = (\<lambda>i. 0xFFD000 + 0x40 * of_nat i),
      addr_thread_init = 0x1100,
      addr_thread_end = 0x1200,
      sizeof_kz_msgbuf = 16,
      SOFTVEC_TYPE_NUM = 3,
      kzmem_alloc = (\<lambda>pool sz. case pool of [] \<Rightarrow> (0, []) | a # as \<Rightarrow> (a, as)),
      kzmem_free = (\<lambda>pool a. a # pool) \<rparr>"

text \<open>The state in which every table is zero, as the \<open>memset\<close> calls of \<open>kz_start\<close> leave it.\<close>

definition zero_state :: "(msgbox_id, 32 word list) kz_state" where
  "zero_state =
    \<lparr> readyque = (\<lambda>i. \<lparr>head = None, tail = None\<rparr>),
      current = None,
      threads = (\<lambda>i. zero_thread),
      handlers = (\<lambda>i. 0),
      msgboxes = (\<lambda>i. \<lparr>receiver = None, mhead = 0, mtail = 0\<rparr>),
      thread_stack = 0xFFF400,
      msgbufs = (\<lambda>a. \<lparr>mnext = 0, sender = None, param_size = 0, param_p = 0\<rparr>),
      params = (\<lambda>a. Un_exit),
      mem = (\<lambda>a. 0),
      kzmem = [0xFFE000, 0xFFE010] \<rparr>"

text \<open>
  Three threads as a handler sees them: \<open>threads[0]\<close>, the idle thread, waits in
  \<open>readyque[15]\<close>; \<open>threads[1]\<close> is the caller, taken off its queue by \<open>getcurrent\<close>;
  \<open>threads[2]\<close> is blocked. The caller and the blocked thread have priority 1.
\<close>

definition demo_state :: "(msgbox_id, 32 word list) kz_state" where
  "demo_state =
    zero_state
    \<lparr> readyque := (readyque zero_state)(15 := \<lparr>head = Some 0, tail = Some 0\<rparr>),
      current := Some 1,
      threads := (threads zero_state)
        (0 := zero_thread\<lparr>name := ''idle'', priority := 15, flags := 1, init_func := 0x2000\<rparr>,
         1 := zero_thread\<lparr>name := ''command'', priority := 1, init_func := 0x2100,
                syscall_param := 0x3000\<rparr>,
         2 := zero_thread\<lparr>name := ''consdrv'', priority := 1, init_func := 0x2200,
                syscall_param := 0x3100\<rparr>) \<rparr>"


text \<open>
  The blocked thread, \<open>threads[2]\<close>, is parked on the first mailbox, waiting in \<open>RECV\<close> with
  its parameter block at \<open>0x3100\<close>; the caller's block at \<open>0x3000\<close> is one of \<open>RECV\<close> too.
\<close>

definition parked_state :: "(msgbox_id, 32 word list) kz_state" where
  "parked_state =
    demo_state
    \<lparr> msgboxes := (msgboxes demo_state)
        (MSGBOX_ID_MSGBOX1 := \<lparr>receiver = Some 2, mhead = 0, mtail = 0\<rparr>),
      params := (params demo_state)
        (0x3000 := Un_recv MSGBOX_ID_MSGBOX1 0x5008 0x500C 0,
         0x3100 := Un_recv MSGBOX_ID_MSGBOX1 0x5000 0x5004 (- 1)) \<rparr>"

text \<open>The same, the parked thread having passed \<open>NULL\<close> for \<open>sizep\<close> and \<open>pp\<close>.\<close>

definition parked_null_state :: "(msgbox_id, 32 word list) kz_state" where
  "parked_null_state =
    parked_state\<lparr>params := (params parked_state)
      (0x3100 := Un_recv MSGBOX_ID_MSGBOX1 0 0 (- 1))\<rparr>"


text \<open>The caller's parameter block at \<open>0x3000\<close> is one of \<open>SEND\<close>, to the first mailbox.\<close>

definition send_call_state :: "(msgbox_id, 32 word list) kz_state" where
  "send_call_state =
    demo_state\<lparr>params := (params demo_state)
      (0x3000 := Un_send MSGBOX_ID_MSGBOX1 15 0x4000 0)\<rparr>"

text \<open>
  Two threads as they are while a thread runs: \<open>threads[1]\<close> is running, at the head of
  \<open>readyque[1]\<close>, and the idle thread waits in \<open>readyque[15]\<close>.
\<close>

definition running_state :: "(msgbox_id, 32 word list) kz_state" where
  "running_state =
    zero_state
    \<lparr> readyque := (readyque zero_state)
        (1 := \<lparr>head = Some 1, tail = Some 1\<rparr>, 15 := \<lparr>head = Some 0, tail = Some 0\<rparr>),
      current := Some 1,
      threads := (threads zero_state)
        (0 := zero_thread\<lparr>name := ''idle'', priority := 15, flags := 1, init_func := 0x2000\<rparr>,
         1 := zero_thread\<lparr>name := ''command'', priority := 1, flags := 1,
                init_func := 0x2100\<rparr>) \<rparr>"

text \<open>The same with no free slot in the TCB table.\<close>

definition full_state :: "(msgbox_id, 32 word list) kz_state" where
  "full_state = demo_state\<lparr>threads := (\<lambda>i. (threads demo_state i)\<lparr>init_func := 0x2000\<rparr>)\<rparr>"

section \<open>The scheduler selects the head of the first non-empty queue\<close>

lemma schedule_loop_found:
  "i \<le> k \<Longrightarrow> k < PRIORITY_NUM \<Longrightarrow> head (readyque s k) \<noteq> None \<Longrightarrow>
   (\<forall>j. i \<le> j \<and> j < k \<longrightarrow> head (readyque s j) = None) \<Longrightarrow> schedule_loop s i = k"
proof (induction s i rule: schedule_loop.induct)
  case (1 s i)
  show ?case
  proof (cases "i = k")
    case True
    with "1.prems" show ?thesis by (simp add: schedule_loop.simps)
  next
    case False
    with "1.prems" have lt: "i < k" and e: "head (readyque s i) = None" by auto
    from lt "1.prems" have "schedule_loop s (i + 1) = k"
      by (intro "1.IH") (auto simp: e)
    with lt e "1.prems" show ?thesis
      by (subst schedule_loop.simps) simp
  qed
qed

lemma schedule_loop_none:
  "(\<forall>j. i \<le> j \<and> j < PRIORITY_NUM \<longrightarrow> head (readyque s j) = None) \<Longrightarrow> i \<le> PRIORITY_NUM \<Longrightarrow>
   schedule_loop s i = PRIORITY_NUM"
proof (induction s i rule: schedule_loop.induct)
  case (1 s i)
  show ?case
  proof (cases "i < PRIORITY_NUM")
    case True
    with "1.prems" have e: "head (readyque s i) = None" by auto
    from True "1.prems" have "schedule_loop s (i + 1) = PRIORITY_NUM"
      by (intro "1.IH") (auto simp: e)
    with True e show ?thesis by (subst schedule_loop.simps) simp
  next
    case False
    with "1.prems" show ?thesis by (subst schedule_loop.simps) simp
  qed
qed

text \<open>
  Claim C1. Whatever the ready queues hold: when \<open>readyque[k]\<close> is the first queue, in
  ascending order of the index, that has a head, \<open>schedule\<close> returns with \<open>current\<close> set
  to that head and nothing else changed; when none of the \<open>PRIORITY_NUM\<close> queues has a
  head, \<open>schedule\<close> enters \<open>kz_sysdown\<close> and selects no thread.
\<close>

theorem schedule_selects:
  "(k < PRIORITY_NUM \<and> head (readyque s k) \<noteq> None \<and> (\<forall>j<k. head (readyque s j) = None)
      \<longrightarrow> schedule s = Inr (s\<lparr>current := head (readyque s k)\<rparr>)) \<and>
   ((\<forall>j<PRIORITY_NUM. head (readyque s j) = None) \<longrightarrow> schedule s = Inl SysDown)"
proof (intro conjI impI)
  assume a: "k < PRIORITY_NUM \<and> head (readyque s k) \<noteq> None \<and> (\<forall>j<k. head (readyque s j) = None)"
  then have "schedule_loop s 0 = k"
    by (intro schedule_loop_found) auto
  with a show "schedule s = Inr (s\<lparr>current := head (readyque s k)\<rparr>)"
    by (simp add: schedule_def)
next
  assume "\<forall>j<PRIORITY_NUM. head (readyque s j) = None"
  then have "schedule_loop s 0 = PRIORITY_NUM"
    by (intro schedule_loop_none) auto
  then show "schedule s = Inl SysDown"
    by (simp add: schedule_def kz_sysdown_def)
qed

theorem schedule_selects_witness:
  "schedule demo_state = Inr (demo_state\<lparr>current := Some 0\<rparr>) \<and>
   schedule zero_state = Inl SysDown"
proof
  have "15 < PRIORITY_NUM \<and> head (readyque demo_state 15) \<noteq> None \<and>
        (\<forall>j<15. head (readyque demo_state j) = None)"
    by (simp add: PRIORITY_NUM_def demo_state_def zero_state_def)
  with schedule_selects [of 15 demo_state]
  show "schedule demo_state = Inr (demo_state\<lparr>current := Some 0\<rparr>)"
    by (simp add: demo_state_def)
next
  have "\<forall>j<PRIORITY_NUM. head (readyque zero_state j) = None"
    by (simp add: zero_state_def)
  with schedule_selects [of 0 zero_state]
  show "schedule zero_state = Inl SysDown"
    by simp
qed

section \<open>Facts about the ready queues\<close>

lemma is_ready_odd: "is_ready t \<longleftrightarrow> odd (flags t)"
  by (simp add: is_ready_def KZ_THREAD_FLAG_READY_def and_one_eq odd_iff_mod_2_eq_one)

lemma is_ready_set [simp]: "is_ready (t\<lparr>flags := flags t OR KZ_THREAD_FLAG_READY\<rparr>)"
  by (simp add: is_ready_odd KZ_THREAD_FLAG_READY_def even_or_iff)

lemma is_ready_clear [simp]: "\<not> is_ready (t\<lparr>flags := flags t AND NOT KZ_THREAD_FLAG_READY\<rparr>)"
  by (simp add: is_ready_odd KZ_THREAD_FLAG_READY_def even_and_iff)

lemma is_ready_next [simp]: "is_ready (t\<lparr>next := p\<rparr>) = is_ready t"
  by (simp add: is_ready_def)

lemma thread_path_cong:
  "(\<And>x. x \<in> set xs \<Longrightarrow> next (th' x) = next (th x)) \<Longrightarrow> thread_path th' p xs = thread_path th p xs"
  by (induction xs arbitrary: p) auto

lemma thread_path_snoc:
  "thread_path th p xs \<Longrightarrow> xs \<noteq> [] \<Longrightarrow> distinct xs \<Longrightarrow> c \<notin> set xs \<Longrightarrow> next (th c) = None \<Longrightarrow>
   thread_path (th(last xs := (th (last xs))\<lparr>next := Some c\<rparr>)) p (xs @ [c])"
proof (induction xs arbitrary: p)
  case Nil
  then show ?case by simp
next
  case (Cons x xs)
  show ?case
  proof (cases "xs = []")
    case True
    with Cons.prems show ?thesis by auto
  next
    case False
    with Cons.prems have "x \<noteq> last xs" by auto
    with Cons False show ?thesis by auto
  qed
qed

lemma putcurrent_attach:
  assumes rl: "ready_lists s qs" and cur: "current s = Some c" and det: "detached s qs c"
    and inr: "in_readyque (priority (threads s c))"
  shows "\<exists>s'. putcurrent s = Inr (0, s') \<and>
           ready_lists s' (qs(nat (priority (threads s c)) := qs (nat (priority (threads s c))) @ [c])) \<and>
           links_only s s' \<and>
           (\<forall>x. is_ready (threads s' x) \<longleftrightarrow> is_ready (threads s x) \<or> x = c) \<and>
           (\<forall>x. x \<noteq> c \<and> \<not> queued qs x \<longrightarrow> threads s' x = threads s x) \<and>
           next (threads s' c) = None"
proof -
  define i where "i = nat (priority (threads s c))"
  have i: "i < PRIORITY_NUM"
    using inr by (auto simp: in_readyque_def i_def)
  have nr: "\<not> is_ready (threads s c)" and nx: "next (threads s c) = None"
    and nq: "\<not> queued qs c"
    using det by (auto simp: detached_def)
  have cq: "\<And>j. j < PRIORITY_NUM \<Longrightarrow> c \<notin> set (qs j)"
    using nq by (auto simp: queued_def)
  have rli: "ready_list s i (qs i)"
    using rl i by (simp add: ready_lists_def)
  have rlj: "\<And>j. j < PRIORITY_NUM \<Longrightarrow> ready_list s j (qs j)"
    using rl by (simp add: ready_lists_def)
  have disj: "\<And>j k. j < PRIORITY_NUM \<Longrightarrow> k < PRIORITY_NUM \<Longrightarrow> j \<noteq> k \<Longrightarrow> set (qs j) \<inter> set (qs k) = {}"
    using rl by (simp add: ready_lists_def)
  show ?thesis
  proof (cases "qs i = []")
    case True
    then have tl: "tail (readyque s i) = None" and hd: "head (readyque s i) = None"
      using rli by (auto simp: ready_list_def)
    define s' where "s' = s\<lparr>readyque := (readyque s)(i := (readyque s i)\<lparr>head := Some c, tail := Some c\<rparr>),
      threads := (threads s)(c := (threads s c)\<lparr>flags := flags (threads s c) OR KZ_THREAD_FLAG_READY\<rparr>)\<rparr>"
    have 1: "putcurrent s = Inr (0, s')"
      using cur nr inr tl by (simp add: putcurrent_def s'_def i_def Let_def)
    have nxt: "\<And>x. next (threads s' x) = next (threads s x)"
      by (simp add: s'_def)
    have 2: "ready_lists s' (qs(i := qs i @ [c]))"
      unfolding ready_lists_def
    proof (intro conjI allI impI)
      fix j assume j: "j < PRIORITY_NUM"
      show "ready_list s' j ((qs(i := qs i @ [c])) j)"
      proof (cases "j = i")
        case True
        then show ?thesis
          using \<open>qs i = []\<close> nx by (simp add: ready_list_def s'_def)
      next
        case False
        have "thread_path (threads s') (head (readyque s j)) (qs j) =
              thread_path (threads s) (head (readyque s j)) (qs j)"
          by (rule thread_path_cong) (simp add: nxt)
        with False rlj [OF j] show ?thesis
          by (simp add: ready_list_def s'_def)
      qed
    next
      fix j k assume "j < PRIORITY_NUM" "k < PRIORITY_NUM" "j \<noteq> k"
      then show "set ((qs(i := qs i @ [c])) j) \<inter> set ((qs(i := qs i @ [c])) k) = {}"
        using disj [of j k] cq [of j] cq [of k] True by auto
    qed
    have 3: "links_only s s'"
      by (simp add: links_only_def s'_def)
    have 4: "\<forall>x. is_ready (threads s' x) \<longleftrightarrow> is_ready (threads s x) \<or> x = c"
      by (simp add: s'_def)
    have 5: "\<forall>x. x \<noteq> c \<and> \<not> queued qs x \<longrightarrow> threads s' x = threads s x"
      by (simp add: s'_def)
    have 6: "next (threads s' c) = None"
      using nx by (simp add: s'_def)
    from 1 2 3 4 5 6 show ?thesis
      unfolding i_def by blast
  next
    case False
    define t where "t = last (qs i)"
    have tin: "t \<in> set (qs i)"
      using False by (simp add: t_def)
    have tc: "t \<noteq> c"
      using tin cq [OF i] by auto
    have tl: "tail (readyque s i) = Some t"
      using rli False by (simp add: ready_list_def t_def)
    define s' where "s' = s\<lparr>readyque := (readyque s)(i := (readyque s i)\<lparr>tail := Some c\<rparr>),
      threads := (threads s)(t := (threads s t)\<lparr>next := Some c\<rparr>,
                            c := (threads s c)\<lparr>flags := flags (threads s c) OR KZ_THREAD_FLAG_READY\<rparr>)\<rparr>"
    have 1: "putcurrent s = Inr (0, s')"
      using cur nr inr tl tc by (simp add: putcurrent_def s'_def i_def Let_def)
    have nxt: "\<And>x. x \<noteq> t \<Longrightarrow> next (threads s' x) = next (threads s x)"
      by (simp add: s'_def)
    have 2: "ready_lists s' (qs(i := qs i @ [c]))"
      unfolding ready_lists_def
    proof (intro conjI allI impI)
      fix j assume j: "j < PRIORITY_NUM"
      show "ready_list s' j ((qs(i := qs i @ [c])) j)"
      proof (cases "j = i")
        case True
        have p: "thread_path ((threads s)(t := (threads s t)\<lparr>next := Some c\<rparr>))
                   (head (readyque s i)) (qs i @ [c])"
          unfolding t_def using rli False cq [OF i] nx
          by (intro thread_path_snoc) (auto simp: ready_list_def)
        have "thread_path (threads s') (head (readyque s i)) (qs i @ [c]) =
              thread_path ((threads s)(t := (threads s t)\<lparr>next := Some c\<rparr>))
                   (head (readyque s i)) (qs i @ [c])"
          using tc by (intro thread_path_cong) (simp add: s'_def)
        with p True rli cq [OF i] show ?thesis
          by (simp add: ready_list_def s'_def)
      next
        case False
        have "t \<notin> set (qs j)"
          using disj [OF i j] False tin by auto
        then have "thread_path (threads s') (head (readyque s j)) (qs j) =
              thread_path (threads s) (head (readyque s j)) (qs j)"
          by (intro thread_path_cong nxt) auto
        with False rlj [OF j] show ?thesis
          by (simp add: ready_list_def s'_def)
      qed
    next
      fix j k assume "j < PRIORITY_NUM" "k < PRIORITY_NUM" "j \<noteq> k"
      then show "set ((qs(i := qs i @ [c])) j) \<inter> set ((qs(i := qs i @ [c])) k) = {}"
        using disj [of j k] cq [of j] cq [of k] by auto
    qed
    have 3: "links_only s s'"
      by (simp add: links_only_def s'_def)
    have 4: "\<forall>x. is_ready (threads s' x) \<longleftrightarrow> is_ready (threads s x) \<or> x = c"
      by (simp add: s'_def)
    have "queued qs t"
      using tin i by (auto simp: queued_def)
    then have 5: "\<forall>x. x \<noteq> c \<and> \<not> queued qs x \<longrightarrow> threads s' x = threads s x"
      by (auto simp: s'_def)
    have 6: "next (threads s' c) = None"
      using nx tc by (simp add: s'_def)
    from 1 2 3 4 5 6 show ?thesis
      unfolding i_def by blast
  qed
qed

lemma ready_lists_cong:
  "readyque s1 = readyque s \<Longrightarrow> (\<And>x. next (threads s1 x) = next (threads s x)) \<Longrightarrow>
   ready_lists s1 qs = ready_lists s qs"
proof -
  assume rq: "readyque s1 = readyque s" and nx: "\<And>x. next (threads s1 x) = next (threads s x)"
  have "\<And>p xs. thread_path (threads s1) p xs = thread_path (threads s) p xs"
    by (rule thread_path_cong) (simp add: nx)
  then show ?thesis
    by (simp add: ready_lists_def ready_list_def rq)
qed

lemma demo_ready_lists: "ready_lists demo_state ((\<lambda>i. [])(15 := [0]))"
  by (auto simp: ready_lists_def ready_list_def demo_state_def zero_state_def zero_thread_def)

lemma demo_detached_1: "detached demo_state ((\<lambda>i. [])(15 := [0])) 1"
  by (simp add: detached_def queued_def demo_state_def zero_state_def zero_thread_def is_ready_odd)

lemma demo_detached_2: "detached demo_state ((\<lambda>i. [])(15 := [0])) 2"
  by (simp add: detached_def queued_def demo_state_def zero_state_def zero_thread_def is_ready_odd)

text \<open>
  Claim C7. With \<open>current\<close> a thread \<open>c\<close>: if \<open>c\<close> is \<open>READY\<close>, \<open>putcurrent\<close> returns 1 and
  the state is the one it was given, every ready queue and every TCB included. If \<open>c\<close> is
  off the queues and its priority indexes the array, \<open>putcurrent\<close> returns 0, the queue of
  its priority holds the threads it held followed by \<open>c\<close>, \<open>c\<close> is \<open>READY\<close>, nothing but
  queue links and flags has changed, and a second \<open>putcurrent\<close> then changes nothing.
\<close>

theorem putcurrent_idempotent:
  assumes "current s = Some c"
  shows "(is_ready (threads s c) \<longrightarrow> putcurrent s = Inr (1, s)) \<and>
         (ready_lists s qs \<and> detached s qs c \<and> in_readyque (priority (threads s c)) \<longrightarrow>
           (\<exists>s'. putcurrent s = Inr (0, s') \<and>
              ready_lists s' (qs(nat (priority (threads s c)) :=
                                   qs (nat (priority (threads s c))) @ [c])) \<and>
              is_ready (threads s' c) \<and> links_only s s' \<and>
              putcurrent s' = Inr (1, s')))"
proof (intro conjI impI)
  assume "is_ready (threads s c)"
  with assms show "putcurrent s = Inr (1, s)"
    by (simp add: putcurrent_def)
next
  assume a: "ready_lists s qs \<and> detached s qs c \<and> in_readyque (priority (threads s c))"
  with assms obtain s' where s': "putcurrent s = Inr (0, s')"
    "ready_lists s' (qs(nat (priority (threads s c)) := qs (nat (priority (threads s c))) @ [c]))"
    "links_only s s'" "\<forall>x. is_ready (threads s' x) \<longleftrightarrow> is_ready (threads s x) \<or> x = c"
    using putcurrent_attach [of s qs c] by blast
  from s'(3) assms have "current s' = Some c"
    by (simp add: links_only_def)
  with s'(4) have "putcurrent s' = Inr (1, s')"
    by (simp add: putcurrent_def)
  with s' show "\<exists>s'. putcurrent s = Inr (0, s') \<and>
              ready_lists s' (qs(nat (priority (threads s c)) :=
                                   qs (nat (priority (threads s c))) @ [c])) \<and>
              is_ready (threads s' c) \<and> links_only s s' \<and>
              putcurrent s' = Inr (1, s')"
    by blast
qed

theorem putcurrent_idempotent_witness:
  "\<exists>s'. putcurrent demo_state = Inr (0, s') \<and>
      ready_lists s' ((\<lambda>i. [])(15 := [0], 1 := [1])) \<and>
      is_ready (threads s' 1) \<and> putcurrent s' = Inr (1, s')"
proof -
  have c: "current demo_state = Some 1" and p: "priority (threads demo_state 1) = 1"
    and p': "priority (threads demo_state (Suc 0)) = 1"
    by (simp_all add: demo_state_def zero_state_def zero_thread_def)
  have "ready_lists demo_state ((\<lambda>i. [])(15 := [0])) \<and> detached demo_state ((\<lambda>i. [])(15 := [0])) 1 \<and>
        in_readyque (priority (threads demo_state 1))"
    using demo_ready_lists demo_detached_1 by (simp only: p in_readyque_def PRIORITY_NUM_def) simp
  with putcurrent_idempotent [OF c, of "(\<lambda>i. [])(15 := [0])"] show ?thesis
    by (auto simp: p')
qed

lemma detached_cong:
  "(\<And>x. next (threads s1 x) = next (threads s x)) \<Longrightarrow> (\<And>x. flags (threads s1 x) = flags (threads s x)) \<Longrightarrow>
   detached s1 qs c = detached s qs c"
  by (simp add: detached_def is_ready_def)

lemma links_only_threads:
  assumes "links_only s s'"
  shows "name (threads s' x) = name (threads s x)"
    and "priority (threads s' x) = priority (threads s x)"
    and "stack (threads s' x) = stack (threads s x)"
    and "init_func (threads s' x) = init_func (threads s x)"
    and "init_argc (threads s' x) = init_argc (threads s x)"
    and "init_argv (threads s' x) = init_argv (threads s x)"
    and "syscall_type (threads s' x) = syscall_type (threads s x)"
    and "syscall_param (threads s' x) = syscall_param (threads s x)"
    and "context_sp (threads s' x) = context_sp (threads s x)"
proof -
  from assms
  have e: "threads s' x = (threads s x)\<lparr>next := next (threads s' x), flags := flags (threads s' x)\<rparr>"
    by (simp add: links_only_def)
  show "name (threads s' x) = name (threads s x)" by (subst e) simp
  show "priority (threads s' x) = priority (threads s x)" by (subst e) simp
  show "stack (threads s' x) = stack (threads s x)" by (subst e) simp
  show "init_func (threads s' x) = init_func (threads s x)" by (subst e) simp
  show "init_argc (threads s' x) = init_argc (threads s x)" by (subst e) simp
  show "init_argv (threads s' x) = init_argv (threads s x)" by (subst e) simp
  show "syscall_type (threads s' x) = syscall_type (threads s x)" by (subst e) simp
  show "syscall_param (threads s' x) = syscall_param (threads s x)" by (subst e) simp
  show "context_sp (threads s' x) = context_sp (threads s x)" by (subst e) simp
qed

lemma links_only_state:
  assumes "links_only s s'"
  shows "current s' = current s" and "handlers s' = handlers s" and "msgboxes s' = msgboxes s"
    and "thread_stack s' = thread_stack s" and "msgbufs s' = msgbufs s" and "params s' = params s"
    and "mem s' = mem s" and "kzmem s' = kzmem s"
  using assms by (simp_all add: links_only_def)

lemma links_only_refl: "links_only s s"
  by (simp add: links_only_def)

lemma links_only_trans:
  assumes "links_only s s1" and "links_only s1 s2"
  shows "links_only s s2"
proof -
  have "\<And>x. threads s2 x = (threads s x)\<lparr>next := next (threads s2 x), flags := flags (threads s2 x)\<rparr>"
  proof -
    fix x
    from assms(1)
    have e1: "threads s1 x = (threads s x)\<lparr>next := next (threads s1 x), flags := flags (threads s1 x)\<rparr>"
      by (simp add: links_only_def)
    from assms(2)
    have e2: "threads s2 x = (threads s1 x)\<lparr>next := next (threads s2 x), flags := flags (threads s2 x)\<rparr>"
      by (simp add: links_only_def)
    show "threads s2 x = (threads s x)\<lparr>next := next (threads s2 x), flags := flags (threads s2 x)\<rparr>"
      by (subst e2, subst e1) simp
  qed
  with assms show ?thesis
    by (simp add: links_only_def)
qed

section \<open>CHPRI\<close>

text \<open>
  Claim C6. With \<open>current\<close> a thread \<open>c\<close> that is off the queues, and \<open>p'\<close> the requested
  priority when it is not negative and the priority of \<open>c\<close> otherwise, \<open>p'\<close> an index of
  the array: \<open>thread_chpri\<close> returns the priority \<open>c\<close> had before; afterwards the priority
  of \<open>c\<close> is \<open>p'\<close> (so it is the requested one exactly when that is at least 0, and the
  old one otherwise), and \<open>readyque[p']\<close> holds the threads it held followed by \<open>c\<close>,
  which is \<open>READY\<close>.
\<close>

theorem thread_chpri_result:
  assumes "current s = Some c" and "ready_lists s qs" and "detached s qs c"
    and "p' = (if 0 \<le> pri then pri else priority (threads s c))"
    and "in_readyque p'"
  shows "\<exists>s'. thread_chpri pri s = Inr (priority (threads s c), s') \<and>
           priority (threads s' c) = p' \<and>
           ready_lists s' (qs(nat p' := qs (nat p') @ [c])) \<and>
           is_ready (threads s' c) \<and> current s' = Some c"
proof -
  define s1 where "s1 = (if 0 \<le> pri
                  then s\<lparr>threads := (threads s)(c := (threads s c)\<lparr>priority := pri\<rparr>)\<rparr>
                  else s)"
  have e: "thread_chpri pri s = thenf (putcurrent s1) (\<lambda>(r, s2). Inr (priority (threads s c), s2))"
    using assms(1) by (simp add: thread_chpri_def s1_def Let_def)
  have rq: "readyque s1 = readyque s" and nx: "\<And>x. next (threads s1 x) = next (threads s x)"
    and fl: "\<And>x. flags (threads s1 x) = flags (threads s x)"
    and pr: "priority (threads s1 c) = p'" and cu: "current s1 = Some c"
    using assms(1,4) by (simp_all add: s1_def)
  have "ready_lists s1 qs"
    using assms(2) ready_lists_cong [OF rq nx] by simp
  moreover have "detached s1 qs c"
    using assms(3) detached_cong [of s1 s qs c] nx fl by simp
  ultimately obtain s' where s': "putcurrent s1 = Inr (0, s')"
    "ready_lists s' (qs(nat p' := qs (nat p') @ [c]))"
    "links_only s1 s'" "\<forall>x. is_ready (threads s' x) \<longleftrightarrow> is_ready (threads s1 x) \<or> x = c"
    using putcurrent_attach [of s1 qs c] cu assms(5) pr by auto
  from s'(3) have "priority (threads s' c) = priority (threads s1 c)" "current s' = current s1"
    by (simp_all add: links_only_threads links_only_state)
  with s' e pr cu show ?thesis
    by simp
qed

theorem thread_chpri_result_witness:
  "\<exists>s'. thread_chpri 15 demo_state = Inr (1, s') \<and> priority (threads s' 1) = 15 \<and>
      ready_lists s' ((\<lambda>i. [])(15 := [0, 1])) \<and> is_ready (threads s' 1)"
proof -
  have c: "current demo_state = Some 1"
    and p: "priority (threads demo_state 1) = 1"
    by (simp_all add: demo_state_def zero_state_def zero_thread_def)
  have q: "15 = (if 0 \<le> (15::int) then 15 else priority (threads demo_state 1))"
    and r: "in_readyque 15"
    by (simp_all add: in_readyque_def PRIORITY_NUM_def)
  from thread_chpri_result [OF c demo_ready_lists demo_detached_1 q r] show ?thesis
    by (auto simp: p [simplified])
qed

text \<open>
  Claim C10. With \<open>current\<close> a thread \<open>c\<close> that is not \<open>READY\<close> and a requested
  priority of at least 0: \<open>thread_chpri\<close> assigns it with no look at its size and then
  runs \<open>putcurrent\<close> on the state that has the new priority; the access to \<open>readyque\<close>
  leaves the array exactly when the requested priority is \<open>PRIORITY_NUM\<close> or more; below
  \<open>PRIORITY_NUM\<close> the call returns the old priority with the new one assigned.
\<close>

theorem thread_chpri_bounds:
  assumes "current s = Some c" and "\<not> is_ready (threads s c)" and "0 \<le> pri"
  shows "thread_chpri pri s =
           thenf (putcurrent (s\<lparr>threads := (threads s)(c := (threads s c)\<lparr>priority := pri\<rparr>)\<rparr>))
             (\<lambda>(r, s2). Inr (priority (threads s c), s2)) \<and>
         (thread_chpri pri s = Inl ReadyqueOutOfBounds \<longleftrightarrow> int PRIORITY_NUM \<le> pri) \<and>
         (pri < int PRIORITY_NUM \<longrightarrow>
            (\<exists>s'. thread_chpri pri s = Inr (priority (threads s c), s') \<and>
                  priority (threads s' c) = pri \<and> is_ready (threads s' c)))"
proof -
  define s1 where "s1 = s\<lparr>threads := (threads s)(c := (threads s c)\<lparr>priority := pri\<rparr>)\<rparr>"
  have e: "thread_chpri pri s = thenf (putcurrent s1) (\<lambda>(r, s2). Inr (priority (threads s c), s2))"
    using assms(1,3) by (simp add: thread_chpri_def s1_def Let_def)
  have s1: "current s1 = Some c" "\<not> is_ready (threads s1 c)" "priority (threads s1 c) = pri"
    using assms by (simp_all add: s1_def is_ready_def)
  show ?thesis
  proof (cases "pri < int PRIORITY_NUM")
    case True
    with assms(3) s1 obtain s' where "putcurrent s1 = Inr (0, s')" "priority (threads s' c) = pri"
      "is_ready (threads s' c)"
      by (auto simp: putcurrent_def in_readyque_def Let_def split: option.splits)
    with True e show ?thesis
      unfolding s1_def by auto
  next
    case False
    with s1 have "putcurrent s1 = Inl ReadyqueOutOfBounds"
      by (simp add: putcurrent_def in_readyque_def)
    with False e show ?thesis
      unfolding s1_def by auto
  qed
qed

theorem thread_chpri_bounds_witness:
  "thread_chpri 16 demo_state = Inl ReadyqueOutOfBounds \<and>
   thread_chpri 15 demo_state \<noteq> Inl ReadyqueOutOfBounds"
proof -
  have c: "current demo_state = Some 1"
    and p: "\<not> is_ready (threads demo_state 1)"
    by (simp_all add: demo_state_def zero_state_def zero_thread_def is_ready_odd)
  have "(0::int) \<le> 16" and "(0::int) \<le> 15"
    by simp_all
  from thread_chpri_bounds [OF c p this(1), THEN conjunct2]
    thread_chpri_bounds [OF c p this(2), THEN conjunct2]
  show ?thesis
    by (simp add: PRIORITY_NUM_def)
qed

section \<open>RUN and WAKEUP\<close>

lemma ready_lists_frame:
  assumes "readyque s1 = readyque s"
    and "\<And>x. queued qs x \<Longrightarrow> next (threads s1 x) = next (threads s x)"
  shows "ready_lists s1 qs = ready_lists s qs"
proof -
  have "\<And>i. i < PRIORITY_NUM \<Longrightarrow>
          thread_path (threads s1) (head (readyque s i)) (qs i) =
          thread_path (threads s) (head (readyque s i)) (qs i)"
    by (rule thread_path_cong, rule assms(2)) (auto simp: queued_def)
  then show ?thesis
    by (auto simp: ready_lists_def ready_list_def assms(1))
qed

lemma links_only_current:
  "links_only s s' \<Longrightarrow> links_only (s\<lparr>current := p\<rparr>) (s'\<lparr>current := p\<rparr>)"
  by (simp add: links_only_def)

lemma queued_upd:
  "i < PRIORITY_NUM \<Longrightarrow> queued (qs(i := qs i @ [c])) x \<longleftrightarrow> queued qs x \<or> x = c"
  by (auto simp: queued_def)

lemma attach_two:
  assumes rl: "ready_lists s qs" and cur: "current s = Some c" and dc: "detached s qs c"
    and ic: "in_readyque (priority (threads s c))" and dt: "detached s qs t" and tc: "t \<noteq> c"
    and it: "in_readyque (priority (threads s t))"
    and q1: "qs1 = qs(nat (priority (threads s c)) := qs (nat (priority (threads s c))) @ [c])"
    and q2: "qs2 = qs1(nat (priority (threads s t)) := qs1 (nat (priority (threads s t))) @ [t])"
  shows "\<exists>s1 s2. putcurrent s = Inr (0, s1) \<and> putcurrent (s1\<lparr>current := Some t\<rparr>) = Inr (0, s2) \<and>
           ready_lists s2 qs2 \<and> links_only (s\<lparr>current := Some t\<rparr>) s2 \<and>
           (\<forall>x. is_ready (threads s2 x) \<longleftrightarrow> is_ready (threads s x) \<or> x = c \<or> x = t)"
proof -
  have pc: "nat (priority (threads s c)) < PRIORITY_NUM"
    using ic by (auto simp: in_readyque_def)
  from putcurrent_attach [OF rl cur dc ic] obtain s1 where s1: "putcurrent s = Inr (0, s1)"
    "ready_lists s1 qs1" "links_only s s1"
    "\<forall>x. is_ready (threads s1 x) \<longleftrightarrow> is_ready (threads s x) \<or> x = c"
    "\<forall>x. x \<noteq> c \<and> \<not> queued qs x \<longrightarrow> threads s1 x = threads s x"
    unfolding q1 by blast
  define s1' where "s1' = s1\<lparr>current := Some t\<rparr>"
  have tt: "threads s1 t = threads s t"
    using s1(5) tc dt by (simp add: detached_def)
  have a: "ready_lists s1' qs1"
    using s1(2) ready_lists_frame [of s1' s1 qs1] by (simp add: s1'_def)
  have b: "current s1' = Some t"
    by (simp add: s1'_def)
  have c: "detached s1' qs1 t"
    using dt tc pc by (simp add: detached_def s1'_def tt q1 queued_upd)
  have d: "in_readyque (priority (threads s1' t))"
    using it by (simp add: s1'_def tt)
  from putcurrent_attach [OF a b c d] obtain s2 where s2: "putcurrent s1' = Inr (0, s2)"
    "ready_lists s2 qs2" "links_only s1' s2"
    "\<forall>x. is_ready (threads s2 x) \<longleftrightarrow> is_ready (threads s1' x) \<or> x = t"
    unfolding q2 by (auto simp: s1'_def tt)
  have "links_only (s\<lparr>current := Some t\<rparr>) s1'"
    unfolding s1'_def using s1(3) by (rule links_only_current)
  with s2(3) have "links_only (s\<lparr>current := Some t\<rparr>) s2"
    by (rule links_only_trans [rotated])
  with s1 s2 show ?thesis
    unfolding s1'_def by auto
qed

lemma thread_run_loop_found:
  "i \<le> k \<Longrightarrow> k < THREAD_NUM \<Longrightarrow> init_func (threads s k) = 0 \<Longrightarrow>
   (\<forall>j. i \<le> j \<and> j < k \<longrightarrow> init_func (threads s j) \<noteq> 0) \<Longrightarrow> thread_run_loop s i = k"
proof (induction s i rule: thread_run_loop.induct)
  case (1 s i)
  show ?case
  proof (cases "i = k")
    case True
    with "1.prems" show ?thesis by (simp add: thread_run_loop.simps)
  next
    case False
    with "1.prems" have lt: "i < k" and e: "init_func (threads s i) \<noteq> 0" by auto
    from lt "1.prems" have "thread_run_loop s (i + 1) = k"
      by (intro "1.IH") (auto simp: e)
    with lt e "1.prems" show ?thesis
      by (subst thread_run_loop.simps) simp
  qed
qed

lemma thread_run_loop_none:
  "(\<forall>j. i \<le> j \<and> j < THREAD_NUM \<longrightarrow> init_func (threads s j) \<noteq> 0) \<Longrightarrow> i \<le> THREAD_NUM \<Longrightarrow>
   thread_run_loop s i = THREAD_NUM"
proof (induction s i rule: thread_run_loop.induct)
  case (1 s i)
  show ?case
  proof (cases "i < THREAD_NUM")
    case True
    with "1.prems" have e: "init_func (threads s i) \<noteq> 0" by auto
    from True "1.prems" have "thread_run_loop s (i + 1) = THREAD_NUM"
      by (intro "1.IH") (auto simp: e)
    with True e show ?thesis by (subst thread_run_loop.simps) simp
  next
    case False
    with "1.prems" show ?thesis by (subst thread_run_loop.simps) simp
  qed
qed

lemma frame_sp: "fst (foldl push (ts, m) (startup_frame L pri i)) = ts - 36"
  by (simp add: push_def startup_frame_def)

lemma frame_words:
  "map (snd (foldl push (ts, m) (startup_frame L pri i)))
     [ts - 36, ts - 36 + 4, ts - 36 + 8, ts - 36 + 12, ts - 36 + 16, ts - 36 + 20, ts - 36 + 24, ts - 36 + 28, ts - 36 + 32] =
   rev (startup_frame L pri i)"
  by (simp add: push_def startup_frame_def)

lemma thread_run_attach:
  assumes slot: "i < THREAD_NUM" "init_func (threads s i) = 0" "\<forall>j<i. init_func (threads s j) \<noteq> 0"
    and nm: "length nm \<le> THREAD_NAME_SIZE"
    and rl: "ready_lists s qs" and cur: "current s = Some c" and dc: "detached s qs c"
    and ic: "in_readyque (priority (threads s c))"
    and ci: "c \<noteq> i" and qi: "\<not> queued qs i" and ip: "in_readyque pri"
    and q1: "qs1 = qs(nat (priority (threads s c)) := qs (nat (priority (threads s c))) @ [c])"
    and q2: "qs2 = qs1(nat pri := qs1 (nat pri) @ [i])"
    and ts: "ts = thread_stack s + word_of_int stacksize"
    and T: "T = zero_thread\<lparr>name := nm, priority := pri, stack := ts, init_func := func,
                 init_argc := argc, init_argv := argv, context_sp := ts - 36\<rparr>"
    and M: "M = snd (foldl push (ts, memset_zero (mem s) (thread_stack s) stacksize)
                 (startup_frame L pri i))"
  shows "\<exists>s'. thread_run L func nm pri stacksize argc argv s = Inr (addr_threads L i, s') \<and>
      ready_lists s' qs2 \<and>
      links_only (s\<lparr>current := Some i, threads := (threads s)(i := T), mem := M,
                     thread_stack := ts\<rparr>) s' \<and>
      (\<forall>x. is_ready (threads s' x) \<longleftrightarrow> (x \<noteq> i \<and> is_ready (threads s x)) \<or> x = c \<or> x = i)"
proof -
  define s1 where "s1 = s\<lparr>threads := (threads s)(i := T), mem := M, thread_stack := ts\<rparr>"
  have loop: "thread_run_loop s 0 = i"
    using slot by (intro thread_run_loop_found) auto
  have e: "thread_run L func nm pri stacksize argc argv s =
        thenf (putcurrent s1) (\<lambda>(r1, s2).
          thenf (putcurrent (s2\<lparr>current := Some i\<rparr>)) (\<lambda>(r2, s3).
            Inr (tcb_addr L (current s3), s3)))"
    using slot(1) nm
    by (simp add: thread_run_def loop Let_def s1_def T M ts frame_sp zero_thread_def)
  have "ready_lists s1 qs = ready_lists s qs"
    using qi by (intro ready_lists_frame) (auto simp: s1_def)
  with rl have a: "ready_lists s1 qs"
    by simp
  have b: "current s1 = Some c"
    using cur by (simp add: s1_def)
  have c: "detached s1 qs c"
    using dc ci by (simp add: detached_def s1_def)
  have d: "in_readyque (priority (threads s1 c))"
    using ic ci by (simp add: s1_def)
  have f: "detached s1 qs i"
    using qi by (simp add: detached_def s1_def T zero_thread_def is_ready_odd)
  have g: "in_readyque (priority (threads s1 i))"
    using ip by (simp add: s1_def T)
  have q1': "qs1 = qs(nat (priority (threads s1 c)) := qs (nat (priority (threads s1 c))) @ [c])"
    using q1 ci by (simp add: s1_def)
  have q2': "qs2 = qs1(nat (priority (threads s1 i)) := qs1 (nat (priority (threads s1 i))) @ [i])"
    using q2 by (simp add: s1_def T)
  from attach_two [OF a b c d f ci [symmetric] g q1' q2']
  obtain s2 s3 where s: "putcurrent s1 = Inr (0, s2)"
    "putcurrent (s2\<lparr>current := Some i\<rparr>) = Inr (0, s3)" "ready_lists s3 qs2"
    "links_only (s1\<lparr>current := Some i\<rparr>) s3"
    "\<forall>x. is_ready (threads s3 x) \<longleftrightarrow> is_ready (threads s1 x) \<or> x = c \<or> x = i"
    by blast
  from s(4) have "current s3 = Some i"
    by (simp add: links_only_def)
  with e s have "thread_run L func nm pri stacksize argc argv s = Inr (addr_threads L i, s3)"
    by (simp add: tcb_addr_def)
  moreover have "s1\<lparr>current := Some i\<rparr> =
      s\<lparr>current := Some i, threads := (threads s)(i := T), mem := M, thread_stack := ts\<rparr>"
    by (simp add: s1_def)
  moreover have "\<forall>x. is_ready (threads s3 x) \<longleftrightarrow> (x \<noteq> i \<and> is_ready (threads s x)) \<or> x = c \<or> x = i"
    using s(5) by (auto simp: s1_def)
  ultimately show ?thesis
    using s(3,4) by auto
qed

lemma thread_wakeup_attach:
  assumes rl: "ready_lists s qs" and cur: "current s = Some c" and dc: "detached s qs c"
    and ic: "in_readyque (priority (threads s c))"
    and tp: "tcb_ptr L tid = Inr (Some t)" and tc: "t \<noteq> c" and dt: "detached s qs t"
    and it: "in_readyque (priority (threads s t))"
    and q1: "qs1 = qs(nat (priority (threads s c)) := qs (nat (priority (threads s c))) @ [c])"
    and q2: "qs2 = qs1(nat (priority (threads s t)) := qs1 (nat (priority (threads s t))) @ [t])"
  shows "\<exists>s'. thread_wakeup L tid s = Inr (0, s') \<and> ready_lists s' qs2 \<and>
           links_only (s\<lparr>current := Some t\<rparr>) s' \<and>
           (\<forall>x. is_ready (threads s' x) \<longleftrightarrow> is_ready (threads s x) \<or> x = c \<or> x = t)"
proof -
  from attach_two [OF rl cur dc ic dt tc it q1 q2]
  obtain s1 s2 where s: "putcurrent s = Inr (0, s1)"
    "putcurrent (s1\<lparr>current := Some t\<rparr>) = Inr (0, s2)" "ready_lists s2 qs2"
    "links_only (s\<lparr>current := Some t\<rparr>) s2"
    "\<forall>x. is_ready (threads s2 x) \<longleftrightarrow> is_ready (threads s x) \<or> x = c \<or> x = t"
    by blast
  then have "thread_wakeup L tid s = Inr (0, s2)"
    by (simp add: thread_wakeup_def tp)
  with s show ?thesis
    by blast
qed

lemma demo_slot:
  "3 < THREAD_NUM \<and> init_func (threads demo_state 3) = 0 \<and>
   (\<forall>j<3. init_func (threads demo_state j) \<noteq> 0)"
proof -
  have "\<And>j::nat. j < 3 \<Longrightarrow> j = 0 \<or> j = 1 \<or> j = 2"
    by arith
  then show ?thesis
    by (auto simp: THREAD_NUM_def demo_state_def zero_state_def zero_thread_def)
qed

lemma demo_tcb_ptr: "tcb_ptr test_extern 0xFFD080 = Inr (Some 2)"
  by (simp add: tcb_ptr_def test_extern_def THREAD_NUM_def upt_conv_Cons)

lemma demo_not_queued_3: "\<not> queued ((\<lambda>i. [])(15 := [0])) 3"
  by (simp add: queued_def)


text \<open>
  Claim C9. The caller \<open>c\<close> is off the queues, as \<open>syscall_proc\<close> hands it to a handler, and
  \<open>qs1\<close> is the queues with \<open>c\<close> appended to the one of its priority. \<open>thread_run\<close>, with
  \<open>i\<close> the first free slot, and \<open>thread_wakeup\<close>, with \<open>t\<close> a thread that is off the queues,
  return with the new (woken) thread appended to \<open>qs1\<close>: the caller was appended first. So
  when both have the same priority its queue ends with the caller and then the other
  thread. On return \<open>current\<close> designates the new (woken) thread, which is not the caller.
\<close>

theorem run_wakeup_order:
  assumes "ready_lists s qs" and "current s = Some c" and "detached s qs c"
    and "in_readyque (priority (threads s c))"
    and "qs1 = qs(nat (priority (threads s c)) := qs (nat (priority (threads s c))) @ [c])"
  shows "(i < THREAD_NUM \<and> init_func (threads s i) = 0 \<and> (\<forall>j<i. init_func (threads s j) \<noteq> 0) \<and>
          c \<noteq> i \<and> \<not> queued qs i \<and> length nm \<le> THREAD_NAME_SIZE \<and> in_readyque pri \<longrightarrow>
          (\<exists>s'. thread_run L func nm pri stacksize argc argv s = Inr (addr_threads L i, s') \<and>
             ready_lists s' (qs1(nat pri := qs1 (nat pri) @ [i])) \<and>
             (pri = priority (threads s c) \<longrightarrow>
                ready_lists s' (qs(nat pri := qs (nat pri) @ [c, i]))) \<and>
             current s' = Some i)) \<and>
         (tcb_ptr L tid = Inr (Some t) \<and> t \<noteq> c \<and> detached s qs t \<and>
          in_readyque (priority (threads s t)) \<longrightarrow>
          (\<exists>s'. thread_wakeup L tid s = Inr (0, s') \<and>
             ready_lists s' (qs1(nat (priority (threads s t)) := qs1 (nat (priority (threads s t))) @ [t])) \<and>
             (priority (threads s t) = priority (threads s c) \<longrightarrow>
                ready_lists s' (qs(nat (priority (threads s c)) :=
                                     qs (nat (priority (threads s c))) @ [c, t]))) \<and>
             current s' = Some t))"
proof (intro conjI impI)
  assume a: "i < THREAD_NUM \<and> init_func (threads s i) = 0 \<and> (\<forall>j<i. init_func (threads s j) \<noteq> 0) \<and>
          c \<noteq> i \<and> \<not> queued qs i \<and> length nm \<le> THREAD_NAME_SIZE \<and> in_readyque pri"
  then have h: "i < THREAD_NUM" "init_func (threads s i) = 0" "\<forall>j<i. init_func (threads s j) \<noteq> 0"
    "c \<noteq> i" "\<not> queued qs i" "length nm \<le> THREAD_NAME_SIZE" "in_readyque pri"
    by simp_all
  from thread_run_attach [where stacksize = stacksize and func = func and argc = argc
      and argv = argv and L = L, OF h(1,2,3,6) assms(1,2,3,4) h(4,5,7) assms(5) refl refl refl refl]
  obtain s' where s': "thread_run L func nm pri stacksize argc argv s = Inr (addr_threads L i, s')"
    and rl': "ready_lists s' (qs1(nat pri := qs1 (nat pri) @ [i]))"
    and lo: "current s' = Some i"
    unfolding links_only_def by auto
  have "pri = priority (threads s c) \<Longrightarrow>
      qs1(nat pri := qs1 (nat pri) @ [i]) = qs(nat pri := qs (nat pri) @ [c, i])"
    by (simp add: assms(5))
  with rl' have "pri = priority (threads s c) \<longrightarrow> ready_lists s' (qs(nat pri := qs (nat pri) @ [c, i]))"
    by auto
  with s' rl' lo
  show "\<exists>s'. thread_run L func nm pri stacksize argc argv s = Inr (addr_threads L i, s') \<and>
             ready_lists s' (qs1(nat pri := qs1 (nat pri) @ [i])) \<and>
             (pri = priority (threads s c) \<longrightarrow>
                ready_lists s' (qs(nat pri := qs (nat pri) @ [c, i]))) \<and>
             current s' = Some i"
    by blast
next
  assume a: "tcb_ptr L tid = Inr (Some t) \<and> t \<noteq> c \<and> detached s qs t \<and>
          in_readyque (priority (threads s t))"
  then have h: "tcb_ptr L tid = Inr (Some t)" "t \<noteq> c" "detached s qs t"
    "in_readyque (priority (threads s t))"
    by simp_all
  from thread_wakeup_attach [OF assms(1,2,3,4) h assms(5) refl]
  obtain s' where s': "thread_wakeup L tid s = Inr (0, s')"
    and rl': "ready_lists s' (qs1(nat (priority (threads s t)) := qs1 (nat (priority (threads s t))) @ [t]))"
    and lo: "current s' = Some t"
    unfolding links_only_def by auto
  have "priority (threads s t) = priority (threads s c) \<Longrightarrow>
      qs1(nat (priority (threads s t)) := qs1 (nat (priority (threads s t))) @ [t]) =
      qs(nat (priority (threads s c)) := qs (nat (priority (threads s c))) @ [c, t])"
    by (simp add: assms(5))
  with rl' have "priority (threads s t) = priority (threads s c) \<longrightarrow>
      ready_lists s' (qs(nat (priority (threads s c)) := qs (nat (priority (threads s c))) @ [c, t]))"
    by auto
  with s' rl' lo
  show "\<exists>s'. thread_wakeup L tid s = Inr (0, s') \<and>
             ready_lists s' (qs1(nat (priority (threads s t)) := qs1 (nat (priority (threads s t))) @ [t])) \<and>
             (priority (threads s t) = priority (threads s c) \<longrightarrow>
                ready_lists s' (qs(nat (priority (threads s c)) :=
                                     qs (nat (priority (threads s c))) @ [c, t]))) \<and>
             current s' = Some t"
    by blast
qed


lemma demo_current: "current demo_state = Some 1"
  by (simp add: demo_state_def)

lemma demo_priority_1: "priority (threads demo_state 1) = 1"
  by (simp add: demo_state_def zero_state_def zero_thread_def)

lemma demo_priority_2: "priority (threads demo_state 2) = 1"
  by (simp add: demo_state_def zero_state_def zero_thread_def)

lemma demo_in_readyque: "in_readyque (priority (threads demo_state 1))"
  by (simp only: demo_priority_1) (simp add: in_readyque_def PRIORITY_NUM_def)

theorem run_wakeup_order_witness:
  "(\<exists>s'. thread_run test_extern 0x2300 ''test'' 1 0x100 0 0 demo_state = Inr (0xFFD0C0, s') \<and>
       ready_lists s' ((\<lambda>i. [])(15 := [0], 1 := [1, 3])) \<and> current s' = Some 3) \<and>
   (\<exists>s'. thread_wakeup test_extern 0xFFD080 demo_state = Inr (0, s') \<and>
       ready_lists s' ((\<lambda>i. [])(15 := [0], 1 := [1, 2])) \<and> current s' = Some 2)"
proof -
  note w = run_wakeup_order [OF demo_ready_lists demo_current demo_detached_1 demo_in_readyque refl,
      where i = 3 and nm = "''test''" and pri = 1 and L = test_extern and tid = "0xFFD080"
        and t = 2 and func = "0x2300" and stacksize = "0x100" and argc = 0 and argv = 0]
  have r: "3 < THREAD_NUM \<and> init_func (threads demo_state 3) = 0 \<and>
        (\<forall>j<3. init_func (threads demo_state j) \<noteq> 0) \<and> (1::nat) \<noteq> 3 \<and>
        \<not> queued ((\<lambda>i. [])(15 := [0])) 3 \<and> length ''test'' \<le> THREAD_NAME_SIZE \<and> in_readyque 1"
    using demo_slot demo_not_queued_3
    by (simp add: THREAD_NAME_SIZE_def in_readyque_def PRIORITY_NUM_def)
  have k: "tcb_ptr test_extern 0xFFD080 = Inr (Some 2) \<and> (2::nat) \<noteq> 1 \<and>
        detached demo_state ((\<lambda>i. [])(15 := [0])) 2 \<and> in_readyque (priority (threads demo_state 2))"
    using demo_tcb_ptr demo_detached_2
    by (simp only: demo_priority_2) (simp add: in_readyque_def PRIORITY_NUM_def)
  have a: "addr_threads test_extern 3 = 0xFFD0C0"
    by (simp add: test_extern_def)
  from w [THEN conjunct1, rule_format, OF r] w [THEN conjunct2, rule_format, OF k]
  show ?thesis
    by (simp add: demo_priority_1 [simplified] demo_priority_2 a)
qed

lemma thread_run_full:
  assumes "\<forall>j<THREAD_NUM. init_func (threads s j) \<noteq> 0"
  shows "thread_run L func nm pri stacksize argc argv s = Inr (- 1, s)"
proof -
  from assms have "thread_run_loop s 0 = THREAD_NUM"
    by (intro thread_run_loop_none) auto
  then show ?thesis
    by (simp add: thread_run_def)
qed

text \<open>
  Claim C4. \<open>thread_run\<close> looks for the first slot of \<open>threads\<close> whose \<open>init.func\<close> is null.
  When none of the \<open>THREAD_NUM\<close> slots is free it returns \<open>-1\<close> and the state is the one it
  was given. When \<open>i\<close> is the first free slot (the name fits, the priority indexes the
  array, and the caller \<open>c\<close> is a live thread that is off the queues) it returns the
  address of \<open>threads[i]\<close>; the TCB holds the name, priority and startup arguments; its
  stack is the old \<open>thread_stack\<close> plus \<open>stacksize\<close>, which is also the new \<open>thread_stack\<close>;
  the nine words above the saved stack pointer are the startup frame, from the TCB address
  in ER0 up to the address of \<open>thread_end\<close>; the caller has been appended to the queue of its
  priority and then the new thread to the queue of \<open>pri\<close>, both \<open>READY\<close>.
\<close>

theorem thread_run_result:
  "((\<forall>j<THREAD_NUM. init_func (threads s j) \<noteq> 0) \<longrightarrow>
      thread_run L func nm pri stacksize argc argv s = Inr (- 1, s)) \<and>
   (i < THREAD_NUM \<and> init_func (threads s i) = 0 \<and> (\<forall>j<i. init_func (threads s j) \<noteq> 0) \<and>
    length nm \<le> THREAD_NAME_SIZE \<and> in_readyque pri \<and>
    ready_lists s qs \<and> \<not> queued qs i \<and>
    current s = Some c \<and> init_func (threads s c) \<noteq> 0 \<and> detached s qs c \<and>
    in_readyque (priority (threads s c)) \<and>
    qs1 = qs(nat (priority (threads s c)) := qs (nat (priority (threads s c))) @ [c]) \<and>
    sp = thread_stack s + word_of_int stacksize - 36 \<longrightarrow>
      (\<exists>s'. thread_run L func nm pri stacksize argc argv s = Inr (addr_threads L i, s') \<and>
         name (threads s' i) = nm \<and> priority (threads s' i) = pri \<and>
         init_func (threads s' i) = func \<and> init_argc (threads s' i) = argc \<and>
         init_argv (threads s' i) = argv \<and>
         stack (threads s' i) = thread_stack s + word_of_int stacksize \<and>
         thread_stack s' = thread_stack s + word_of_int stacksize \<and>
         context_sp (threads s' i) = sp \<and>
         map (mem s') [sp, sp + 4, sp + 8, sp + 12, sp + 16, sp + 20, sp + 24, sp + 28, sp + 32] =
           [addr_threads L i, 0, 0, 0, 0, 0, 0,
            addr_thread_init L OR push_bit 24 (if pri \<noteq> 0 then 0 else 0xc0),
            addr_thread_end L] \<and>
         ready_lists s' (qs1(nat pri := qs1 (nat pri) @ [i])) \<and>
         is_ready (threads s' i) \<and> is_ready (threads s' c) \<and> current s' = Some i))"
proof (intro conjI impI)
  assume "\<forall>j<THREAD_NUM. init_func (threads s j) \<noteq> 0"
  then show "thread_run L func nm pri stacksize argc argv s = Inr (- 1, s)"
    by (rule thread_run_full)
next
  assume "i < THREAD_NUM \<and> init_func (threads s i) = 0 \<and> (\<forall>j<i. init_func (threads s j) \<noteq> 0) \<and>
    length nm \<le> THREAD_NAME_SIZE \<and> in_readyque pri \<and>
    ready_lists s qs \<and> \<not> queued qs i \<and>
    current s = Some c \<and> init_func (threads s c) \<noteq> 0 \<and> detached s qs c \<and>
    in_readyque (priority (threads s c)) \<and>
    qs1 = qs(nat (priority (threads s c)) := qs (nat (priority (threads s c))) @ [c]) \<and>
    sp = thread_stack s + word_of_int stacksize - 36"
  then have h: "i < THREAD_NUM" "init_func (threads s i) = 0" "\<forall>j<i. init_func (threads s j) \<noteq> 0"
    "length nm \<le> THREAD_NAME_SIZE" "in_readyque pri" "ready_lists s qs" "\<not> queued qs i"
    "current s = Some c" "init_func (threads s c) \<noteq> 0" "detached s qs c"
    "in_readyque (priority (threads s c))"
    "qs1 = qs(nat (priority (threads s c)) := qs (nat (priority (threads s c))) @ [c])"
    "sp = thread_stack s + word_of_int stacksize - 36"
    by simp_all
  from h(2,9) have ci: "c \<noteq> i"
    by auto
  define ts where "ts = thread_stack s + word_of_int stacksize"
  define T where "T = zero_thread\<lparr>name := nm, priority := pri, stack := ts, init_func := func,
                 init_argc := argc, init_argv := argv, context_sp := ts - 36\<rparr>"
  define M where "M = snd (foldl push (ts, memset_zero (mem s) (thread_stack s) stacksize)
                 (startup_frame L pri i))"
  define s0 where "s0 = s\<lparr>current := Some i, threads := (threads s)(i := T), mem := M,
                     thread_stack := ts\<rparr>"
  from thread_run_attach [OF h(1,2,3,4,6,8,10,11) ci h(7,5,12) refl ts_def T_def M_def]
  obtain s' where s': "thread_run L func nm pri stacksize argc argv s = Inr (addr_threads L i, s')"
    and rl': "ready_lists s' (qs1(nat pri := qs1 (nat pri) @ [i]))"
    and lo: "links_only s0 s'"
    and rd: "\<forall>x. is_ready (threads s' x) \<longleftrightarrow> (x \<noteq> i \<and> is_ready (threads s x)) \<or> x = c \<or> x = i"
    unfolding s0_def by blast
  have tcb: "name (threads s' i) = nm" "priority (threads s' i) = pri"
    "init_func (threads s' i) = func" "init_argc (threads s' i) = argc"
    "init_argv (threads s' i) = argv" "stack (threads s' i) = ts" "context_sp (threads s' i) = ts - 36"
    by (simp_all add: links_only_threads [OF lo]) (simp_all add: s0_def T_def)
  have st: "thread_stack s' = ts" "current s' = Some i" "mem s' = M"
    by (simp_all add: links_only_state [OF lo]) (simp_all add: s0_def)
  have fr: "map M [ts - 36, ts - 36 + 4, ts - 36 + 8, ts - 36 + 12, ts - 36 + 16, ts - 36 + 20,
                   ts - 36 + 24, ts - 36 + 28, ts - 36 + 32] =
           [addr_threads L i, 0, 0, 0, 0, 0, 0,
            addr_thread_init L OR push_bit 24 (if pri \<noteq> 0 then 0 else 0xc0),
            addr_thread_end L]"
    unfolding M_def frame_words by (simp add: startup_frame_def)
  have sp: "sp = ts - 36"
    by (simp add: h(13) ts_def)
  show "\<exists>s'. thread_run L func nm pri stacksize argc argv s = Inr (addr_threads L i, s') \<and>
         name (threads s' i) = nm \<and> priority (threads s' i) = pri \<and>
         init_func (threads s' i) = func \<and> init_argc (threads s' i) = argc \<and>
         init_argv (threads s' i) = argv \<and>
         stack (threads s' i) = thread_stack s + word_of_int stacksize \<and>
         thread_stack s' = thread_stack s + word_of_int stacksize \<and>
         context_sp (threads s' i) = sp \<and>
         map (mem s') [sp, sp + 4, sp + 8, sp + 12, sp + 16, sp + 20, sp + 24, sp + 28, sp + 32] =
           [addr_threads L i, 0, 0, 0, 0, 0, 0,
            addr_thread_init L OR push_bit 24 (if pri \<noteq> 0 then 0 else 0xc0),
            addr_thread_end L] \<and>
         ready_lists s' (qs1(nat pri := qs1 (nat pri) @ [i])) \<and>
         is_ready (threads s' i) \<and> is_ready (threads s' c) \<and> current s' = Some i"
    unfolding sp
    apply (rule exI [of _ s'])
    apply (intro conjI)
    apply (rule s')
    apply (rule tcb)+
    apply (simp add: tcb ts_def)
    apply (simp add: st ts_def)
    apply (rule tcb)
    apply (simp only: st fr)
    apply (rule rl')
    apply (simp add: rd)
    apply (simp add: rd)
    apply (rule st)
    done
qed


theorem thread_run_result_witness:
  "thread_run test_extern 0x2300 ''test'' 1 0x100 0 0 full_state = Inr (- 1, full_state) \<and>
   (\<exists>s'. thread_run test_extern 0x2300 ''test'' 1 0x100 0 0 demo_state = Inr (0xFFD0C0, s') \<and>
      name (threads s' 3) = ''test'' \<and> priority (threads s' 3) = 1 \<and>
      stack (threads s' 3) = 0xFFF500 \<and> context_sp (threads s' 3) = 0xFFF4DC \<and>
      map (mem s') [0xFFF4DC, 0xFFF4F8, 0xFFF4FC] = [0xFFD0C0, 0x1100, 0x1200] \<and>
      ready_lists s' ((\<lambda>i. [])(15 := [0], 1 := [1, 3])) \<and> current s' = Some 3)"
proof -
  note w = thread_run_result [where L = test_extern and func = "0x2300" and nm = "''test''"
      and pri = 1 and stacksize = "0x100" and argc = 0 and argv = 0]
  have f: "\<forall>j<THREAD_NUM. init_func (threads full_state j) \<noteq> 0"
    by (simp add: full_state_def)
  have d: "3 < THREAD_NUM \<and> init_func (threads demo_state 3) = 0 \<and>
      (\<forall>j<3. init_func (threads demo_state j) \<noteq> 0) \<and>
      length ''test'' \<le> THREAD_NAME_SIZE \<and> in_readyque 1 \<and>
      ready_lists demo_state ((\<lambda>i. [])(15 := [0])) \<and> \<not> queued ((\<lambda>i. [])(15 := [0])) 3 \<and>
      current demo_state = Some 1 \<and> init_func (threads demo_state 1) \<noteq> 0 \<and>
      detached demo_state ((\<lambda>i. [])(15 := [0])) 1 \<and>
      in_readyque (priority (threads demo_state 1)) \<and>
      ((\<lambda>i. [])(15 := [0::nat], 1 := [1])) = ((\<lambda>i. [])(15 := [0]))(nat (priority (threads demo_state 1)) :=
         ((\<lambda>i. [])(15 := [0])) (nat (priority (threads demo_state 1))) @ [1]) \<and>
      (0xFFF4DC :: 32 word) = thread_stack demo_state + word_of_int 0x100 - 36"
    using demo_slot demo_not_queued_3 demo_ready_lists demo_current demo_detached_1 demo_in_readyque
    by (simp add: THREAD_NAME_SIZE_def in_readyque_def PRIORITY_NUM_def demo_priority_1)
       (simp add: demo_state_def zero_state_def)
  have a: "addr_threads test_extern 3 = 0xFFD0C0" "addr_thread_init test_extern = 0x1100"
    "addr_thread_end test_extern = 0x1200"
    by (simp_all add: test_extern_def)
  from w [where s = full_state, THEN conjunct1, THEN mp, OF f]
    w [where s = demo_state, THEN conjunct2, THEN mp, OF d]
  show ?thesis
    by (auto simp: a demo_state_def zero_state_def)
qed

section \<open>Mailboxes: SEND and RECV\<close>

lemma msg_path_cong:
  "(\<And>x. x \<in> set xs \<Longrightarrow> mnext (b' x) = mnext (b x)) \<Longrightarrow> msg_path b' p xs = msg_path b p xs"
  by (induction xs arbitrary: p) auto

lemma msg_path_snoc:
  "msg_path b p xs \<Longrightarrow> xs \<noteq> [] \<Longrightarrow> distinct xs \<Longrightarrow> c \<notin> set xs \<Longrightarrow> c \<noteq> 0 \<Longrightarrow> mnext (b c) = 0 \<Longrightarrow>
   msg_path (b(last xs := (b (last xs))\<lparr>mnext := c\<rparr>)) p (xs @ [c])"
proof (induction xs arbitrary: p)
  case Nil
  then show ?case by simp
next
  case (Cons x xs)
  show ?case
  proof (cases "xs = []")
    case True
    with Cons.prems show ?thesis by auto
  next
    case False
    with Cons.prems have "x \<noteq> last xs" by auto
    with Cons False show ?thesis by auto
  qed
qed

lemma msg_path_nonzero: "msg_path b p xs \<Longrightarrow> 0 \<notin> set xs"
  by (induction xs arbitrary: p) auto

lemma sendmsg_append:
  assumes al: "kzmem_alloc L (kzmem s) (sizeof_kz_msgbuf L) = (mp, pool)" and nz: "mp \<noteq> 0"
    and ml: "msg_list s m bs" and fr: "mp \<notin> set bs"
    and B: "B = (msgbufs s)(mp := \<lparr>mnext = 0, sender = thp, param_size = sz, param_p = p\<rparr>)"
  shows "\<exists>s'. sendmsg L m thp sz p s = Inr s' \<and> msg_list s' m (bs @ [mp]) \<and>
           (\<forall>x. sender (msgbufs s' x) = sender (B x) \<and>
                param_size (msgbufs s' x) = param_size (B x) \<and>
                param_p (msgbufs s' x) = param_p (B x)) \<and>
           receiver (msgboxes s' m) = receiver (msgboxes s m) \<and>
           (\<forall>k. k \<noteq> m \<longrightarrow> msgboxes s' k = msgboxes s k) \<and>
           kzmem s' = pool \<and> readyque s' = readyque s \<and> threads s' = threads s \<and>
           current s' = current s \<and> handlers s' = handlers s \<and>
           thread_stack s' = thread_stack s \<and> params s' = params s \<and> mem s' = mem s"
proof (cases "bs = []")
  case True
  with ml have t: "mtail (msgboxes s m) = 0"
    by (simp add: msg_list_def)
  show ?thesis
    using al nz True t
    by (simp add: sendmsg_def Let_def msg_list_def B)
next
  case False
  with ml have t: "mtail (msgboxes s m) = last bs" and d: "distinct bs"
    and pa: "msg_path (msgbufs s) (mhead (msgboxes s m)) bs"
    by (simp_all add: msg_list_def)
  from pa have z: "0 \<notin> set bs"
    by (rule msg_path_nonzero)
  with False have lz: "last bs \<noteq> 0"
    using last_in_set by metis
  have lm: "last bs \<noteq> mp"
    using False fr last_in_set by metis
  have "msg_path B (mhead (msgboxes s m)) bs = msg_path (msgbufs s) (mhead (msgboxes s m)) bs"
    using fr by (intro msg_path_cong) (auto simp: B)
  with pa have "msg_path B (mhead (msgboxes s m)) bs"
    by simp
  then have "msg_path (B(last bs := (B (last bs))\<lparr>mnext := mp\<rparr>)) (mhead (msgboxes s m)) (bs @ [mp])"
    using False d fr nz by (rule msg_path_snoc) (simp add: B)
  then show ?thesis
    using al nz False t d fr lz lm
    by (simp add: sendmsg_def Let_def msg_list_def B)
qed

lemma msg_path_zero: "msg_path b 0 xs \<longleftrightarrow> xs = []"
  by (cases xs) auto

lemma recvmsg_deliver:
  assumes ml: "msg_list s m (b # bs)" and rc: "receiver (msgboxes s m) = Some r"
    and sp: "syscall_param (threads s r) = rp" and rz: "rp \<noteq> 0"
    and pb: "params s rp = Un_recv i sizep pp r0"
    and M1: "M1 = (if sizep \<noteq> 0 then (mem s)(sizep := word_of_int (param_size (msgbufs s b))) else mem s)"
    and M2: "M2 = (if pp \<noteq> 0 then M1(pp := param_p (msgbufs s b)) else M1)"
  shows "\<exists>s'. recvmsg L m s = Inr s' \<and> msg_list s' m bs \<and> receiver (msgboxes s' m) = None \<and>
     params s' = (params s)(rp := Un_recv i sizep pp (tcb_addr L (sender (msgbufs s b)))) \<and>
     mem s' = M2 \<and> kzmem s' = kzmem_free L (kzmem s) b \<and>
     (\<forall>k. k \<noteq> m \<longrightarrow> msgboxes s' k = msgboxes s k) \<and>
     readyque s' = readyque s \<and> threads s' = threads s \<and> current s' = current s \<and>
     handlers s' = handlers s \<and> thread_stack s' = thread_stack s"
proof -
  from ml have hd: "mhead (msgboxes s m) = b" and bz: "b \<noteq> 0"
    and pa: "msg_path (msgbufs s) (mnext (msgbufs s b)) bs"
    and d: "distinct bs" "b \<notin> set bs"
    and tl: "mtail (msgboxes s m) = last (b # bs)"
    by (auto simp: msg_list_def)
  have "msg_path ((msgbufs s)(b := (msgbufs s b)\<lparr>mnext := 0\<rparr>)) (mnext (msgbufs s b)) bs =
        msg_path (msgbufs s) (mnext (msgbufs s b)) bs"
    using d(2) by (intro msg_path_cong) auto
  with pa have pa': "msg_path ((msgbufs s)(b := (msgbufs s b)\<lparr>mnext := 0\<rparr>)) (mnext (msgbufs s b)) bs"
    by simp
  have e: "mnext (msgbufs s b) = 0 \<longleftrightarrow> bs = []"
    using pa by (cases bs) auto
  show ?thesis
  proof (cases "bs = []")
    case True
    with e have "mnext (msgbufs s b) = 0"
      by simp
    then show ?thesis
      using hd bz rc sp rz pb True
      by (simp add: recvmsg_def Let_def msg_list_def M1 M2)
  next
    case False
    with e have "mnext (msgbufs s b) \<noteq> 0"
      by simp
    then show ?thesis
      using hd bz rc sp rz pb False pa' d tl
      by (simp add: recvmsg_def Let_def msg_list_def M1 M2)
  qed
qed

lemma thread_send_queue:
  assumes rl: "ready_lists s qs" and cur: "current s = Some c" and dc: "detached s qs c"
    and ic: "in_readyque (priority (threads s c))"
    and al: "kzmem_alloc L (kzmem s) (sizeof_kz_msgbuf L) = (mp, pool)" and nz: "mp \<noteq> 0"
    and ml: "msg_list s m bs" and fr: "mp \<notin> set bs"
    and nr: "receiver (msgboxes s m) = None"
    and q1: "qs1 = qs(nat (priority (threads s c)) := qs (nat (priority (threads s c))) @ [c])"
    and B: "B = (msgbufs s)(mp := \<lparr>mnext = 0, sender = Some c, param_size = sz, param_p = p\<rparr>)"
  shows "\<exists>s'. thread_send L m sz p s = Inr (sz, s') \<and> msg_list s' m (bs @ [mp]) \<and>
           (\<forall>x. sender (msgbufs s' x) = sender (B x) \<and>
                param_size (msgbufs s' x) = param_size (B x) \<and>
                param_p (msgbufs s' x) = param_p (B x)) \<and>
           receiver (msgboxes s' m) = None \<and>
           (\<forall>k. k \<noteq> m \<longrightarrow> msgboxes s' k = msgboxes s k) \<and>
           ready_lists s' qs1 \<and> is_ready (threads s' c) \<and> current s' = Some c \<and>
           params s' = params s \<and> mem s' = mem s \<and> kzmem s' = pool"
proof -
  from putcurrent_attach [OF rl cur dc ic] obtain s1 where s1: "putcurrent s = Inr (0, s1)"
    "ready_lists s1 qs1" "links_only s s1" "is_ready (threads s1 c)"
    unfolding q1 by blast
  note st = links_only_state [OF s1(3)]
  have al1: "kzmem_alloc L (kzmem s1) (sizeof_kz_msgbuf L) = (mp, pool)"
    using al by (simp add: st)
  have ml1: "msg_list s1 m bs"
    using ml by (simp add: msg_list_def st)
  have B1: "B = (msgbufs s1)(mp := \<lparr>mnext = 0, sender = current s1, param_size = sz, param_p = p\<rparr>)"
    by (simp add: B st cur)
  from sendmsg_append [OF al1 nz ml1 fr B1]
  obtain s2 where s2: "sendmsg L m (current s1) sz p s1 = Inr s2" "msg_list s2 m (bs @ [mp])"
    "\<forall>x. sender (msgbufs s2 x) = sender (B x) \<and>
         param_size (msgbufs s2 x) = param_size (B x) \<and>
         param_p (msgbufs s2 x) = param_p (B x)"
    "receiver (msgboxes s2 m) = receiver (msgboxes s1 m)"
    "\<forall>k. k \<noteq> m \<longrightarrow> msgboxes s2 k = msgboxes s1 k"
    "kzmem s2 = pool" "readyque s2 = readyque s1" "threads s2 = threads s1"
    "current s2 = current s1" "params s2 = params s1" "mem s2 = mem s1"
    by blast
  have r2: "receiver (msgboxes s2 m) = None"
    using s2(4) nr by (simp add: st)
  have e: "thread_send L m sz p s = Inr (sz, s2)"
    using s1(1) s2(1) r2 by (simp add: thread_send_def)
  have "ready_lists s2 qs1 = ready_lists s1 qs1"
    by (intro ready_lists_frame) (simp_all add: s2)
  with s1 s2 r2 e show ?thesis
    by (auto simp: st cur)
qed

lemma thread_send_deliver:
  assumes rl: "ready_lists s qs" and cur: "current s = Some c" and dc: "detached s qs c"
    and ic: "in_readyque (priority (threads s c))"
    and al: "kzmem_alloc L (kzmem s) (sizeof_kz_msgbuf L) = (mp, pool)" and nz: "mp \<noteq> 0"
    and ml: "msg_list s m bs" and fr: "mp \<notin> set bs"
    and rc: "receiver (msgboxes s m) = Some r" and rn: "r \<noteq> c" and dr: "detached s qs r"
    and ir: "in_readyque (priority (threads s r))"
    and sp: "syscall_param (threads s r) = rp" and rz: "rp \<noteq> 0"
    and pb: "params s rp = Un_recv i sizep pp r0"
    and q1: "qs1 = qs(nat (priority (threads s c)) := qs (nat (priority (threads s c))) @ [c])"
    and q2: "qs2 = qs1(nat (priority (threads s r)) := qs1 (nat (priority (threads s r))) @ [r])"
    and B: "B = (msgbufs s)(mp := \<lparr>mnext = 0, sender = Some c, param_size = sz, param_p = p\<rparr>)"
    and b: "b = hd (bs @ [mp])"
    and M1: "M1 = (if sizep \<noteq> 0 then (mem s)(sizep := word_of_int (param_size (B b))) else mem s)"
    and M2: "M2 = (if pp \<noteq> 0 then M1(pp := param_p (B b)) else M1)"
  shows "\<exists>s'. thread_send L m sz p s = Inr (sz, s') \<and> msg_list s' m (tl (bs @ [mp])) \<and>
           receiver (msgboxes s' m) = None \<and>
           (\<forall>k. k \<noteq> m \<longrightarrow> msgboxes s' k = msgboxes s k) \<and>
           params s' = (params s)(rp := Un_recv i sizep pp (tcb_addr L (sender (B b)))) \<and>
           mem s' = M2 \<and> kzmem s' = kzmem_free L pool b \<and>
           ready_lists s' qs2 \<and> is_ready (threads s' c) \<and> is_ready (threads s' r) \<and>
           current s' = Some r"
proof -
  have pc: "nat (priority (threads s c)) < PRIORITY_NUM"
    using ic by (auto simp: in_readyque_def)
  from putcurrent_attach [OF rl cur dc ic] obtain s1 where s1: "putcurrent s = Inr (0, s1)"
    "ready_lists s1 qs1" "links_only s s1" "is_ready (threads s1 c)"
    "\<forall>x. x \<noteq> c \<and> \<not> queued qs x \<longrightarrow> threads s1 x = threads s x"
    unfolding q1 by blast
  note st = links_only_state [OF s1(3)]
  have tr: "threads s1 r = threads s r"
    using s1(5) rn dr by (simp add: detached_def)
  have al1: "kzmem_alloc L (kzmem s1) (sizeof_kz_msgbuf L) = (mp, pool)"
    using al by (simp add: st)
  have ml1: "msg_list s1 m bs"
    using ml by (simp add: msg_list_def st)
  have B1: "B = (msgbufs s1)(mp := \<lparr>mnext = 0, sender = current s1, param_size = sz, param_p = p\<rparr>)"
    by (simp add: B st cur)
  from sendmsg_append [OF al1 nz ml1 fr B1]
  obtain s2 where s2: "sendmsg L m (current s1) sz p s1 = Inr s2" "msg_list s2 m (bs @ [mp])"
    "\<forall>x. sender (msgbufs s2 x) = sender (B x) \<and>
         param_size (msgbufs s2 x) = param_size (B x) \<and>
         param_p (msgbufs s2 x) = param_p (B x)"
    "receiver (msgboxes s2 m) = receiver (msgboxes s1 m)"
    "\<forall>k. k \<noteq> m \<longrightarrow> msgboxes s2 k = msgboxes s1 k"
    "kzmem s2 = pool" "readyque s2 = readyque s1" "threads s2 = threads s1"
    "current s2 = current s1" "params s2 = params s1" "mem s2 = mem s1"
    "handlers s2 = handlers s1" "thread_stack s2 = thread_stack s1"
    by blast
  have r2: "receiver (msgboxes s2 m) = Some r"
    using s2(4) rc by (simp add: st)
  define s2' where "s2' = s2\<lparr>current := Some r\<rparr>"
  have e1: "thread_send L m sz p s =
      thenf (recvmsg L m s2') (\<lambda>s3. thenf (putcurrent s3) (\<lambda>(r2, s4). Inr (sz, s4)))"
    using s1(1) s2(1) r2 by (simp add: thread_send_def s2'_def)
  have bb: "bs @ [mp] = b # tl (bs @ [mp])"
    by (simp add: b)
  have ml2: "msg_list s2' m (b # tl (bs @ [mp]))"
    using s2(2) bb by (simp add: msg_list_def s2'_def)
  have rc2: "receiver (msgboxes s2' m) = Some r"
    using r2 by (simp add: s2'_def)
  have sp2: "syscall_param (threads s2' r) = rp"
    using sp by (simp add: s2'_def s2 tr)
  have pb2: "params s2' rp = Un_recv i sizep pp r0"
    using pb by (simp add: s2'_def s2 st)
  have sb: "sender (msgbufs s2' b) = sender (B b)" "param_size (msgbufs s2' b) = param_size (B b)"
    "param_p (msgbufs s2' b) = param_p (B b)"
    using s2(3) by (simp_all add: s2'_def)
  have M1': "M1 = (if sizep \<noteq> 0 then (mem s2')(sizep := word_of_int (param_size (msgbufs s2' b))) else mem s2')"
    by (simp add: M1 sb) (simp add: s2'_def s2 st)
  have M2': "M2 = (if pp \<noteq> 0 then M1(pp := param_p (msgbufs s2' b)) else M1)"
    by (simp add: M2 sb)
  from recvmsg_deliver [OF ml2 rc2 sp2 rz pb2 M1' M2', of L]
  obtain s3 where s3: "recvmsg L m s2' = Inr s3" "msg_list s3 m (tl (bs @ [mp]))"
    "receiver (msgboxes s3 m) = None"
    "params s3 = (params s2')(rp := Un_recv i sizep pp (tcb_addr L (sender (msgbufs s2' b))))"
    "mem s3 = M2" "kzmem s3 = kzmem_free L (kzmem s2') b"
    "\<forall>k. k \<noteq> m \<longrightarrow> msgboxes s3 k = msgboxes s2' k"
    "readyque s3 = readyque s2'" "threads s3 = threads s2'" "current s3 = current s2'"
    by blast
  have t3: "threads s3 = threads s1" "readyque s3 = readyque s1" "current s3 = Some r"
    by (simp_all add: s3 s2'_def s2)
  have "ready_lists s3 qs1 = ready_lists s1 qs1"
    by (intro ready_lists_frame) (simp_all add: t3)
  with s1(2) have rl3: "ready_lists s3 qs1"
    by simp
  have d3: "detached s3 qs1 r"
    using dr rn pc by (simp add: detached_def t3 tr q1 queued_upd)
  have i3: "in_readyque (priority (threads s3 r))"
    using ir by (simp add: t3 tr)
  from putcurrent_attach [OF rl3 t3(3) d3 i3]
  obtain s4 where s4: "putcurrent s3 = Inr (0, s4)" "ready_lists s4 qs2" "links_only s3 s4"
    "\<forall>x. is_ready (threads s4 x) \<longleftrightarrow> is_ready (threads s3 x) \<or> x = r"
    unfolding q2 by (auto simp: t3 tr)
  note st4 = links_only_state [OF s4(3)]
  have e: "thread_send L m sz p s = Inr (sz, s4)"
    by (simp add: e1 s3 s4)
  have g1: "msg_list s4 m (tl (bs @ [mp]))"
    using s3(2) by (simp add: msg_list_def st4)
  have g2: "\<forall>k. k \<noteq> m \<longrightarrow> msgboxes s4 k = msgboxes s k"
    by (simp add: st4 s3 s2'_def s2 st)
  have g3: "params s4 = (params s)(rp := Un_recv i sizep pp (tcb_addr L (sender (B b))))"
    by (simp add: st4 s3 sb) (simp add: s2'_def s2 st)
  have g4: "kzmem s4 = kzmem_free L pool b"
    by (simp add: st4 s3) (simp add: s2'_def s2)
  have g5: "is_ready (threads s4 c)" "is_ready (threads s4 r)"
    using s4(4) s1(4) by (simp_all add: t3)
  show ?thesis
    apply (rule exI [of _ s4])
    apply (intro conjI)
    apply (rule e)
    apply (rule g1)
    apply (simp add: st4 s3)
    apply (rule g2)
    apply (rule g3)
    apply (simp add: st4 s3)
    apply (rule g4)
    apply (rule s4)
    apply (rule g5)
    apply (rule g5)
    apply (simp add: st4 t3)
    done
qed

text \<open>
  Claim C2, as amended. The caller \<open>c\<close> is off the queues, the allocator hands out the
  buffer \<open>mp\<close>, and the FIFO of mailbox \<open>m\<close> holds the buffers \<open>bs\<close>. With no receiver
  parked, \<open>thread_send\<close> returns the size argument, the FIFO is \<open>bs\<close> followed by \<open>mp\<close>,
  which carries the sender \<open>c\<close>, the size and the pointer, and the caller is back at the
  tail of its queue. With \<open>r\<close> parked, the head \<open>b\<close> of that FIFO is taken off it; the
  sender of \<open>b\<close> is stored in \<open>ret\<close> of the receiver's block; the size of \<open>b\<close> is stored
  at \<open>sizep\<close> if \<open>sizep\<close> is not null, then its pointer at \<open>pp\<close> if \<open>pp\<close> is not null,
  and user memory is otherwise as it was; the receiver slot is null, \<open>b\<close> has been given
  to \<open>kzmem_free\<close>, and the caller and then the receiver have been appended to their
  queues.
\<close>

theorem thread_send_result:
  assumes "ready_lists s qs" and "current s = Some c" and "detached s qs c"
    and "in_readyque (priority (threads s c))"
    and "kzmem_alloc L (kzmem s) (sizeof_kz_msgbuf L) = (mp, pool)" and "mp \<noteq> 0"
    and "msg_list s m bs" and "mp \<notin> set bs"
    and "qs1 = qs(nat (priority (threads s c)) := qs (nat (priority (threads s c))) @ [c])"
    and "B = (msgbufs s)(mp := \<lparr>mnext = 0, sender = Some c, param_size = sz, param_p = p\<rparr>)"
  shows "(receiver (msgboxes s m) = None \<longrightarrow>
           (\<exists>s'. thread_send L m sz p s = Inr (sz, s') \<and> msg_list s' m (bs @ [mp]) \<and>
              sender (msgbufs s' mp) = Some c \<and> param_size (msgbufs s' mp) = sz \<and>
              param_p (msgbufs s' mp) = p \<and> receiver (msgboxes s' m) = None \<and>
              ready_lists s' qs1 \<and> is_ready (threads s' c))) \<and>
         (receiver (msgboxes s m) = Some r \<and> r \<noteq> c \<and> detached s qs r \<and>
          in_readyque (priority (threads s r)) \<and> syscall_param (threads s r) = rp \<and> rp \<noteq> 0 \<and>
          params s rp = Un_recv i sizep pp r0 \<and> b = hd (bs @ [mp]) \<longrightarrow>
           (\<exists>s'. thread_send L m sz p s = Inr (sz, s') \<and> msg_list s' m (tl (bs @ [mp])) \<and>
              params s' rp = Un_recv i sizep pp (tcb_addr L (sender (B b))) \<and>
              mem s' = (let M1 = (if sizep \<noteq> 0
                                  then (mem s)(sizep := word_of_int (param_size (B b)))
                                  else mem s)
                        in if pp \<noteq> 0 then M1(pp := param_p (B b)) else M1) \<and>
              receiver (msgboxes s' m) = None \<and> kzmem s' = kzmem_free L pool b \<and>
              ready_lists s' (qs1(nat (priority (threads s r)) :=
                                    qs1 (nat (priority (threads s r))) @ [r])) \<and>
              is_ready (threads s' r) \<and> is_ready (threads s' c)))"
proof (intro conjI impI)
  assume nr: "receiver (msgboxes s m) = None"
  from thread_send_queue [OF assms(1-8) nr assms(9,10)]
  obtain s' where s': "thread_send L m sz p s = Inr (sz, s')" "msg_list s' m (bs @ [mp])"
    "\<forall>x. sender (msgbufs s' x) = sender (B x) \<and> param_size (msgbufs s' x) = param_size (B x) \<and>
         param_p (msgbufs s' x) = param_p (B x)"
    "receiver (msgboxes s' m) = None" "ready_lists s' qs1" "is_ready (threads s' c)"
    by blast
  from s'(3) have "sender (msgbufs s' mp) = Some c" "param_size (msgbufs s' mp) = sz"
    "param_p (msgbufs s' mp) = p"
    by (simp_all add: assms(10))
  with s' show "\<exists>s'. thread_send L m sz p s = Inr (sz, s') \<and> msg_list s' m (bs @ [mp]) \<and>
              sender (msgbufs s' mp) = Some c \<and> param_size (msgbufs s' mp) = sz \<and>
              param_p (msgbufs s' mp) = p \<and> receiver (msgboxes s' m) = None \<and>
              ready_lists s' qs1 \<and> is_ready (threads s' c)"
    by blast
next
  assume "receiver (msgboxes s m) = Some r \<and> r \<noteq> c \<and> detached s qs r \<and>
          in_readyque (priority (threads s r)) \<and> syscall_param (threads s r) = rp \<and> rp \<noteq> 0 \<and>
          params s rp = Un_recv i sizep pp r0 \<and> b = hd (bs @ [mp])"
  then have h: "receiver (msgboxes s m) = Some r" "r \<noteq> c" "detached s qs r"
    "in_readyque (priority (threads s r))" "syscall_param (threads s r) = rp" "rp \<noteq> 0"
    "params s rp = Un_recv i sizep pp r0" "b = hd (bs @ [mp])"
    by simp_all
  from thread_send_deliver [OF assms(1-8) h(1-7) assms(9) refl assms(10) h(8) refl refl]
  obtain s' where s': "thread_send L m sz p s = Inr (sz, s')" "msg_list s' m (tl (bs @ [mp]))"
    "receiver (msgboxes s' m) = None"
    "params s' = (params s)(rp := Un_recv i sizep pp (tcb_addr L (sender (B b))))"
    "mem s' = (if pp \<noteq> 0
               then (if sizep \<noteq> 0 then (mem s)(sizep := word_of_int (param_size (B b))) else mem s)
                      (pp := param_p (B b))
               else (if sizep \<noteq> 0 then (mem s)(sizep := word_of_int (param_size (B b))) else mem s))"
    "kzmem s' = kzmem_free L pool b"
    "ready_lists s' (qs1(nat (priority (threads s r)) := qs1 (nat (priority (threads s r))) @ [r]))"
    "is_ready (threads s' c)" "is_ready (threads s' r)"
    by blast
  from s'(4) have "params s' rp = Un_recv i sizep pp (tcb_addr L (sender (B b)))"
    by simp
  with s' show "\<exists>s'. thread_send L m sz p s = Inr (sz, s') \<and> msg_list s' m (tl (bs @ [mp])) \<and>
              params s' rp = Un_recv i sizep pp (tcb_addr L (sender (B b))) \<and>
              mem s' = (let M1 = (if sizep \<noteq> 0
                                  then (mem s)(sizep := word_of_int (param_size (B b)))
                                  else mem s)
                        in if pp \<noteq> 0 then M1(pp := param_p (B b)) else M1) \<and>
              receiver (msgboxes s' m) = None \<and> kzmem s' = kzmem_free L pool b \<and>
              ready_lists s' (qs1(nat (priority (threads s r)) :=
                                    qs1 (nat (priority (threads s r))) @ [r])) \<and>
              is_ready (threads s' r) \<and> is_ready (threads s' c)"
    unfolding Let_def by blast
qed


lemma demo_alloc:
  "kzmem_alloc test_extern (kzmem demo_state) (sizeof_kz_msgbuf test_extern) = (0xFFE000, [0xFFE010])"
  by (simp add: test_extern_def demo_state_def zero_state_def)

lemma demo_msg_list: "msg_list demo_state MSGBOX_ID_MSGBOX1 []"
  by (simp add: msg_list_def demo_state_def zero_state_def)

lemma parked_queues:
  "ready_lists parked_state ((\<lambda>i. [])(15 := [0]))"
  "current parked_state = Some 1"
  "detached parked_state ((\<lambda>i. [])(15 := [0])) 1"
  "in_readyque (priority (threads parked_state 1))"
  "detached parked_state ((\<lambda>i. [])(15 := [0])) 2"
  "in_readyque (priority (threads parked_state 2))"
proof -
  have r: "readyque parked_state = readyque demo_state" and t: "threads parked_state = threads demo_state"
    by (simp_all add: parked_state_def)
  show "ready_lists parked_state ((\<lambda>i. [])(15 := [0]))"
    using demo_ready_lists ready_lists_frame [of parked_state demo_state] by (simp add: r t)
  show "current parked_state = Some 1"
    by (simp add: parked_state_def demo_current)
  show "detached parked_state ((\<lambda>i. [])(15 := [0])) 1"
    using demo_detached_1 by (simp add: detached_def t)
  show "in_readyque (priority (threads parked_state 1))"
    using demo_in_readyque by (simp add: t)
  show "detached parked_state ((\<lambda>i. [])(15 := [0])) 2"
    using demo_detached_2 by (simp add: detached_def t)
  show "in_readyque (priority (threads parked_state 2))"
    by (simp only: t demo_priority_2) (simp add: in_readyque_def PRIORITY_NUM_def)
qed

lemma parked_mailbox:
  "kzmem_alloc test_extern (kzmem parked_state) (sizeof_kz_msgbuf test_extern) = (0xFFE000, [0xFFE010])"
  "(0xFFE000 :: 32 word) \<noteq> 0"
  "msg_list parked_state MSGBOX_ID_MSGBOX1 []"
  "(0xFFE000 :: 32 word) \<notin> set []"
  "receiver (msgboxes parked_state MSGBOX_ID_MSGBOX1) = Some 2"
  "(2::nat) \<noteq> 1"
  "syscall_param (threads parked_state 2) = 0x3100"
  "(0x3100 :: 32 word) \<noteq> 0"
  "params parked_state 0x3100 = Un_recv MSGBOX_ID_MSGBOX1 0x5000 0x5004 (- 1)"
  by (simp_all add: parked_state_def test_extern_def demo_state_def zero_state_def msg_list_def
      zero_thread_def)

theorem thread_send_result_witness:
  "(\<exists>s'. thread_send test_extern MSGBOX_ID_MSGBOX1 15 0x4000 demo_state = Inr (15, s') \<and>
       msg_list s' MSGBOX_ID_MSGBOX1 [0xFFE000] \<and> sender (msgbufs s' 0xFFE000) = Some 1 \<and>
       param_size (msgbufs s' 0xFFE000) = 15 \<and> param_p (msgbufs s' 0xFFE000) = 0x4000 \<and>
       ready_lists s' ((\<lambda>i. [])(15 := [0], 1 := [1]))) \<and>
   (\<exists>s'. thread_send test_extern MSGBOX_ID_MSGBOX1 15 0x4000 parked_state = Inr (15, s') \<and>
       msg_list s' MSGBOX_ID_MSGBOX1 [] \<and>
       params s' 0x3100 = Un_recv MSGBOX_ID_MSGBOX1 0x5000 0x5004 0xFFD040 \<and>
       mem s' 0x5000 = 15 \<and> mem s' 0x5004 = 0x4000 \<and>
       receiver (msgboxes s' MSGBOX_ID_MSGBOX1) = None \<and>
       ready_lists s' ((\<lambda>i. [])(15 := [0], 1 := [1, 2])))"
proof
  have nr: "receiver (msgboxes demo_state MSGBOX_ID_MSGBOX1) = None"
    by (simp add: demo_state_def zero_state_def)
  have n: "(0xFFE000 :: 32 word) \<noteq> 0" "(0xFFE000 :: 32 word) \<notin> set []"
    by simp_all
  from thread_send_result [OF demo_ready_lists demo_current demo_detached_1 demo_in_readyque
      demo_alloc n(1) demo_msg_list n(2) refl refl, THEN conjunct1, THEN mp, OF nr, of 15 "0x4000"]
  show "\<exists>s'. thread_send test_extern MSGBOX_ID_MSGBOX1 15 0x4000 demo_state = Inr (15, s') \<and>
       msg_list s' MSGBOX_ID_MSGBOX1 [0xFFE000] \<and> sender (msgbufs s' 0xFFE000) = Some 1 \<and>
       param_size (msgbufs s' 0xFFE000) = 15 \<and> param_p (msgbufs s' 0xFFE000) = 0x4000 \<and>
       ready_lists s' ((\<lambda>i. [])(15 := [0], 1 := [1]))"
    by (auto simp: demo_priority_1 [simplified])
next
  have h: "receiver (msgboxes parked_state MSGBOX_ID_MSGBOX1) = Some 2 \<and> (2::nat) \<noteq> 1 \<and>
      detached parked_state ((\<lambda>i. [])(15 := [0])) 2 \<and>
      in_readyque (priority (threads parked_state 2)) \<and>
      syscall_param (threads parked_state 2) = 0x3100 \<and> (0x3100 :: 32 word) \<noteq> 0 \<and>
      params parked_state 0x3100 = Un_recv MSGBOX_ID_MSGBOX1 0x5000 0x5004 (- 1) \<and>
      (0xFFE000 :: 32 word) = hd ([] @ [0xFFE000])"
    using parked_queues parked_mailbox by simp
  have p: "priority (threads parked_state (Suc 0)) = 1" "priority (threads parked_state 2) = 1"
    "addr_threads test_extern (Suc 0) = 0xFFD040" "mem parked_state = (\<lambda>a. 0)"
    by (simp_all add: parked_state_def demo_state_def zero_state_def zero_thread_def test_extern_def)
  from thread_send_result [OF parked_queues(1-4) parked_mailbox(1-4) refl refl,
      THEN conjunct2, THEN mp, OF h, of 15 "0x4000"]
  show "\<exists>s'. thread_send test_extern MSGBOX_ID_MSGBOX1 15 0x4000 parked_state = Inr (15, s') \<and>
       msg_list s' MSGBOX_ID_MSGBOX1 [] \<and>
       params s' 0x3100 = Un_recv MSGBOX_ID_MSGBOX1 0x5000 0x5004 0xFFD040 \<and>
       mem s' 0x5000 = 15 \<and> mem s' 0x5004 = 0x4000 \<and>
       receiver (msgboxes s' MSGBOX_ID_MSGBOX1) = None \<and>
       ready_lists s' ((\<lambda>i. [])(15 := [0], 1 := [1, 2]))"
    by (auto simp: p tcb_addr_def)
qed

lemma parked_null_facts:
  "ready_lists parked_null_state ((\<lambda>i. [])(15 := [0]))"
  "current parked_null_state = Some 1"
  "detached parked_null_state ((\<lambda>i. [])(15 := [0])) 1"
  "in_readyque (priority (threads parked_null_state 1))"
  "kzmem_alloc test_extern (kzmem parked_null_state) (sizeof_kz_msgbuf test_extern) = (0xFFE000, [0xFFE010])"
  "(0xFFE000 :: 32 word) \<noteq> 0"
  "msg_list parked_null_state MSGBOX_ID_MSGBOX1 []"
  "(0xFFE000 :: 32 word) \<notin> set []"
  "receiver (msgboxes parked_null_state MSGBOX_ID_MSGBOX1) = Some 2"
  "(2::nat) \<noteq> 1"
  "detached parked_null_state ((\<lambda>i. [])(15 := [0])) 2"
  "in_readyque (priority (threads parked_null_state 2))"
  "syscall_param (threads parked_null_state 2) = 0x3100"
  "(0x3100 :: 32 word) \<noteq> 0"
  "params parked_null_state 0x3100 = Un_recv MSGBOX_ID_MSGBOX1 0 0 (- 1)"
proof -
  have r: "readyque parked_null_state = readyque parked_state"
    and t: "threads parked_null_state = threads parked_state"
    by (simp_all add: parked_null_state_def)
  show "ready_lists parked_null_state ((\<lambda>i. [])(15 := [0]))"
    using parked_queues(1) ready_lists_frame [of parked_null_state parked_state] by (simp add: r t)
  show "current parked_null_state = Some 1"
    by (simp add: parked_null_state_def parked_queues)
  show "detached parked_null_state ((\<lambda>i. [])(15 := [0])) 1"
    using parked_queues(3) by (simp add: detached_def t)
  show "in_readyque (priority (threads parked_null_state 1))"
    using parked_queues(4) by (simp add: t)
  show "detached parked_null_state ((\<lambda>i. [])(15 := [0])) 2"
    using parked_queues(5) by (simp add: detached_def t)
  show "in_readyque (priority (threads parked_null_state 2))"
    using parked_queues(6) by (simp add: t)
  show "kzmem_alloc test_extern (kzmem parked_null_state) (sizeof_kz_msgbuf test_extern) = (0xFFE000, [0xFFE010])"
    using parked_mailbox(1) by (simp add: parked_null_state_def)
  show "msg_list parked_null_state MSGBOX_ID_MSGBOX1 []"
    using parked_mailbox(3) by (simp add: parked_null_state_def msg_list_def)
  show "receiver (msgboxes parked_null_state MSGBOX_ID_MSGBOX1) = Some 2"
    using parked_mailbox(5) by (simp add: parked_null_state_def)
  show "syscall_param (threads parked_null_state 2) = 0x3100"
    using parked_mailbox(7) by (simp add: t)
  show "params parked_null_state 0x3100 = Un_recv MSGBOX_ID_MSGBOX1 0 0 (- 1)"
    by (simp add: parked_null_state_def)
qed simp_all

text \<open>
  Claim C2 as stated does not hold: the receiver passed \<open>NULL\<close> for \<open>sizep\<close> and \<open>pp\<close>,
  and after the delivery of a message of 15 bytes at \<open>0x4000\<close> its block holds the
  sender's id only, while every cell of user memory is still 0: the size and the pointer
  were written nowhere.
\<close>

theorem thread_send_null_out_pointers:
  "\<exists>s'. thread_send test_extern MSGBOX_ID_MSGBOX1 15 0x4000 parked_null_state = Inr (15, s') \<and>
      params s' 0x3100 = Un_recv MSGBOX_ID_MSGBOX1 0 0 0xFFD040 \<and>
      mem s' = (\<lambda>a. 0) \<and> (\<forall>a. mem s' a \<noteq> 15 \<and> mem s' a \<noteq> 0x4000)"
proof -
  have p: "addr_threads test_extern (Suc 0) = 0xFFD040" "mem parked_null_state = (\<lambda>a. 0)"
    by (simp_all add: parked_null_state_def parked_state_def demo_state_def zero_state_def
        test_extern_def)
  from thread_send_deliver [OF parked_null_facts(1-15) refl refl refl refl refl refl,
      of 15 "0x4000"]
  show ?thesis
    by (auto simp: p tcb_addr_def test_extern_def)
qed










section \<open>What every handler leaves alone\<close>

lemma thenf_Inr: "thenf m f = Inr y \<longleftrightarrow> (\<exists>x. m = Inr x \<and> f x = Inr y)"
  by (cases m) auto

lemma putcurrent_links: "putcurrent s = Inr (r, s') \<Longrightarrow> links_only s s'"
  by (auto simp: putcurrent_def links_only_def Let_def split: option.splits if_splits)

lemma getcurrent_links: "getcurrent s = Inr (r, s') \<Longrightarrow> links_only s s'"
  by (auto simp: getcurrent_def links_only_def Let_def split: option.splits if_splits)

lemma putcurrent_ready_mono:
  "putcurrent s = Inr (r, s') \<Longrightarrow> is_ready (threads s x) \<Longrightarrow> is_ready (threads s' x)"
  by (auto simp: putcurrent_def Let_def split: option.splits if_splits)

lemma putcurrent_null: "current s = None \<Longrightarrow> putcurrent s = Inr (- 1, s)"
  by (simp add: putcurrent_def)

lemma sendmsg_frame:
  assumes "sendmsg L k thp sz p s = Inr s'"
  shows "threads s' = threads s" and "readyque s' = readyque s" and "current s' = current s"
    and "\<forall>j. j \<noteq> k \<longrightarrow> msgboxes s' j = msgboxes s j"
    and "receiver (msgboxes s' k) = receiver (msgboxes s k)"
  using assms by (auto simp: sendmsg_def Let_def kz_sysdown_def split: if_splits)

lemma recvmsg_frame:
  assumes "recvmsg L k s = Inr s'"
  shows "threads s' = threads s" and "readyque s' = readyque s" and "current s' = current s"
    and "\<forall>j. j \<noteq> k \<longrightarrow> msgboxes s' j = msgboxes s j"
    and "receiver (msgboxes s' k) = None"
proof -
  have 1: "mhead (msgboxes s k) \<noteq> 0"
  proof
    assume "mhead (msgboxes s k) = 0"
    then have "recvmsg L k s = Inl NullDeref"
      by (simp add: recvmsg_def)
    with assms show False
      by simp
  qed
  have "receiver (msgboxes s k) \<noteq> None"
  proof
    assume "receiver (msgboxes s k) = None"
    with 1 have "recvmsg L k s = Inl NullDeref"
      by (simp add: recvmsg_def Let_def)
    with assms show False
      by simp
  qed
  then obtain r where 2: "receiver (msgboxes s k) = Some r"
    by auto
  have 3: "syscall_param (threads s r) \<noteq> 0"
  proof
    assume "syscall_param (threads s r) = 0"
    with 1 2 have "recvmsg L k s = Inl NullDeref"
      by (simp add: recvmsg_def Let_def)
    with assms show False
      by simp
  qed
  obtain u where 4: "set_recv_ret (tcb_addr L (sender (msgbufs s (mhead (msgboxes s k)))))
      (params s (syscall_param (threads s r))) = Inr u"
  proof (cases "set_recv_ret (tcb_addr L (sender (msgbufs s (mhead (msgboxes s k)))))
      (params s (syscall_param (threads s r)))")
    case (Inl e)
    with 1 2 3 have "recvmsg L k s = Inl e"
      by (simp add: recvmsg_def Let_def)
    with assms show ?thesis
      by simp
  next
    case (Inr u)
    then show ?thesis
      by (rule that)
  qed
  from 1 2 3 4 have "\<exists>X. recvmsg L k s = Inr X \<and> threads X = threads s \<and>
      readyque X = readyque s \<and> current X = current s \<and>
      (\<forall>j. j \<noteq> k \<longrightarrow> msgboxes X j = msgboxes s j) \<and> receiver (msgboxes X k) = None"
    by (simp add: recvmsg_def Let_def)
  with assms show "threads s' = threads s" and "readyque s' = readyque s"
    and "current s' = current s" and "\<forall>j. j \<noteq> k \<longrightarrow> msgboxes s' j = msgboxes s j"
    and "receiver (msgboxes s' k) = None"
    by auto
qed

lemma store_param_frame:
  assumes "store_param p f s = Inr s'"
  shows "threads s' = threads s" and "readyque s' = readyque s" and "current s' = current s"
    and "msgboxes s' = msgboxes s"
  using assms by (auto simp: store_param_def thenf_Inr split: if_splits)

section \<open>The mailbox invariant\<close>

lemma putcurrent_boxes: "putcurrent s = Inr (r, s') \<Longrightarrow> msgboxes s' = msgboxes s"
  by (drule putcurrent_links) (simp add: links_only_state)

lemma getcurrent_boxes: "getcurrent s = Inr (r, s') \<Longrightarrow> msgboxes s' = msgboxes s"
  by (drule getcurrent_links) (simp add: links_only_state)

lemma thread_run_boxes:
  "thread_run L f nm pri ss ac av s = Inr (r, s') \<Longrightarrow> msgboxes s' = msgboxes s"
  by (auto simp: thread_run_def Let_def thenf_Inr split: if_splits dest!: putcurrent_boxes)

lemma thread_exit_boxes: "thread_exit s = Inr (r, s') \<Longrightarrow> msgboxes s' = msgboxes s"
  by (auto simp: thread_exit_def split: option.splits)

lemma thread_wait_boxes: "thread_wait s = Inr (r, s') \<Longrightarrow> msgboxes s' = msgboxes s"
  by (auto simp: thread_wait_def thenf_Inr dest!: putcurrent_boxes)

lemma thread_sleep_boxes: "thread_sleep s = Inr (r, s') \<Longrightarrow> msgboxes s' = msgboxes s"
  by (auto simp: thread_sleep_def)

lemma thread_wakeup_boxes: "thread_wakeup L tid s = Inr (r, s') \<Longrightarrow> msgboxes s' = msgboxes s"
  by (auto simp: thread_wakeup_def thenf_Inr dest!: putcurrent_boxes)

lemma thread_getid_boxes: "thread_getid L s = Inr (r, s') \<Longrightarrow> msgboxes s' = msgboxes s"
  by (auto simp: thread_getid_def thenf_Inr dest!: putcurrent_boxes)

lemma thread_chpri_boxes: "thread_chpri pri s = Inr (r, s') \<Longrightarrow> msgboxes s' = msgboxes s"
  by (auto simp: thread_chpri_def Let_def thenf_Inr split: option.splits if_splits
      dest!: putcurrent_boxes)

lemma thread_kmalloc_boxes: "thread_kmalloc L sz s = Inr (r, s') \<Longrightarrow> msgboxes s' = msgboxes s"
  by (auto simp: thread_kmalloc_def thenf_Inr dest!: putcurrent_boxes)

lemma thread_kmfree_boxes: "thread_kmfree L p s = Inr (r, s') \<Longrightarrow> msgboxes s' = msgboxes s"
  by (auto simp: thread_kmfree_def thenf_Inr dest!: putcurrent_boxes)

lemma thread_setintr_boxes:
  "thread_setintr L ty h s = Inr (r, s') \<Longrightarrow> msgboxes s' = msgboxes s"
  by (auto simp: thread_setintr_def thenf_Inr split: if_splits dest!: putcurrent_boxes)

lemma store_param_inv: "store_param p f s = Inr s' \<Longrightarrow> mbox_inv s' m = mbox_inv s m"
  by (simp add: mbox_inv_def store_param_frame)

lemma thread_send_inv:
  assumes "thread_send L k sz p s = Inr (r, s')" and "mbox_inv s m"
  shows "mbox_inv s' m"
proof -
  from assms(1) obtain r1 s1 s2 where s1: "putcurrent s = Inr (r1, s1)"
    and s2: "sendmsg L k (current s1) sz p s1 = Inr s2"
    and rest: "(if receiver (msgboxes s2 k) \<noteq> None then
        thenf (recvmsg L k (s2\<lparr>current := receiver (msgboxes s2 k)\<rparr>)) (\<lambda>s3.
        thenf (putcurrent s3) (\<lambda>(r2, s4). Inr (sz, s4)))
      else Inr (sz, s2)) = Inr (r, s')"
    by (auto simp: thread_send_def thenf_Inr)
  have b1: "msgboxes s1 = msgboxes s"
    using s1 by (rule putcurrent_boxes)
  note f2 = sendmsg_frame [OF s2]
  show ?thesis
  proof (cases "receiver (msgboxes s2 k) = None")
    case True
    with rest have e: "s' = s2"
      by simp
    show ?thesis
    proof (cases "m = k")
      case True
      with \<open>receiver (msgboxes s2 k) = None\<close> show ?thesis
        by (simp add: mbox_inv_def e)
    next
      case False
      with assms(2) f2(4) show ?thesis
        by (simp add: mbox_inv_def e b1)
    qed
  next
    case False
    with rest obtain s3 r2 where s3: "recvmsg L k (s2\<lparr>current := receiver (msgboxes s2 k)\<rparr>) = Inr s3"
      and s4: "putcurrent s3 = Inr (r2, s')"
      by (auto simp: thenf_Inr)
    note f3 = recvmsg_frame [OF s3]
    have b4: "msgboxes s' = msgboxes s3"
      using s4 by (rule putcurrent_boxes)
    show ?thesis
    proof (cases "m = k")
      case True
      with f3(5) show ?thesis
        by (simp add: mbox_inv_def b4)
    next
      case False
      with assms(2) f2(4) f3(4) show ?thesis
        by (simp add: mbox_inv_def b4 b1)
    qed
  qed
qed

lemma thread_recv_inv:
  assumes "thread_recv L k sizep pp s = Inr (r, s')" and "mbox_inv s m"
  shows "mbox_inv s' m"
proof -
  define s1 where "s1 = s\<lparr>msgboxes := (msgboxes s)(k := (msgboxes s k)\<lparr>receiver := current s\<rparr>)\<rparr>"
  from assms(1) have nr: "receiver (msgboxes s k) = None"
    by (auto simp: thread_recv_def kz_sysdown_def split: if_splits)
  show ?thesis
  proof (cases "mhead (msgboxes s k) = 0")
    case True
    with assms(1) nr have e: "s' = s1"
      by (simp add: thread_recv_def s1_def Let_def)
    from True assms(2) show ?thesis
      by (auto simp: mbox_inv_def e s1_def)
  next
    case False
    with assms(1) nr obtain s2 r2 s3 where s2: "recvmsg L k s1 = Inr s2"
      and s3: "putcurrent s2 = Inr (r2, s3)"
      and rest: "(case current s3 of
                None \<Rightarrow> Inl NullDeref
              | Some c \<Rightarrow>
                 if syscall_param (threads s3 c) = 0 then Inl NullDeref
                 else (case params s3 (syscall_param (threads s3 c)) of
                         Un_recv i sp q ret \<Rightarrow> Inr (ret, s3)
                       | _ \<Rightarrow> Inl UnionMismatch)) = Inr (r, s')"
      by (auto simp: thread_recv_def s1_def Let_def thenf_Inr)
    from rest have e: "s' = s3"
      by (auto split: option.splits if_splits kz_syscall_param_t.splits)
    note f2 = recvmsg_frame [OF s2]
    have b3: "msgboxes s3 = msgboxes s2"
      using s3 by (rule putcurrent_boxes)
    show ?thesis
    proof (cases "m = k")
      case True
      with f2(5) show ?thesis
        by (simp add: mbox_inv_def e b3)
    next
      case False
      with assms(2) f2(4) show ?thesis
        by (simp add: mbox_inv_def e b3 s1_def)
    qed
  qed
qed

lemma call_functions_cases:
  assumes "call_functions L ty p s = Inr s'"
  shows "(\<exists>f n pr ss ac av r s1. ty = KZ_SYSCALL_TYPE_RUN \<and>
            thread_run L f n pr ss ac av s = Inr (r, s1) \<and> store_param p (set_run_ret r) s1 = Inr s') \<or>
         (\<exists>r. ty = KZ_SYSCALL_TYPE_EXIT \<and> thread_exit s = Inr (r, s')) \<or>
         (\<exists>r s1. ty = KZ_SYSCALL_TYPE_WAIT \<and>
            thread_wait s = Inr (r, s1) \<and> store_param p (set_wait_ret r) s1 = Inr s') \<or>
         (\<exists>r s1. ty = KZ_SYSCALL_TYPE_SLEEP \<and>
            thread_sleep s = Inr (r, s1) \<and> store_param p (set_sleep_ret r) s1 = Inr s') \<or>
         (\<exists>i r s1. ty = KZ_SYSCALL_TYPE_WAKEUP \<and>
            thread_wakeup L i s = Inr (r, s1) \<and> store_param p (set_wakeup_ret r) s1 = Inr s') \<or>
         (\<exists>r s1. ty = KZ_SYSCALL_TYPE_GETID \<and>
            thread_getid L s = Inr (r, s1) \<and> store_param p (set_getid_ret r) s1 = Inr s') \<or>
         (\<exists>pr r s1. ty = KZ_SYSCALL_TYPE_CHPRI \<and>
            thread_chpri pr s = Inr (r, s1) \<and> store_param p (set_chpri_ret r) s1 = Inr s') \<or>
         (\<exists>sz r s1. ty = KZ_SYSCALL_TYPE_KMALLOC \<and>
            thread_kmalloc L sz s = Inr (r, s1) \<and> store_param p (set_kmalloc_ret r) s1 = Inr s') \<or>
         (\<exists>q r s1. ty = KZ_SYSCALL_TYPE_KMFREE \<and>
            thread_kmfree L q s = Inr (r, s1) \<and> store_param p (set_kmfree_ret r) s1 = Inr s') \<or>
         (\<exists>i sz q r s1. ty = KZ_SYSCALL_TYPE_SEND \<and>
            thread_send L i sz q s = Inr (r, s1) \<and> store_param p (set_send_ret r) s1 = Inr s') \<or>
         (\<exists>i sp pp r s1. ty = KZ_SYSCALL_TYPE_RECV \<and>
            thread_recv L i sp pp s = Inr (r, s1) \<and> store_param p (set_recv_ret r) s1 = Inr s') \<or>
         (\<exists>t h r s1. ty = KZ_SYSCALL_TYPE_SETINTR \<and>
            thread_setintr L t h s = Inr (r, s1) \<and> store_param p (set_setintr_ret r) s1 = Inr s')"
proof (cases ty)
  case KZ_SYSCALL_TYPE_RUN
  with assms show ?thesis
    by (cases "params s p")
       (fastforce simp: call_functions_def load_param_def thenf_Inr split: if_splits)+
next
  case KZ_SYSCALL_TYPE_EXIT
  with assms show ?thesis
    by (auto simp: call_functions_def thenf_Inr)
next
  case KZ_SYSCALL_TYPE_WAIT
  with assms show ?thesis
    by (auto simp: call_functions_def thenf_Inr)
next
  case KZ_SYSCALL_TYPE_SLEEP
  with assms show ?thesis
    by (auto simp: call_functions_def thenf_Inr)
next
  case KZ_SYSCALL_TYPE_WAKEUP
  with assms show ?thesis
    by (cases "params s p")
       (fastforce simp: call_functions_def load_param_def thenf_Inr split: if_splits)+
next
  case KZ_SYSCALL_TYPE_GETID
  with assms show ?thesis
    by (auto simp: call_functions_def thenf_Inr)
next
  case KZ_SYSCALL_TYPE_CHPRI
  with assms show ?thesis
    by (cases "params s p")
       (fastforce simp: call_functions_def load_param_def thenf_Inr split: if_splits)+
next
  case KZ_SYSCALL_TYPE_KMALLOC
  with assms show ?thesis
    by (cases "params s p")
       (fastforce simp: call_functions_def load_param_def thenf_Inr split: if_splits)+
next
  case KZ_SYSCALL_TYPE_KMFREE
  with assms show ?thesis
    by (cases "params s p")
       (fastforce simp: call_functions_def load_param_def thenf_Inr split: if_splits)+
next
  case KZ_SYSCALL_TYPE_SEND
  with assms show ?thesis
    by (cases "params s p")
       (fastforce simp: call_functions_def load_param_def thenf_Inr split: if_splits)+
next
  case KZ_SYSCALL_TYPE_RECV
  with assms show ?thesis
    by (cases "params s p")
       (fastforce simp: call_functions_def load_param_def thenf_Inr split: if_splits)+
next
  case KZ_SYSCALL_TYPE_SETINTR
  with assms show ?thesis
    by (cases "params s p")
       (fastforce simp: call_functions_def load_param_def thenf_Inr split: if_splits)+
qed


lemma boxes_inv: "msgboxes s' = msgboxes s \<Longrightarrow> mbox_inv s m \<Longrightarrow> mbox_inv s' m"
  by (simp add: mbox_inv_def)

lemma store_step_inv:
  assumes "store_param p g s1 = Inr s'" and "mbox_inv s1 m"
  shows "mbox_inv s' m"
  using assms(2) by (rule boxes_inv [OF store_param_frame(4) [OF assms(1)]])

lemmas handler_inv =
  boxes_inv [OF thread_run_boxes] boxes_inv [OF thread_exit_boxes]
  boxes_inv [OF thread_wait_boxes] boxes_inv [OF thread_sleep_boxes]
  boxes_inv [OF thread_wakeup_boxes] boxes_inv [OF thread_getid_boxes]
  boxes_inv [OF thread_chpri_boxes] boxes_inv [OF thread_kmalloc_boxes]
  boxes_inv [OF thread_kmfree_boxes] boxes_inv [OF thread_setintr_boxes]
  thread_send_inv thread_recv_inv

lemma call_functions_inv:
  assumes cf: "call_functions L ty p s = Inr s'" and inv: "mbox_inv s m"
  shows "mbox_inv s' m"
  using call_functions_cases [OF cf]
  apply (elim disjE exE conjE)
  apply (erule store_step_inv, erule handler_inv, rule inv)
  apply (erule handler_inv, rule inv)
  apply (erule store_step_inv, erule handler_inv, rule inv)
  apply (erule store_step_inv, erule handler_inv, rule inv)
  apply (erule store_step_inv, erule handler_inv, rule inv)
  apply (erule store_step_inv, erule handler_inv, rule inv)
  apply (erule store_step_inv, erule handler_inv, rule inv)
  apply (erule store_step_inv, erule handler_inv, rule inv)
  apply (erule store_step_inv, erule handler_inv, rule inv)
  apply (erule store_step_inv, erule handler_inv, rule inv)
  apply (erule store_step_inv, erule handler_inv, rule inv)
  apply (erule store_step_inv, erule handler_inv, rule inv)
  done

lemma schedule_boxes: "schedule s = Inr s' \<Longrightarrow> msgboxes s' = msgboxes s"
  by (auto simp: schedule_def Let_def kz_sysdown_def split: if_splits)

lemma syscall_proc_inv:
  assumes "syscall_proc L ty p s = Inr s'" and "mbox_inv s m"
  shows "mbox_inv s' m"
proof -
  from assms(1) obtain r s1 where g: "getcurrent s = Inr (r, s1)"
    and c: "call_functions L ty p s1 = Inr s'"
    by (auto simp: syscall_proc_def thenf_Inr)
  from assms(2) have "mbox_inv s1 m"
    by (rule boxes_inv [OF getcurrent_boxes [OF g]])
  with c show ?thesis
    by (rule call_functions_inv)
qed

lemma kz_srvcall_inv:
  assumes "kz_srvcall L ty p s = Inr s'" and "mbox_inv s m"
  shows "mbox_inv s' m"
proof -
  from assms(1) have "call_functions L ty p (s\<lparr>current := None\<rparr>) = Inr s'"
    by (simp add: kz_srvcall_def srvcall_proc_def)
  moreover from assms(2) have "mbox_inv (s\<lparr>current := None\<rparr>) m"
    by (simp add: mbox_inv_def)
  ultimately show ?thesis
    by (rule call_functions_inv)
qed

lemma syscall_intr_inv:
  assumes "syscall_intr L s = Inr s'" and "mbox_inv s m"
  shows "mbox_inv s' m"
proof (cases "current s")
  case None
  with assms(1) show ?thesis
    by (simp add: syscall_intr_def)
next
  case (Some c)
  with assms(1)
  have "syscall_proc L (syscall_type (threads s c)) (syscall_param (threads s c)) s = Inr s'"
    by (simp add: syscall_intr_def)
  then show ?thesis
    using assms(2) by (rule syscall_proc_inv)
qed

lemma thread_intr_inv:
  assumes "thread_intr (Some h) sp s = Inr s'" and "mbox_inv s m"
    and "\<And>s1 s2. h s1 = Inr s2 \<Longrightarrow> mbox_inv s1 m \<Longrightarrow> mbox_inv s2 m"
  shows "mbox_inv s' m"
proof (cases "current s")
  case None
  with assms(1) show ?thesis
    by (simp add: thread_intr_def)
next
  case (Some c)
  define s1 where "s1 = s\<lparr>threads := (threads s)(c := (threads s c)\<lparr>context_sp := sp\<rparr>)\<rparr>"
  from assms(1) Some have "thenf (h s1) schedule = Inr s'"
    by (simp add: thread_intr_def s1_def)
  then obtain s2 where 1: "h s1 = Inr s2" and 2: "schedule s2 = Inr s'"
    by (auto simp: thenf_Inr)
  from assms(2) have "mbox_inv s1 m"
    by (simp add: mbox_inv_def s1_def)
  with 1 have "mbox_inv s2 m"
    by (rule assms(3))
  then show ?thesis
    by (rule boxes_inv [OF schedule_boxes [OF 2]])
qed

lemma kz_syscall_inv:
  assumes "kz_syscall L ty p sp s = Inr s'" and "mbox_inv s m"
  shows "mbox_inv s' m"
proof (cases "current s")
  case None
  with assms(1) show ?thesis
    by (simp add: kz_syscall_def)
next
  case (Some c)
  define s1 where "s1 = s\<lparr>threads := (threads s)
      (c := (threads s c)\<lparr>syscall_type := ty, syscall_param := p\<rparr>)\<rparr>"
  from assms(1) Some have "thread_intr (Some (syscall_intr L)) sp s1 = Inr s'"
    by (simp add: kz_syscall_def s1_def)
  moreover from assms(2) have "mbox_inv s1 m"
    by (simp add: mbox_inv_def s1_def)
  ultimately show ?thesis
    by (rule thread_intr_inv) (rule syscall_intr_inv)
qed

lemma do_request_inv:
  assumes "do_request L rq s = Inr s'" and "mbox_inv s m"
  shows "mbox_inv s' m"
proof (cases rq)
  case (Syscall ty p u sp)
  with assms(1) have "kz_syscall L ty p sp (s\<lparr>params := (params s)(p := u)\<rparr>) = Inr s'"
    by (simp add: do_request_def)
  moreover from assms(2) have "mbox_inv (s\<lparr>params := (params s)(p := u)\<rparr>) m"
    by (simp add: mbox_inv_def)
  ultimately show ?thesis
    by (rule kz_syscall_inv)
next
  case (Srvcall ty p u)
  with assms(1) have "kz_srvcall L ty p (s\<lparr>params := (params s)(p := u)\<rparr>) = Inr s'"
    by (simp add: do_request_def)
  moreover from assms(2) have "mbox_inv (s\<lparr>params := (params s)(p := u)\<rparr>) m"
    by (simp add: mbox_inv_def)
  ultimately show ?thesis
    by (rule kz_srvcall_inv)
qed

text \<open>
  Claim C5. For every mailbox \<open>m\<close>: a system call (\<open>kz_syscall\<close>) that returns, a service
  call (\<open>kz_srvcall\<close>) that returns, and a sequence of requests of both kinds that returns,
  each started on a state in which \<open>m\<close> does not have both a pending receiver and a
  message, end on a state in which \<open>m\<close> does not have both. The requests and their
  parameter blocks are arbitrary, so the property holds after every request of a sequence.
\<close>

theorem mailbox_invariant:
  "(\<not> (receiver (msgboxes s m) \<noteq> None \<and> mhead (msgboxes s m) \<noteq> 0) \<and>
    kz_syscall L ty p sp s = Inr s' \<longrightarrow>
      \<not> (receiver (msgboxes s' m) \<noteq> None \<and> mhead (msgboxes s' m) \<noteq> 0)) \<and>
   (\<not> (receiver (msgboxes s m) \<noteq> None \<and> mhead (msgboxes s m) \<noteq> 0) \<and>
    kz_srvcall L ty p s = Inr s' \<longrightarrow>
      \<not> (receiver (msgboxes s' m) \<noteq> None \<and> mhead (msgboxes s' m) \<noteq> 0)) \<and>
   (\<not> (receiver (msgboxes s m) \<noteq> None \<and> mhead (msgboxes s m) \<noteq> 0) \<and>
    run_requests L rqs s = Inr s' \<longrightarrow>
      \<not> (receiver (msgboxes s' m) \<noteq> None \<and> mhead (msgboxes s' m) \<noteq> 0))"
proof (intro conjI; rule impI; elim conjE)
  assume "\<not> (receiver (msgboxes s m) \<noteq> None \<and> mhead (msgboxes s m) \<noteq> 0)"
    and r: "kz_syscall L ty p sp s = Inr s'"
  then have "mbox_inv s m"
    by (simp add: mbox_inv_def)
  with r have "mbox_inv s' m"
    by (rule kz_syscall_inv)
  then show "\<not> (receiver (msgboxes s' m) \<noteq> None \<and> mhead (msgboxes s' m) \<noteq> 0)"
    by (simp add: mbox_inv_def)
next
  assume "\<not> (receiver (msgboxes s m) \<noteq> None \<and> mhead (msgboxes s m) \<noteq> 0)"
    and r: "kz_srvcall L ty p s = Inr s'"
  then have "mbox_inv s m"
    by (simp add: mbox_inv_def)
  with r have "mbox_inv s' m"
    by (rule kz_srvcall_inv)
  then show "\<not> (receiver (msgboxes s' m) \<noteq> None \<and> mhead (msgboxes s' m) \<noteq> 0)"
    by (simp add: mbox_inv_def)
next
  assume "\<not> (receiver (msgboxes s m) \<noteq> None \<and> mhead (msgboxes s m) \<noteq> 0)"
    and r: "run_requests L rqs s = Inr s'"
  then have "mbox_inv s m"
    by (simp add: mbox_inv_def)
  then have "mbox_inv s' m"
    using r
  proof (induction rqs arbitrary: s)
    case Nil
    then show ?case
      by simp
  next
    case (Cons rq rqs)
    from Cons.prems(2) obtain s1 where 1: "do_request L rq s = Inr s1"
      and 2: "run_requests L rqs s1 = Inr s'"
      by (auto simp: thenf_Inr)
    from 1 Cons.prems(1) have "mbox_inv s1 m"
      by (rule do_request_inv)
    then show ?case
      using 2 by (rule Cons.IH)
  qed
  then show "\<not> (receiver (msgboxes s' m) \<noteq> None \<and> mhead (msgboxes s' m) \<noteq> 0)"
    by (simp add: mbox_inv_def)
qed

theorem mailbox_invariant_witness:
  "(\<exists>s'. kz_syscall test_extern KZ_SYSCALL_TYPE_RECV 0x3000 0xFFF4DC
        (running_state\<lparr>params := (params running_state)
           (0x3000 := Un_recv MSGBOX_ID_MSGBOX1 0x5000 0x5004 0)\<rparr>) = Inr s' \<and>
      receiver (msgboxes s' MSGBOX_ID_MSGBOX1) = Some 1 \<and>
      mhead (msgboxes s' MSGBOX_ID_MSGBOX1) = 0) \<and>
   (\<exists>s'. kz_srvcall test_extern KZ_SYSCALL_TYPE_SEND 0x3200
        (running_state\<lparr>params := (params running_state)
           (0x3200 := Un_send MSGBOX_ID_MSGBOX2 15 0x4000 0)\<rparr>) = Inr s' \<and>
      receiver (msgboxes s' MSGBOX_ID_MSGBOX2) = None \<and>
      mhead (msgboxes s' MSGBOX_ID_MSGBOX2) = 0xFFE000) \<and>
   (\<exists>s'. run_requests test_extern
        [Syscall KZ_SYSCALL_TYPE_RECV 0x3000 (Un_recv MSGBOX_ID_MSGBOX1 0x5000 0x5004 0) 0xFFF4DC,
         Srvcall KZ_SYSCALL_TYPE_SEND 0x3200 (Un_send MSGBOX_ID_MSGBOX2 15 0x4000 0)]
        running_state = Inr s' \<and>
      receiver (msgboxes s' MSGBOX_ID_MSGBOX1) = Some 1 \<and>
      mhead (msgboxes s' MSGBOX_ID_MSGBOX1) = 0 \<and>
      receiver (msgboxes s' MSGBOX_ID_MSGBOX2) = None \<and>
      mhead (msgboxes s' MSGBOX_ID_MSGBOX2) = 0xFFE000)"
proof (intro conjI)
  define S where "S = running_state\<lparr>params := (params running_state)
           (0x3000 := Un_recv MSGBOX_ID_MSGBOX1 0x5000 0x5004 0)\<rparr>"
  have "\<exists>s'. kz_syscall test_extern KZ_SYSCALL_TYPE_RECV 0x3000 0xFFF4DC S = Inr s' \<and>
      receiver (msgboxes s' MSGBOX_ID_MSGBOX1) = Some 1"
    by (simp add: S_def kz_syscall_def thread_intr_def syscall_intr_def syscall_proc_def
        getcurrent_def putcurrent_def call_functions_def load_param_def thread_recv_def
        test_extern_def store_param_def
        schedule_def schedule_loop.simps running_state_def zero_state_def zero_thread_def
        is_ready_odd in_readyque_def PRIORITY_NUM_def KZ_THREAD_FLAG_READY_def Let_def)
  then obtain s' where r: "kz_syscall test_extern KZ_SYSCALL_TYPE_RECV 0x3000 0xFFF4DC S = Inr s'"
    and r1: "receiver (msgboxes s' MSGBOX_ID_MSGBOX1) = Some 1"
    by blast
  have i: "\<not> (receiver (msgboxes S MSGBOX_ID_MSGBOX1) \<noteq> None \<and>
              mhead (msgboxes S MSGBOX_ID_MSGBOX1) \<noteq> 0)"
    by (simp add: S_def running_state_def zero_state_def)
  from mailbox_invariant [THEN conjunct1, THEN mp, OF conjI, OF i r] r1
  have "mhead (msgboxes s' MSGBOX_ID_MSGBOX1) = 0"
    by simp
  with r r1
  show "\<exists>s'. kz_syscall test_extern KZ_SYSCALL_TYPE_RECV 0x3000 0xFFF4DC
        (running_state\<lparr>params := (params running_state)
           (0x3000 := Un_recv MSGBOX_ID_MSGBOX1 0x5000 0x5004 0)\<rparr>) = Inr s' \<and>
      receiver (msgboxes s' MSGBOX_ID_MSGBOX1) = Some 1 \<and>
      mhead (msgboxes s' MSGBOX_ID_MSGBOX1) = 0"
    unfolding S_def by blast
next
  define S where "S = running_state\<lparr>params := (params running_state)
           (0x3200 := Un_send MSGBOX_ID_MSGBOX2 15 0x4000 0)\<rparr>"
  have "\<exists>s'. kz_srvcall test_extern KZ_SYSCALL_TYPE_SEND 0x3200 S = Inr s' \<and>
      mhead (msgboxes s' MSGBOX_ID_MSGBOX2) = 0xFFE000"
    by (simp add: S_def kz_srvcall_def srvcall_proc_def thread_send_def sendmsg_def
        putcurrent_def call_functions_def load_param_def
        test_extern_def store_param_def running_state_def zero_state_def zero_thread_def Let_def)
  then obtain s' where r: "kz_srvcall test_extern KZ_SYSCALL_TYPE_SEND 0x3200 S = Inr s'"
    and r2: "mhead (msgboxes s' MSGBOX_ID_MSGBOX2) = 0xFFE000"
    by blast
  have i: "\<not> (receiver (msgboxes S MSGBOX_ID_MSGBOX2) \<noteq> None \<and>
              mhead (msgboxes S MSGBOX_ID_MSGBOX2) \<noteq> 0)"
    by (simp add: S_def running_state_def zero_state_def)
  from mailbox_invariant [THEN conjunct2, THEN conjunct1, THEN mp, OF conjI, OF i r] r2
  have "receiver (msgboxes s' MSGBOX_ID_MSGBOX2) = None"
    by simp
  with r r2
  show "\<exists>s'. kz_srvcall test_extern KZ_SYSCALL_TYPE_SEND 0x3200
        (running_state\<lparr>params := (params running_state)
           (0x3200 := Un_send MSGBOX_ID_MSGBOX2 15 0x4000 0)\<rparr>) = Inr s' \<and>
      receiver (msgboxes s' MSGBOX_ID_MSGBOX2) = None \<and>
      mhead (msgboxes s' MSGBOX_ID_MSGBOX2) = 0xFFE000"
    unfolding S_def by blast
next
  have "\<exists>s'. run_requests test_extern
       [Syscall KZ_SYSCALL_TYPE_RECV 0x3000 (Un_recv MSGBOX_ID_MSGBOX1 0x5000 0x5004 0) 0xFFF4DC,
        Srvcall KZ_SYSCALL_TYPE_SEND 0x3200 (Un_send MSGBOX_ID_MSGBOX2 15 0x4000 0)]
       running_state = Inr s' \<and>
     receiver (msgboxes s' MSGBOX_ID_MSGBOX1) = Some 1 \<and>
     mhead (msgboxes s' MSGBOX_ID_MSGBOX2) = 0xFFE000"
    by (simp add: do_request_def kz_syscall_def thread_intr_def syscall_intr_def syscall_proc_def
        kz_srvcall_def srvcall_proc_def thread_send_def sendmsg_def
        getcurrent_def putcurrent_def call_functions_def load_param_def thread_recv_def
        test_extern_def store_param_def
        schedule_def schedule_loop.simps running_state_def zero_state_def zero_thread_def
        is_ready_odd in_readyque_def PRIORITY_NUM_def KZ_THREAD_FLAG_READY_def Let_def)
  then obtain s' where r: "run_requests test_extern
       [Syscall KZ_SYSCALL_TYPE_RECV 0x3000 (Un_recv MSGBOX_ID_MSGBOX1 0x5000 0x5004 0) 0xFFF4DC,
        Srvcall KZ_SYSCALL_TYPE_SEND 0x3200 (Un_send MSGBOX_ID_MSGBOX2 15 0x4000 0)]
       running_state = Inr s'"
    and r1: "receiver (msgboxes s' MSGBOX_ID_MSGBOX1) = Some 1"
    and r2: "mhead (msgboxes s' MSGBOX_ID_MSGBOX2) = 0xFFE000"
    by blast
  have i1: "\<not> (receiver (msgboxes running_state MSGBOX_ID_MSGBOX1) \<noteq> None \<and>
              mhead (msgboxes running_state MSGBOX_ID_MSGBOX1) \<noteq> 0)"
    and i2: "\<not> (receiver (msgboxes running_state MSGBOX_ID_MSGBOX2) \<noteq> None \<and>
              mhead (msgboxes running_state MSGBOX_ID_MSGBOX2) \<noteq> 0)"
    by (simp_all add: running_state_def zero_state_def)
  from mailbox_invariant [THEN conjunct2, THEN conjunct2, THEN mp, OF conjI, OF i1 r] r1
  have g1: "mhead (msgboxes s' MSGBOX_ID_MSGBOX1) = 0"
    by simp
  from mailbox_invariant [THEN conjunct2, THEN conjunct2, THEN mp, OF conjI, OF i2 r] r2
  have g2: "receiver (msgboxes s' MSGBOX_ID_MSGBOX2) = None"
    by simp
  from r r1 r2 g1 g2
  show "\<exists>s'. run_requests test_extern
        [Syscall KZ_SYSCALL_TYPE_RECV 0x3000 (Un_recv MSGBOX_ID_MSGBOX1 0x5000 0x5004 0) 0xFFF4DC,
         Srvcall KZ_SYSCALL_TYPE_SEND 0x3200 (Un_send MSGBOX_ID_MSGBOX2 15 0x4000 0)]
        running_state = Inr s' \<and>
      receiver (msgboxes s' MSGBOX_ID_MSGBOX1) = Some 1 \<and>
      mhead (msgboxes s' MSGBOX_ID_MSGBOX1) = 0 \<and>
      receiver (msgboxes s' MSGBOX_ID_MSGBOX2) = None \<and>
      mhead (msgboxes s' MSGBOX_ID_MSGBOX2) = 0xFFE000"
    by blast
qed

section \<open>The service call\<close>

lemma srvcall_send_queue:
  assumes pz: "p \<noteq> 0" and pb: "params s p = Un_send m sz q r0"
    and al: "kzmem_alloc L (kzmem s) (sizeof_kz_msgbuf L) = (mp, pool)" and nz: "mp \<noteq> 0"
    and ml: "msg_list s m bs" and fr: "mp \<notin> set bs"
    and nr: "receiver (msgboxes s m) = None"
  shows "\<exists>s'. kz_srvcall L KZ_SYSCALL_TYPE_SEND p s = Inr s' \<and>
           sender (msgbufs s' mp) = None \<and> param_size (msgbufs s' mp) = sz \<and>
           param_p (msgbufs s' mp) = q \<and> msg_list s' m (bs @ [mp]) \<and>
           readyque s' = readyque s \<and> threads s' = threads s \<and> current s' = None \<and>
           params s' p = Un_send m sz q sz"
proof -
  define s0 where "s0 = s\<lparr>current := None\<rparr>"
  have al0: "kzmem_alloc L (kzmem s0) (sizeof_kz_msgbuf L) = (mp, pool)"
    using al by (simp add: s0_def)
  have ml0: "msg_list s0 m bs"
    using ml by (simp add: msg_list_def s0_def)
  from sendmsg_append [OF al0 nz ml0 fr refl, of None sz q]
  obtain s2 where s2: "sendmsg L m None sz q s0 = Inr s2" "msg_list s2 m (bs @ [mp])"
    "\<forall>x. sender (msgbufs s2 x) =
           sender (((msgbufs s0)(mp := \<lparr>mnext = 0, sender = None, param_size = sz, param_p = q\<rparr>)) x) \<and>
         param_size (msgbufs s2 x) =
           param_size (((msgbufs s0)(mp := \<lparr>mnext = 0, sender = None, param_size = sz, param_p = q\<rparr>)) x) \<and>
         param_p (msgbufs s2 x) =
           param_p (((msgbufs s0)(mp := \<lparr>mnext = 0, sender = None, param_size = sz, param_p = q\<rparr>)) x)"
    "receiver (msgboxes s2 m) = receiver (msgboxes s0 m)"
    "readyque s2 = readyque s0" "threads s2 = threads s0" "current s2 = current s0"
    "params s2 = params s0"
    by blast
  have r2: "receiver (msgboxes s2 m) = None"
    using s2(4) nr by (simp add: s0_def)
  have e1: "thread_send L m sz q s0 = Inr (sz, s2)"
    using s2(1) r2 by (simp add: thread_send_def putcurrent_null s0_def)
  have p2: "params s2 p = Un_send m sz q r0"
    using pb by (simp add: s2 s0_def)
  have e2: "kz_srvcall L KZ_SYSCALL_TYPE_SEND p s =
      Inr (s2\<lparr>params := (params s2)(p := Un_send m sz q sz)\<rparr>)"
  proof -
    have pb0: "params s0 p = Un_send m sz q r0"
      using pb by (simp add: s0_def)
    have "call_functions L KZ_SYSCALL_TYPE_SEND p s0 =
        Inr (s2\<lparr>params := (params s2)(p := Un_send m sz q sz)\<rparr>)"
      using pz pb0 e1 p2
      by (simp add: call_functions_def load_param_def store_param_def)
    then show ?thesis
      by (simp add: kz_srvcall_def srvcall_proc_def s0_def)
  qed
  from s2(3) have b: "sender (msgbufs s2 mp) = None" "param_size (msgbufs s2 mp) = sz"
    "param_p (msgbufs s2 mp) = q"
    by simp_all
  have m2: "msg_list (s2\<lparr>params := (params s2)(p := Un_send m sz q sz)\<rparr>) m (bs @ [mp])"
    using s2(2) by (simp add: msg_list_def)
  show ?thesis
    apply (rule exI [of _ "s2\<lparr>params := (params s2)(p := Un_send m sz q sz)\<rparr>"])
    apply (intro conjI)
    apply (rule e2)
    apply (simp add: b)
    apply (simp add: b)
    apply (simp add: b)
    apply (rule m2)
    apply (simp add: s2 s0_def)
    apply (simp add: s2 s0_def)
    apply (simp add: s2 s0_def)
    apply simp
    done
qed

lemma srvcall_send_deliver:
  assumes pz: "p \<noteq> 0" and pb: "params s p = Un_send m sz q r0"
    and al: "kzmem_alloc L (kzmem s) (sizeof_kz_msgbuf L) = (mp, pool)" and nz: "mp \<noteq> 0"
    and ml: "msg_list s m []"
    and rc: "receiver (msgboxes s m) = Some r"
    and rl: "ready_lists s qs" and dr: "detached s qs r"
    and ir: "in_readyque (priority (threads s r))"
    and sp: "syscall_param (threads s r) = rp" and rz: "rp \<noteq> 0"
    and prm: "params s rp = Un_recv i sizep pp r1"
    and q1: "qs1 = qs(nat (priority (threads s r)) := qs (nat (priority (threads s r))) @ [r])"
  shows "\<exists>s'. kz_srvcall L KZ_SYSCALL_TYPE_SEND p s = Inr s' \<and>
           params s' rp = Un_recv i sizep pp 0 \<and> receiver (msgboxes s' m) = None \<and>
           msg_list s' m [] \<and> ready_lists s' qs1 \<and> is_ready (threads s' r) \<and>
           current s' = Some r \<and> params s' p = Un_send m sz q sz"
proof -
  have rpp: "rp \<noteq> p"
    using pb prm by auto
  define s0 where "s0 = s\<lparr>current := None\<rparr>"
  have al0: "kzmem_alloc L (kzmem s0) (sizeof_kz_msgbuf L) = (mp, pool)"
    using al by (simp add: s0_def)
  have ml0: "msg_list s0 m []"
    using ml by (simp add: msg_list_def s0_def)
  have fr: "mp \<notin> set []"
    by simp
  from sendmsg_append [OF al0 nz ml0 fr refl, of None sz q]
  obtain s2 where s2: "sendmsg L m None sz q s0 = Inr s2" "msg_list s2 m ([] @ [mp])"
    "\<forall>x. sender (msgbufs s2 x) =
           sender (((msgbufs s0)(mp := \<lparr>mnext = 0, sender = None, param_size = sz, param_p = q\<rparr>)) x) \<and>
         param_size (msgbufs s2 x) =
           param_size (((msgbufs s0)(mp := \<lparr>mnext = 0, sender = None, param_size = sz, param_p = q\<rparr>)) x) \<and>
         param_p (msgbufs s2 x) =
           param_p (((msgbufs s0)(mp := \<lparr>mnext = 0, sender = None, param_size = sz, param_p = q\<rparr>)) x)"
    "receiver (msgboxes s2 m) = receiver (msgboxes s0 m)"
    "readyque s2 = readyque s0" "threads s2 = threads s0" "current s2 = current s0"
    "params s2 = params s0"
    by blast
  have r2: "receiver (msgboxes s2 m) = Some r"
    using s2(4) rc by (simp add: s0_def)
  define s2' where "s2' = s2\<lparr>current := Some r\<rparr>"
  have e1: "thread_send L m sz q s0 =
      thenf (recvmsg L m s2') (\<lambda>s3. thenf (putcurrent s3) (\<lambda>(r2, s4). Inr (sz, s4)))"
    using s2(1) r2 by (simp add: thread_send_def putcurrent_null s0_def s2'_def)
  have ml2: "msg_list s2' m [mp]"
    using s2(2) by (simp add: msg_list_def s2'_def)
  have rc2: "receiver (msgboxes s2' m) = Some r"
    using r2 by (simp add: s2'_def)
  have sp2: "syscall_param (threads s2' r) = rp"
    using sp by (simp add: s2'_def s2 s0_def)
  have pb2: "params s2' rp = Un_recv i sizep pp r1"
    using prm by (simp add: s2'_def s2 s0_def)
  from s2(3) have sb: "sender (msgbufs s2' mp) = None"
    by (simp add: s2'_def)
  from recvmsg_deliver [OF ml2 rc2 sp2 rz pb2 refl refl, of L]
  obtain s3 where s3: "recvmsg L m s2' = Inr s3" "msg_list s3 m []"
    "receiver (msgboxes s3 m) = None"
    "params s3 = (params s2')(rp := Un_recv i sizep pp (tcb_addr L (sender (msgbufs s2' mp))))"
    "readyque s3 = readyque s2'" "threads s3 = threads s2'" "current s3 = current s2'"
    by blast
  have t3: "threads s3 = threads s" "readyque s3 = readyque s" "current s3 = Some r"
    by (simp_all add: s3 s2'_def s2 s0_def)
  have "ready_lists s3 qs = ready_lists s qs"
    by (intro ready_lists_frame) (simp_all add: t3)
  with rl have rl3: "ready_lists s3 qs"
    by simp
  have d3: "detached s3 qs r"
    using dr by (simp add: detached_def t3)
  have i3: "in_readyque (priority (threads s3 r))"
    using ir by (simp add: t3)
  from putcurrent_attach [OF rl3 t3(3) d3 i3]
  obtain s4 where s4: "putcurrent s3 = Inr (0, s4)" "ready_lists s4 qs1" "links_only s3 s4"
    "\<forall>x. is_ready (threads s4 x) \<longleftrightarrow> is_ready (threads s3 x) \<or> x = r"
    unfolding q1 by (auto simp: t3)
  note st4 = links_only_state [OF s4(3)]
  have e: "thread_send L m sz q s0 = Inr (sz, s4)"
    by (simp add: e1 s3 s4)
  have p3: "params s3 = (params s)(rp := Un_recv i sizep pp 0)"
    by (simp add: s3(4) sb tcb_addr_def) (simp add: s2'_def s2 s0_def)
  have p4: "params s4 p = Un_send m sz q r0"
    using pb rpp by (simp add: st4 p3)
  define s5 where "s5 = s4\<lparr>params := (params s4)(p := Un_send m sz q sz)\<rparr>"
  have e2: "kz_srvcall L KZ_SYSCALL_TYPE_SEND p s = Inr s5"
  proof -
    have pb0: "params s0 p = Un_send m sz q r0"
      using pb by (simp add: s0_def)
    have "call_functions L KZ_SYSCALL_TYPE_SEND p s0 = Inr s5"
      using pz pb0 e p4
      by (simp add: call_functions_def load_param_def store_param_def s5_def)
    then show ?thesis
      by (simp add: kz_srvcall_def srvcall_proc_def s0_def)
  qed
  have g1: "params s5 rp = Un_recv i sizep pp 0"
    using rpp by (simp add: s5_def st4 p3)
  have g2: "receiver (msgboxes s5 m) = None"
    by (simp add: s5_def st4 s3)
  have g3: "msg_list s5 m []"
    using s3(2) by (simp add: msg_list_def s5_def st4)
  have "ready_lists s5 qs1 = ready_lists s4 qs1"
    by (intro ready_lists_frame) (simp_all add: s5_def)
  with s4(2) have g4: "ready_lists s5 qs1"
    by simp
  have g5: "is_ready (threads s5 r)"
    using s4(4) by (simp add: s5_def)
  have g6: "current s5 = Some r"
    by (simp add: s5_def st4 t3)
  have g7: "params s5 p = Un_send m sz q sz"
    by (simp add: s5_def)
  from e2 g1 g2 g3 g4 g5 g6 g7 show ?thesis
    by blast
qed

text \<open>
  Claim C8. \<open>kz_srvcall\<close> runs the handler on the state it was given with \<open>current\<close> null
  and nothing else changed: no thread is taken off a ready queue, and whichever thread
  was running, the result is the same. For \<open>SEND\<close>, with a successful \<open>kzmem_alloc\<close>:
  on a mailbox with no receiver the buffer appended to the FIFO has a null sender, the
  ready queues and the TCBs are the ones before the call, and \<open>current\<close> is null on
  return; on an empty mailbox with a parked receiver \<open>r\<close> (off the queues, its parameter
  block one of \<open>RECV\<close>), \<open>r\<close> gets the sender id 0 in its result slot, is taken off the
  mailbox and appended to the queue of its priority, and is \<open>current\<close> on return.
\<close>

theorem srvcall_clears_current:
  "kz_srvcall L ty p s = call_functions L ty p (s\<lparr>current := None\<rparr>) \<and>
   kz_srvcall L ty p (s\<lparr>current := x\<rparr>) = kz_srvcall L ty p s \<and>
   (p \<noteq> 0 \<and> params s p = Un_send m sz q r0 \<and>
    kzmem_alloc L (kzmem s) (sizeof_kz_msgbuf L) = (mp, pool) \<and> mp \<noteq> 0 \<and>
    msg_list s m bs \<and> mp \<notin> set bs \<and> receiver (msgboxes s m) = None \<longrightarrow>
      (\<exists>s'. kz_srvcall L KZ_SYSCALL_TYPE_SEND p s = Inr s' \<and>
         sender (msgbufs s' mp) = None \<and> param_size (msgbufs s' mp) = sz \<and>
         param_p (msgbufs s' mp) = q \<and> msg_list s' m (bs @ [mp]) \<and>
         readyque s' = readyque s \<and> threads s' = threads s \<and> current s' = None \<and>
         params s' p = Un_send m sz q sz)) \<and>
   (p \<noteq> 0 \<and> params s p = Un_send m sz q r0 \<and>
    kzmem_alloc L (kzmem s) (sizeof_kz_msgbuf L) = (mp, pool) \<and> mp \<noteq> 0 \<and>
    msg_list s m [] \<and> receiver (msgboxes s m) = Some r \<and>
    ready_lists s qs \<and> detached s qs r \<and> in_readyque (priority (threads s r)) \<and>
    syscall_param (threads s r) = rp \<and> rp \<noteq> 0 \<and> params s rp = Un_recv i sizep pp r1 \<longrightarrow>
      (\<exists>s'. kz_srvcall L KZ_SYSCALL_TYPE_SEND p s = Inr s' \<and>
         params s' rp = Un_recv i sizep pp 0 \<and> receiver (msgboxes s' m) = None \<and>
         msg_list s' m [] \<and>
         ready_lists s' (qs(nat (priority (threads s r)) := qs (nat (priority (threads s r))) @ [r])) \<and>
         is_ready (threads s' r) \<and> current s' = Some r \<and> params s' p = Un_send m sz q sz))"
proof (intro conjI; (rule impI)?)
  show "kz_srvcall L ty p s = call_functions L ty p (s\<lparr>current := None\<rparr>)"
    by (simp add: kz_srvcall_def srvcall_proc_def)
next
  show "kz_srvcall L ty p (s\<lparr>current := x\<rparr>) = kz_srvcall L ty p s"
    by (simp add: kz_srvcall_def srvcall_proc_def)
next
  assume "p \<noteq> 0 \<and> params s p = Un_send m sz q r0 \<and>
    kzmem_alloc L (kzmem s) (sizeof_kz_msgbuf L) = (mp, pool) \<and> mp \<noteq> 0 \<and>
    msg_list s m bs \<and> mp \<notin> set bs \<and> receiver (msgboxes s m) = None"
  then show "\<exists>s'. kz_srvcall L KZ_SYSCALL_TYPE_SEND p s = Inr s' \<and>
         sender (msgbufs s' mp) = None \<and> param_size (msgbufs s' mp) = sz \<and>
         param_p (msgbufs s' mp) = q \<and> msg_list s' m (bs @ [mp]) \<and>
         readyque s' = readyque s \<and> threads s' = threads s \<and> current s' = None \<and>
         params s' p = Un_send m sz q sz"
    by (elim conjE) (rule srvcall_send_queue)
next
  assume "p \<noteq> 0 \<and> params s p = Un_send m sz q r0 \<and>
    kzmem_alloc L (kzmem s) (sizeof_kz_msgbuf L) = (mp, pool) \<and> mp \<noteq> 0 \<and>
    msg_list s m [] \<and> receiver (msgboxes s m) = Some r \<and>
    ready_lists s qs \<and> detached s qs r \<and> in_readyque (priority (threads s r)) \<and>
    syscall_param (threads s r) = rp \<and> rp \<noteq> 0 \<and> params s rp = Un_recv i sizep pp r1"
  then show "\<exists>s'. kz_srvcall L KZ_SYSCALL_TYPE_SEND p s = Inr s' \<and>
         params s' rp = Un_recv i sizep pp 0 \<and> receiver (msgboxes s' m) = None \<and>
         msg_list s' m [] \<and>
         ready_lists s' (qs(nat (priority (threads s r)) := qs (nat (priority (threads s r))) @ [r])) \<and>
         is_ready (threads s' r) \<and> current s' = Some r \<and> params s' p = Un_send m sz q sz"
    by (elim conjE) (rule srvcall_send_deliver [OF _ _ _ _ _ _ _ _ _ _ _ _ refl])
qed


theorem srvcall_clears_current_witness:
  "(\<exists>s'. kz_srvcall test_extern KZ_SYSCALL_TYPE_SEND 0x3000 send_call_state = Inr s' \<and>
      sender (msgbufs s' 0xFFE000) = None \<and> msg_list s' MSGBOX_ID_MSGBOX1 [0xFFE000] \<and>
      readyque s' = readyque send_call_state \<and> threads s' = threads send_call_state \<and>
      current s' = None) \<and>
   (\<exists>s'. kz_srvcall test_extern KZ_SYSCALL_TYPE_SEND 0x3200
        (parked_state\<lparr>params := (params parked_state)
           (0x3200 := Un_send MSGBOX_ID_MSGBOX1 15 0x4000 0)\<rparr>) = Inr s' \<and>
      params s' 0x3100 = Un_recv MSGBOX_ID_MSGBOX1 0x5000 0x5004 0 \<and>
      receiver (msgboxes s' MSGBOX_ID_MSGBOX1) = None \<and>
      ready_lists s' ((\<lambda>i. [])(15 := [0], 1 := [2])) \<and> current s' = Some 2)"
proof (intro conjI)
  have h: "(0x3000 :: 32 word) \<noteq> 0 \<and>
      params send_call_state 0x3000 = Un_send MSGBOX_ID_MSGBOX1 15 0x4000 0 \<and>
      kzmem_alloc test_extern (kzmem send_call_state) (sizeof_kz_msgbuf test_extern) =
        (0xFFE000, [0xFFE010]) \<and>
      (0xFFE000 :: 32 word) \<noteq> 0 \<and> msg_list send_call_state MSGBOX_ID_MSGBOX1 [] \<and>
      0xFFE000 \<notin> set [] \<and> receiver (msgboxes send_call_state MSGBOX_ID_MSGBOX1) = None"
    by (simp add: send_call_state_def demo_state_def zero_state_def test_extern_def msg_list_def)
  from srvcall_clears_current [THEN conjunct2, THEN conjunct2, THEN conjunct1, THEN mp, OF h]
  show "\<exists>s'. kz_srvcall test_extern KZ_SYSCALL_TYPE_SEND 0x3000 send_call_state = Inr s' \<and>
      sender (msgbufs s' 0xFFE000) = None \<and> msg_list s' MSGBOX_ID_MSGBOX1 [0xFFE000] \<and>
      readyque s' = readyque send_call_state \<and> threads s' = threads send_call_state \<and>
      current s' = None"
    by auto
next
  define S where "S = parked_state\<lparr>params := (params parked_state)
           (0x3200 := Un_send MSGBOX_ID_MSGBOX1 15 0x4000 0)\<rparr>"
  have rl: "ready_lists S ((\<lambda>i. [])(15 := [0]))"
    using parked_queues(1) ready_lists_frame [of S parked_state] by (simp add: S_def)
  have dt: "detached S ((\<lambda>i. [])(15 := [0])) 2"
    using parked_queues(5) by (simp add: detached_def S_def)
  have ir: "in_readyque (priority (threads S 2))"
    using parked_queues(6) by (simp add: S_def)
  have al: "kzmem_alloc test_extern (kzmem S) (sizeof_kz_msgbuf test_extern) = (0xFFE000, [0xFFE010])"
    using parked_mailbox(1) by (simp add: S_def)
  have ml: "msg_list S MSGBOX_ID_MSGBOX1 []"
    using parked_mailbox(3) by (simp add: msg_list_def S_def)
  have rc: "receiver (msgboxes S MSGBOX_ID_MSGBOX1) = Some 2"
    using parked_mailbox(5) by (simp add: S_def)
  have sp: "syscall_param (threads S 2) = 0x3100"
    using parked_mailbox(7) by (simp add: S_def)
  have pr: "params S 0x3100 = Un_recv MSGBOX_ID_MSGBOX1 0x5000 0x5004 (- 1)"
    using parked_mailbox(9) by (simp add: S_def)
  have ps: "params S 0x3200 = Un_send MSGBOX_ID_MSGBOX1 15 0x4000 0"
    by (simp add: S_def)
  have h: "(0x3200 :: 32 word) \<noteq> 0 \<and>
      params S 0x3200 = Un_send MSGBOX_ID_MSGBOX1 15 0x4000 0 \<and>
      kzmem_alloc test_extern (kzmem S) (sizeof_kz_msgbuf test_extern) = (0xFFE000, [0xFFE010]) \<and>
      (0xFFE000 :: 32 word) \<noteq> 0 \<and> msg_list S MSGBOX_ID_MSGBOX1 [] \<and>
      receiver (msgboxes S MSGBOX_ID_MSGBOX1) = Some 2 \<and>
      ready_lists S ((\<lambda>i. [])(15 := [0])) \<and> detached S ((\<lambda>i. [])(15 := [0])) 2 \<and>
      in_readyque (priority (threads S 2)) \<and>
      syscall_param (threads S 2) = 0x3100 \<and> (0x3100 :: 32 word) \<noteq> 0 \<and>
      params S 0x3100 = Un_recv MSGBOX_ID_MSGBOX1 0x5000 0x5004 (- 1)"
    using rl dt ir al ml rc sp pr ps by simp
  have p2: "priority (threads S 2) = 1"
    by (simp add: S_def parked_state_def demo_state_def zero_state_def zero_thread_def)
  from srvcall_clears_current [THEN conjunct2, THEN conjunct2, THEN conjunct2, THEN mp, OF h]
  show "\<exists>s'. kz_srvcall test_extern KZ_SYSCALL_TYPE_SEND 0x3200
        (parked_state\<lparr>params := (params parked_state)
           (0x3200 := Un_send MSGBOX_ID_MSGBOX1 15 0x4000 0)\<rparr>) = Inr s' \<and>
      params s' 0x3100 = Un_recv MSGBOX_ID_MSGBOX1 0x5000 0x5004 0 \<and>
      receiver (msgboxes s' MSGBOX_ID_MSGBOX1) = None \<and>
      ready_lists s' ((\<lambda>i. [])(15 := [0], 1 := [2])) \<and> current s' = Some 2"
    unfolding S_def [symmetric] by (auto simp: p2)
qed

end
